(* ===== verification/Go_Base.thy ===== *)
theory Go_Base
  imports Main "HOL-Library.Code_Target_Nat" "HOL-Library.AList" "HOL-Library.Sublist" "HOL-Library.Char_ord"
    "HOL-Library.List_Lexorder"
begin

text \<open>
  The vocabulary every component shares: Go errors as values with the wrapping
  relation that \<^verbatim>\<open>errors.Is\<close> walks, the result of a fallible call, Go maps as
  association lists, and the collections of rewrite rules the component
  theories fill.

  Human-readable message texts are not modelled: an error value keeps what the
  program can observe of it, the sentinels it wraps, the HTTP status of an API
  error and the field of a record error.
\<close>

section \<open>Rule collections\<close>

named_theorems go_str \<open>rewrite rules for the Go string functions\<close>
named_theorems go_map \<open>rewrite rules for Go maps\<close>
named_theorems go_err \<open>rewrite rules for error values\<close>

section \<open>Errors\<close>

text \<open>One constructor per sentinel variable of the packages that are modelled.\<close>

datatype sentinel =
    ErrName | ErrPublicSuffix | ErrMasters | ErrRecord
  | ErrForbidden
  | repo_ErrNotFound | repo_ErrConflict
  | pdns_ErrNotFound | pdns_ErrConflict | pdns_ErrUnavailable
  | recursor_ErrUnavailable
  | zones_ErrNotFound | zones_ErrDuplicate | zones_ErrInvalidKind | zones_ErrInvalid
  | zones_ErrRejected | zones_ErrTemplateNotFound | zones_ErrExportTooLarge
  | records_ErrNotFound | records_ErrConflict
  | templates_ErrDuplicate | templates_ErrInvalid
  | supermasters_ErrNotFound | supermasters_ErrDuplicate | supermasters_ErrRejected
  | ErrSkip | ErrMalformed | ErrIgnored | ipam_ErrNotFound
  | acme_ErrInvalid | acme_ErrNotFound | acme_ErrPrecondition
  | backup_ErrBadSchema | backup_ErrTooLarge

text \<open>
  \<open>Sent s\<close> is a sentinel or a \<^verbatim>\<open>fmt.Errorf("%w ...")\<close> around it, \<open>Wrap s e\<close> is
  \<^verbatim>\<open>fmt.Errorf("%w: %w")\<close>, \<open>APIError\<close> is the PowerDNS reply (status, sentinel of
  its class), \<open>RecordError\<close> names the offending field, \<open>Opaque\<close> is any other error.
\<close>

datatype gerr =
    Sent sentinel
  | Wrap sentinel gerr
  | APIError int "sentinel option"
  | RecordError string
  | Opaque string

fun errIs :: "gerr \<Rightarrow> sentinel \<Rightarrow> bool" where
  "errIs (Sent s) t = (s = t)"
| "errIs (Wrap s e) t = (s = t \<or> errIs e t)"
| "errIs (APIError st k) t = (k = Some t)"
| "errIs (RecordError f) t = (t = ErrRecord)"
| "errIs (Opaque m) t = False"

type_synonym 'a res = "gerr + 'a"

definition ok :: "'a res \<Rightarrow> bool" where
  "ok r = (case r of Inl _ \<Rightarrow> False | Inr _ \<Rightarrow> True)"

lemma ok_simps [simp, go_err]: "ok (Inr x)" "\<not> ok (Inl e)"
  by (simp_all add: ok_def)

lemma ok_iff: "ok r \<longleftrightarrow> (\<exists>x. r = Inr x)"
  by (cases r) simp_all

text \<open>Running a fallible step over a list, stopping at the first error.\<close>

fun mapM :: "('a \<Rightarrow> 'b res) \<Rightarrow> 'a list \<Rightarrow> 'b list res" where
  "mapM f [] = Inr []"
| "mapM f (x # xs) =
     (case f x of Inl e \<Rightarrow> Inl e
      | Inr y \<Rightarrow> (case mapM f xs of Inl e \<Rightarrow> Inl e | Inr ys \<Rightarrow> Inr (y # ys)))"

section \<open>Go maps\<close>

text \<open>
  A Go map is an association list; its order stands for one iteration order of
  the map. \<open>gmap\<close> is the well-formedness of such a list.
\<close>

type_synonym 'v gomap = "(string \<times> 'v) list"

abbreviation mget :: "'v gomap \<Rightarrow> string \<Rightarrow> 'v option" where
  "mget m k \<equiv> map_of m k"

abbreviation mput :: "string \<Rightarrow> 'v \<Rightarrow> 'v gomap \<Rightarrow> 'v gomap" where
  "mput \<equiv> AList.update"

abbreviation mdel :: "string \<Rightarrow> 'v gomap \<Rightarrow> 'v gomap" where
  "mdel \<equiv> AList.delete"

definition mvals :: "'v gomap \<Rightarrow> 'v list" where
  "mvals m = map snd m"

definition gmap :: "'v gomap \<Rightarrow> bool" where
  "gmap m = distinct (map fst m)"

lemma mget_mput [simp, go_map]: "mget (mput k v m) k' = (if k' = k then Some v else mget m k')"
  by (simp add: update_conv')

lemma mget_mdel [simp, go_map]: "mget (mdel k m) k' = (if k' = k then None else mget m k')"
  by (simp add: delete_conv')

lemma gmap_mput [simp, intro]: "gmap m \<Longrightarrow> gmap (mput k v m)"
  by (simp add: gmap_def distinct_update)

lemma gmap_mdel [simp, intro]: "gmap m \<Longrightarrow> gmap (mdel k m)"
  by (simp add: gmap_def distinct_delete)

lemma gmap_Nil [simp]: "gmap []"
  by (simp add: gmap_def)

lemma mvals_iff: "gmap m \<Longrightarrow> x \<in> set (mvals m) \<longleftrightarrow> (\<exists>k. mget m k = Some x)"
  by (force simp: mvals_def gmap_def)

lemma mget_mvals: "mget m k = Some x \<Longrightarrow> x \<in> set (mvals m)"
  by (force simp: mvals_def dest: map_of_SomeD)

lemma list_ex_mvals: "gmap m \<Longrightarrow> list_ex P (mvals m) \<longleftrightarrow> (\<exists>k x. mget m k = Some x \<and> P x)"
  by (simp add: list_ex_iff Bex_def mvals_iff) blast

lemma mvals_mput_new: "mget m k = None \<Longrightarrow> mvals (mput k v m) = mvals m @ [v]"
proof (induction m)
  case Nil
  then show ?case by (simp add: mvals_def)
next
  case (Cons p m)
  then show ?case by (cases p) (auto simp: mvals_def split: if_splits)
qed

text \<open>
  A map whose keys are computed from its values; deleting and filtering values.
\<close>

definition keyed :: "('v \<Rightarrow> string) \<Rightarrow> 'v gomap \<Rightarrow> bool" where
  "keyed f m = (\<forall>(k, v) \<in> set m. k = f v)"

lemma keyed_mput [simp]: "keyed f m \<Longrightarrow> k = f v \<Longrightarrow> keyed f (mput k v m)"
  unfolding keyed_def by (induction m) auto

lemma keyed_filter [simp]: "keyed f m \<Longrightarrow> keyed f (filter P m)"
  unfolding keyed_def by (metis filter_is_subset subsetD)

lemma keyed_mdel [simp]: "keyed f m \<Longrightarrow> keyed f (mdel k m)"
  by (simp add: AList.delete_eq)

lemma keyed_mget: "keyed f m \<Longrightarrow> mget m k = Some v \<Longrightarrow> k = f v"
  unfolding keyed_def by (fastforce dest: map_of_SomeD)

lemma keyed_Nil [simp]: "keyed f []"
  by (simp add: keyed_def)

lemma gmap_filter [simp]: "gmap m \<Longrightarrow> gmap (filter P m)"
  unfolding gmap_def by (rule distinct_map_filter)

lemma distinct_vals_filter: "distinct (map f (mvals m)) \<Longrightarrow> distinct (map f (mvals (filter P m)))"
  using distinct_map_filter [of "f \<circ> snd" m P] by (simp add: mvals_def)

lemma distinct_vals_mdel: "distinct (map f (mvals m)) \<Longrightarrow> distinct (map f (mvals (mdel k m)))"
  by (simp add: AList.delete_eq distinct_vals_filter)

lemma mvals_filter_subset: "set (mvals (filter P m)) \<subseteq> set (mvals m)"
  by (auto simp: mvals_def)

lemma mvals_mdel_subset: "set (mvals (mdel k m)) \<subseteq> set (mvals m)"
  by (simp add: AList.delete_eq mvals_filter_subset)

lemma map_vals_mput_old: "mget m k = Some x \<Longrightarrow> f v = f x \<Longrightarrow> map f (mvals (mput k v m)) = map f (mvals m)"
  by (induction m) (auto simp: mvals_def split: if_splits)

lemma mvals_mput_subset: "set (mvals (mput k v m)) \<subseteq> insert v (set (mvals m))"
  by (induction m) (auto simp: mvals_def)

lemma mget_filter: "gmap m \<Longrightarrow> mget (filter (\<lambda>(k, v). P v) m) k = (case mget m k of None \<Rightarrow> None | Some v \<Rightarrow> if P v then Some v else None)"
proof (induction m)
  case (Cons p m)
  obtain k' v' where p: "p = (k', v')" by (cases p)
  have "mget m k' = None" using Cons.prems by (simp add: p gmap_def map_of_eq_None_iff)
  with Cons show ?case by (auto simp: p gmap_def split: option.splits)
qed simp

lemma filter_mput_irrelevant:
  assumes "\<not> P v" and "\<And>x. mget m k = Some x \<Longrightarrow> \<not> P x"
  shows "filter (\<lambda>(k, v). P v) (mput k v m) = filter (\<lambda>(k, v). P v) m"
  using assms by (induction m) (auto split: if_splits)

lemma filter_mdel_irrelevant:
  assumes "gmap m" and "\<And>x. mget m k = Some x \<Longrightarrow> \<not> P x"
  shows "filter (\<lambda>(k, v). P v) (mdel k m) = filter (\<lambda>(k, v). P v) m"
proof -
  have "\<not> P v" if "(k, v) \<in> set m" for v using assms that by (auto simp: gmap_def)
  then show ?thesis by (auto simp: AList.delete_eq intro!: filter_cong)
qed

lemma find_SomeD: "List.find P xs = Some x \<Longrightarrow> x \<in> set xs \<and> P x"
  by (auto simp: find_Some_iff)

end
