(* ===== verification/Go_Strings.thy ===== *)
theory Go_Strings
  imports Go_Base
begin

text \<open>
  The Go standard library functions on strings the program uses. A Go string is
  a byte string and a \<^typ>\<open>char\<close> is a byte, so a \<^typ>\<open>string\<close> is a Go string;
  functions that work on runes decode UTF-8. The case tables of Unicode beyond
  ASCII are data, not code: they are the argument \<open>u\<close> of \<open>ToLower\<close>, \<open>ToUpper\<close> and
  \<open>EqualFold\<close>.
\<close>

section \<open>Bytes\<close>

definition byte :: "char \<Rightarrow> nat" where
  "byte c = of_char c"

lemma byte_less [simp]: "byte c < 256"
  by (simp add: byte_def)

definition is_ascii :: "string \<Rightarrow> bool" where
  "is_ascii s = list_all (\<lambda>c. byte c < 128) s"

definition printable :: "char \<Rightarrow> bool" where
  "printable c = (33 \<le> byte c \<and> byte c \<le> 126)"

definition is_digit :: "char \<Rightarrow> bool" where
  "is_digit c = (48 \<le> byte c \<and> byte c \<le> 57)"

definition is_lower :: "char \<Rightarrow> bool" where
  "is_lower c = (97 \<le> byte c \<and> byte c \<le> 122)"

definition is_upper :: "char \<Rightarrow> bool" where
  "is_upper c = (65 \<le> byte c \<and> byte c \<le> 90)"

definition lower_byte :: "char \<Rightarrow> char" where
  "lower_byte c = (if is_upper c then char_of (byte c + 32) else c)"

definition upper_byte :: "char \<Rightarrow> char" where
  "upper_byte c = (if is_lower c then char_of (byte c - 32) else c)"

section \<open>Runes\<close>

definition cont :: "nat \<Rightarrow> bool" where
  "cont b = (128 \<le> b \<and> b < 192)"

text \<open>\<open>utf8.DecodeRuneInString\<close>: the rune and its width; an invalid byte is U+FFFD of width 1.\<close>

definition rune_error :: nat where
  "rune_error = 65533"

fun decode_rune :: "string \<Rightarrow> nat \<times> nat" where
  "decode_rune [] = (rune_error, 0)"
| "decode_rune (c0 # s) = (let a = byte c0 in
     if a < 128 then (a, 1)
     else case s of [] \<Rightarrow> (rune_error, 1)
     | c1 # s1 \<Rightarrow> (let b = byte c1 in
       if 194 \<le> a \<and> a \<le> 223 \<and> cont b then ((a - 192) * 64 + (b - 128), 2)
       else case s1 of [] \<Rightarrow> (rune_error, 1)
       | c2 # s2 \<Rightarrow> (let c = byte c2 in
         if 224 \<le> a \<and> a \<le> 239 \<and> cont b \<and> cont c \<and> (a = 224 \<longrightarrow> 160 \<le> b) \<and> (a = 237 \<longrightarrow> b \<le> 159)
         then ((a - 224) * 4096 + (b - 128) * 64 + (c - 128), 3)
         else case s2 of [] \<Rightarrow> (rune_error, 1)
         | c3 # s3 \<Rightarrow> (let d = byte c3 in
           if 240 \<le> a \<and> a \<le> 244 \<and> cont b \<and> cont c \<and> cont d \<and> (a = 240 \<longrightarrow> 144 \<le> b) \<and> (a = 244 \<longrightarrow> b \<le> 143)
           then ((a - 240) * 262144 + (b - 128) * 4096 + (c - 128) * 64 + (d - 128), 4)
           else (rune_error, 1)))))"

definition encode_rune :: "nat \<Rightarrow> string" where
  "encode_rune r =
     (if r < 128 then [char_of r]
      else if r < 2048 then [char_of (192 + r div 64), char_of (128 + r mod 64)]
      else if r > 1114111 \<or> (55296 \<le> r \<and> r \<le> 57343) then map char_of [239, 191, 189 :: nat]
      else if r < 65536 then
        [char_of (224 + r div 4096), char_of (128 + r div 64 mod 64), char_of (128 + r mod 64)]
      else [char_of (240 + r div 262144), char_of (128 + r div 4096 mod 64),
            char_of (128 + r div 64 mod 64), char_of (128 + r mod 64)])"

text \<open>The runes a \<open>range\<close> loop visits.\<close>

function runes :: "string \<Rightarrow> nat list" where
  "runes [] = []"
| "runes (c # s) = fst (decode_rune (c # s)) # runes (drop (snd (decode_rune (c # s)) - 1) s)"
  by pat_completeness auto
termination
  by (relation "measure length") auto

definition RuneCount :: "string \<Rightarrow> nat" where
  "RuneCount s = length (runes s)"

section \<open>Case\<close>

text \<open>The Unicode tables beyond ASCII: lower, upper and simple case folding of a rune.\<close>

record unicode =
  uni_lower :: "nat \<Rightarrow> nat"
  uni_upper :: "nat \<Rightarrow> nat"
  uni_fold :: "nat \<Rightarrow> nat"

definition rune_lower :: "unicode \<Rightarrow> nat \<Rightarrow> nat" where
  "rune_lower u r = (if r < 128 then (if 65 \<le> r \<and> r \<le> 90 then r + 32 else r) else uni_lower u r)"

definition rune_upper :: "unicode \<Rightarrow> nat \<Rightarrow> nat" where
  "rune_upper u r = (if r < 128 then (if 97 \<le> r \<and> r \<le> 122 then r - 32 else r) else uni_upper u r)"

definition rune_fold :: "unicode \<Rightarrow> nat \<Rightarrow> nat" where
  "rune_fold u r = (if r < 128 then (if 65 \<le> r \<and> r \<le> 90 then r + 32 else r) else uni_fold u r)"

definition ToLower :: "unicode \<Rightarrow> string \<Rightarrow> string" where
  "ToLower u s = (if is_ascii s then map lower_byte s
     else concat (map (\<lambda>r. encode_rune (rune_lower u r)) (runes s)))"

definition ToUpper :: "unicode \<Rightarrow> string \<Rightarrow> string" where
  "ToUpper u s = (if is_ascii s then map upper_byte s
     else concat (map (\<lambda>r. encode_rune (rune_upper u r)) (runes s)))"

definition EqualFold :: "unicode \<Rightarrow> string \<Rightarrow> string \<Rightarrow> bool" where
  "EqualFold u s t = (if is_ascii s \<and> is_ascii t then map lower_byte s = map lower_byte t
     else map (rune_fold u) (runes s) = map (rune_fold u) (runes t))"

section \<open>Trimming\<close>

text \<open>The encodings of the runes \<open>unicode.IsSpace\<close> accepts.\<close>

definition space_encodings :: "string list" where
  "space_encodings = [
     [CHR 0x09], [CHR 0x0A], [CHR 0x0B], [CHR 0x0C], [CHR 0x0D], [CHR 0x20], [CHR 0xC2, CHR 0x85],
     [CHR 0xC2, CHR 0xA0], [CHR 0xE1, CHR 0x9A, CHR 0x80], [CHR 0xE2, CHR 0x80, CHR 0x80],
     [CHR 0xE2, CHR 0x80, CHR 0x81], [CHR 0xE2, CHR 0x80, CHR 0x82],
     [CHR 0xE2, CHR 0x80, CHR 0x83], [CHR 0xE2, CHR 0x80, CHR 0x84],
     [CHR 0xE2, CHR 0x80, CHR 0x85], [CHR 0xE2, CHR 0x80, CHR 0x86],
     [CHR 0xE2, CHR 0x80, CHR 0x87], [CHR 0xE2, CHR 0x80, CHR 0x88],
     [CHR 0xE2, CHR 0x80, CHR 0x89], [CHR 0xE2, CHR 0x80, CHR 0x8A],
     [CHR 0xE2, CHR 0x80, CHR 0xA8], [CHR 0xE2, CHR 0x80, CHR 0xA9],
     [CHR 0xE2, CHR 0x80, CHR 0xAF], [CHR 0xE2, CHR 0x81, CHR 0x9F],
     [CHR 0xE3, CHR 0x80, CHR 0x80]]"

function strip :: "string list \<Rightarrow> string \<Rightarrow> string" where
  "strip ws s = (case find (\<lambda>w. w \<noteq> [] \<and> prefix w s) ws of
     None \<Rightarrow> s | Some w \<Rightarrow> strip ws (drop (length w) s))"
  by pat_completeness auto
termination
  by (relation "measure (\<lambda>(ws, s). length s)") (auto simp: find_Some_iff prefix_def)

declare strip.simps [simp del]

definition TrimSpace :: "string \<Rightarrow> string" where
  "TrimSpace s = rev (strip (map rev space_encodings) (rev (strip space_encodings s)))"

definition TrimSuffix :: "string \<Rightarrow> string \<Rightarrow> string" where
  "TrimSuffix s t = (if suffix t s then take (length s - length t) s else s)"

definition TrimPrefix :: "string \<Rightarrow> string \<Rightarrow> string" where
  "TrimPrefix s t = (if prefix t s then drop (length t) s else s)"

section \<open>Searching, splitting and joining\<close>

fun Contains :: "string \<Rightarrow> string \<Rightarrow> bool" where
  "Contains [] t = (t = [])"
| "Contains (c # s) t = (prefix t (c # s) \<or> Contains s t)"

text \<open>\<open>strings.Split\<close> with a one-byte separator.\<close>

fun Split :: "char \<Rightarrow> string \<Rightarrow> string list" where
  "Split d [] = [[]]"
| "Split d (c # s) = (if c = d then [] # Split d s
     else case Split d s of [] \<Rightarrow> [[c]] | p # ps \<Rightarrow> (c # p) # ps)"

fun Join :: "string \<Rightarrow> string list \<Rightarrow> string" where
  "Join d [] = []"
| "Join d [p] = p"
| "Join d (p # q # ps) = p @ d @ Join d (q # ps)"

section \<open>Numbers\<close>

definition digit :: "nat \<Rightarrow> char" where
  "digit n = char_of (48 + n)"

definition hex_digit :: "nat \<Rightarrow> char" where
  "hex_digit n = char_of (if n < 10 then 48 + n else 87 + n)"

fun itoa_nat :: "nat \<Rightarrow> string" where
  "itoa_nat n = (if n < 10 then [digit n] else itoa_nat (n div 10) @ [digit (n mod 10)])"

declare itoa_nat.simps [simp del]

definition Itoa :: "int \<Rightarrow> string" where
  "Itoa i = (if i < 0 then CHR ''-'' # itoa_nat (nat (- i)) else itoa_nat (nat i))"

definition digits_val :: "string \<Rightarrow> nat" where
  "digits_val s = foldl (\<lambda>a c. 10 * a + (byte c - 48)) 0 s"

text \<open>\<open>strconv.Atoi\<close> on a 64-bit platform: an optional sign, then decimal digits.\<close>

definition Atoi :: "string \<Rightarrow> int option" where
  "Atoi s = (let (neg, ds) = (case s of c # t \<Rightarrow>
       if c = CHR ''-'' then (True, t) else if c = CHR ''+'' then (False, t) else (False, s)
       | [] \<Rightarrow> (False, s));
       v = int (digits_val ds); n = (if neg then - v else v)
     in if ds \<noteq> [] \<and> list_all is_digit ds \<and> - (2 ^ 63) \<le> n \<and> n < 2 ^ 63 then Some n else None)"

section \<open>Laws\<close>

lemma char_of_byte [simp]: "char_of (byte c) = c"
  by (simp add: byte_def)

lemma byte_char_of [simp]: "n < 256 \<Longrightarrow> byte (char_of n) = n"
  by (simp add: byte_def)

lemma byte_eq_iff [simp]: "byte c = byte d \<longleftrightarrow> c = d"
  by (simp add: byte_def)

lemma space_encodings_ends:
  "list_all (\<lambda>w. w \<noteq> [] \<and> \<not> printable (hd w) \<and> \<not> printable (last w)) space_encodings"
  by (simp add: space_encodings_def printable_def byte_def)

lemma strip_id:
  assumes "list_all (\<lambda>w. w \<noteq> [] \<longrightarrow> \<not> P (hd w)) ws" and "s \<noteq> [] \<longrightarrow> P (hd s)"
  shows "strip ws s = s"
proof -
  have "find (\<lambda>w. w \<noteq> [] \<and> prefix w s) ws = None"
    using assms by (auto simp: find_None_iff list_all_iff prefix_def)
  then show ?thesis by (simp add: strip.simps [of ws s])
qed

lemma TrimSpace_id [go_str]:
  assumes "s \<noteq> [] \<longrightarrow> printable (hd s)" and "s \<noteq> [] \<longrightarrow> printable (last s)"
  shows "TrimSpace s = s"
proof -
  have "strip space_encodings s = s"
    by (rule strip_id [where P = printable])
      (use space_encodings_ends assms in \<open>auto simp: list_all_iff\<close>)
  moreover have "strip (map rev space_encodings) (rev s) = rev s"
    by (rule strip_id [where P = printable])
      (use space_encodings_ends assms in \<open>auto simp: list_all_iff hd_rev\<close>)
  ultimately show ?thesis by (simp add: TrimSpace_def)
qed

lemma printable_ascii: "list_all printable s \<Longrightarrow> is_ascii s"
  by (auto simp: list_all_iff printable_def is_ascii_def)

lemma TrimSpace_printable [go_str]: "list_all printable s \<Longrightarrow> TrimSpace s = s"
  by (rule TrimSpace_id) (auto simp: list_all_iff)

lemma ToLower_id [go_str]:
  assumes "list_all (\<lambda>c. byte c < 128 \<and> \<not> is_upper c) s"
  shows "ToLower u s = s"
proof -
  have "map lower_byte s = s" using assms
    by (intro map_idI) (auto simp: list_all_iff lower_byte_def)
  then show ?thesis using assms by (simp add: ToLower_def is_ascii_def list_all_iff)
qed

lemma lower_byte_not_upper [simp]: "\<not> is_upper (lower_byte c)"
  by (simp add: lower_byte_def is_upper_def)

lemma lower_byte_ascii [simp]: "byte c < 128 \<Longrightarrow> byte (lower_byte c) < 128"
  by (auto simp: lower_byte_def is_upper_def)

lemma Split_nonempty [simp]: "Split d s \<noteq> []"
  by (induction s) (auto split: list.splits)

lemma Split_no_sep: "p \<in> set (Split d s) \<Longrightarrow> d \<notin> set p"
  by (induction s arbitrary: p) (auto split: list.splits if_splits)

lemma Join_Split [simp]: "Join [d] (Split d s) = s"
proof (induction s)
  case (Cons c s)
  then show ?case by (cases "Split d s"; cases "tl (Split d s)") (auto split: list.splits)
qed simp

lemma Split_single: "d \<notin> set p \<Longrightarrow> Split d p = [p]"
  by (induction p) auto

lemma Split_append: "d \<notin> set p \<Longrightarrow> Split d (p @ d # s) = p # Split d s"
  by (induction p) auto

lemma Split_Join [go_str]:
  "ps \<noteq> [] \<Longrightarrow> list_all (\<lambda>p. d \<notin> set p) ps \<Longrightarrow> Split d (Join [d] ps) = ps"
  by (induction "[d]" ps rule: Join.induct) (auto simp: Split_single Split_append)

lemma set_Join: "c \<in> set (Join d ps) \<Longrightarrow> c \<in> set d \<or> (\<exists>p \<in> set ps. c \<in> set p)"
  by (induction d ps rule: Join.induct) auto

lemma is_digit_digit [simp]: "n < 10 \<Longrightarrow> is_digit (digit n)"
  by (simp add: is_digit_def digit_def)

lemma byte_digit [simp]: "n < 10 \<Longrightarrow> byte (digit n) = 48 + n"
  by (simp add: digit_def)

lemma itoa_nat_digits: "list_all is_digit (itoa_nat n)"
proof (induction n rule: itoa_nat.induct)
  case (1 n)
  then show ?case by (cases "n < 10") (simp_all add: itoa_nat.simps [of n])
qed

lemma itoa_nat_nonempty [simp]: "itoa_nat n \<noteq> []"
  by (simp add: itoa_nat.simps [of n])

lemma digits_val_snoc [simp]: "digits_val (s @ [c]) = 10 * digits_val s + (byte c - 48)"
  by (simp add: digits_val_def)

lemma digits_val_itoa_nat [simp]: "digits_val (itoa_nat n) = n"
proof (induction n rule: itoa_nat.induct)
  case (1 n)
  show ?case
  proof (cases "n < 10")
    case True
    then show ?thesis by (simp add: itoa_nat.simps [of n]) (simp add: digits_val_def)
  next
    case False
    with 1 have "digits_val (itoa_nat (n div 10)) = n div 10" by simp
    with False show ?thesis by (simp add: itoa_nat.simps [of n])
  qed
qed

lemma Atoi_itoa_nat:
  assumes "int n < 2 ^ 63"
  shows "Atoi (itoa_nat n) = Some (int n)"
proof -
  obtain c t where ct: "itoa_nat n = c # t" by (cases "itoa_nat n") auto
  have "is_digit c" using itoa_nat_digits [of n] ct by simp
  then have "c \<noteq> CHR ''-''" "c \<noteq> CHR ''+''" by (auto simp: is_digit_def byte_def)
  with ct assms itoa_nat_digits [of n] digits_val_itoa_nat [of n] show ?thesis
    by (auto simp: Atoi_def Let_def)
qed

text \<open>
  \<^verbatim>\<open>strings.Fields\<close>: the maximal runs between white space; \<open>cur\<close> is the current run.
  \<^verbatim>\<open>strings.ReplaceAll\<close> for a non-empty pattern.
\<close>

function fields_loop :: "string \<Rightarrow> string \<Rightarrow> string list" where
  "fields_loop cur s = (case s of [] \<Rightarrow> (if cur = [] then [] else [cur])
     | c # s' \<Rightarrow> (case List.find (\<lambda>e. prefix e s) space_encodings of
         Some e \<Rightarrow> (if cur = [] then [] else [cur]) @ fields_loop [] (drop (length e - 1) s')
       | None \<Rightarrow> fields_loop (cur @ [c]) s'))"
  by pat_completeness auto
termination by (relation "measure (\<lambda>(cur, s). length s)") auto

declare fields_loop.simps [simp del]

definition Fields :: "string \<Rightarrow> string list" where
  "Fields s = fields_loop [] s"

function ReplaceAll :: "string \<Rightarrow> string \<Rightarrow> string \<Rightarrow> string" where
  "ReplaceAll [] old new = []"
| "ReplaceAll (c # s) old new =
     (if old \<noteq> [] \<and> prefix old (c # s) then new @ ReplaceAll (drop (length old - 1) s) old new
      else c # ReplaceAll s old new)"
  by pat_completeness auto
termination by (relation "measure (\<lambda>(s, old, new). length s)") auto

definition IsControl :: "nat \<Rightarrow> bool" where
  "IsControl r = (r < 32 \<or> (127 \<le> r \<and> r < 160))"

text \<open>Case tables for evaluating the model on ASCII inputs.\<close>

definition sample_unicode :: unicode where
  "sample_unicode = \<lparr>uni_lower = id, uni_upper = (\<lambda>_. 63), uni_fold = id\<rparr>"

lemma runes_ascii: "is_ascii s \<Longrightarrow> runes s = map byte s"
proof (induction s)
  case (Cons c s)
  then have "byte c < 128" "is_ascii s" by (auto simp: is_ascii_def)
  then show ?case using Cons by (simp add: Let_def)
qed simp

lemma rune_fold_byte: "byte c < 128 \<Longrightarrow> rune_fold u (byte c) = byte (lower_byte c)"
  by (auto simp: rune_fold_def lower_byte_def is_upper_def)

lemma EqualFold_runes: "EqualFold u s t \<longleftrightarrow> map (rune_fold u) (runes s) = map (rune_fold u) (runes t)"
proof (cases "is_ascii s \<and> is_ascii t")
  case True
  have f: "is_ascii x \<Longrightarrow> map (rune_fold u) (runes x) = map byte (map lower_byte x)" for x
    by (auto simp: runes_ascii is_ascii_def list_all_iff rune_fold_byte)
  have "map byte a = map byte b \<longleftrightarrow> a = b" for a b by (simp add: inj_map_eq_map inj_def byte_eq_iff)
  then show ?thesis using True f by (simp only: EqualFold_def if_True simp_thms)
qed (auto simp: EqualFold_def)

lemma EqualFold_refl: "EqualFold u s s"
  by (simp add: EqualFold_runes)

lemma EqualFold_trans: "EqualFold u r s \<Longrightarrow> EqualFold u s t \<Longrightarrow> EqualFold u r t"
  by (simp add: EqualFold_runes)

lemma ToUpper_id:
  assumes "list_all (\<lambda>c. byte c < 128 \<and> \<not> is_lower c) s"
  shows "ToUpper u s = s"
proof -
  have "map upper_byte s = s"
    using assms by (auto simp: list_all_iff upper_byte_def intro!: map_idI)
  then show ?thesis using assms by (simp add: ToUpper_def is_ascii_def list_all_iff)
qed

lemma upper_sample: "list_all (\<lambda>c. byte c < 128 \<and> \<not> is_lower c) (ToUpper sample_unicode s)"
proof (cases "is_ascii s")
  case True
  then show ?thesis by (auto simp: ToUpper_def is_ascii_def list_all_iff upper_byte_def is_lower_def)
next
  case False
  have "list_all (\<lambda>c. byte c < 128 \<and> \<not> is_lower c) (encode_rune (rune_upper sample_unicode r))" for r
    by (auto simp: rune_upper_def encode_rune_def sample_unicode_def is_lower_def)
  then show ?thesis using False by (auto simp: ToUpper_def list_all_iff)
qed

end
