(* ===== verification/Authz.thy ===== *)
theory Authz
  imports Go_Strings
begin

text \<open>
  The access model, \<^verbatim>\<open>internal/authz/authz.go\<close>: subjects, permissions, the
  actor allow-lists and the admission of the ACME caller. A \<open>Checker\<close> is an
  optional function, \<open>None\<close> being Go's \<open>nil\<close>.
\<close>

section \<open>Vocabulary\<close>

definition ActorUser :: string where "ActorUser = ''user''"
definition ActorModule :: string where "ActorModule = ''module''"
definition ActorIPAMSync :: string where "ActorIPAMSync = ''ipam-sync''"
definition ActorSystem :: string where "ActorSystem = ''system''"
definition IPAMSyncActorID :: string where "IPAMSyncActorID = ''ipam-sync''"

definition ZonesRead :: string where "ZonesRead = ''zones:read''"
definition ZonesManage :: string where "ZonesManage = ''zones:manage''"
definition TemplatesManage :: string where "TemplatesManage = ''templates:manage''"
definition SupermastersManage :: string where "SupermastersManage = ''supermasters:manage''"
definition DashboardRead :: string where "DashboardRead = ''dashboard:read''"
definition BackupManage :: string where "BackupManage = ''backup:manage''"
definition ConfigManage :: string where "ConfigManage = ''config:manage''"

definition Permissions :: "string list" where
  "Permissions = [ZonesRead, ZonesManage, TemplatesManage, SupermastersManage,
     DashboardRead, BackupManage, ConfigManage]"

definition RolePlatformAdmin :: string where "RolePlatformAdmin = ''platform-admin''"

definition syncAllowed :: "string \<Rightarrow> bool" where
  "syncAllowed p = (p = ZonesRead \<or> p = ZonesManage)"

definition moduleAllowed :: "string \<Rightarrow> bool" where
  "moduleAllowed p = (p = ZonesRead)"

definition challengeAllowed :: "string \<Rightarrow> bool" where
  "challengeAllowed p = (p = ZonesRead \<or> p = ZonesManage)"

lemmas authz_consts = ActorUser_def ActorModule_def ActorIPAMSync_def ActorSystem_def
  IPAMSyncActorID_def ZonesRead_def ZonesManage_def TemplatesManage_def SupermastersManage_def
  DashboardRead_def BackupManage_def ConfigManage_def RolePlatformAdmin_def

section \<open>Subjects\<close>

record subjects =
  s_TenantID :: string
  s_UserID :: string
  s_Roles :: "string list"
  s_ActorKind :: string
  s_PeerSPIFFE :: string
  s_acme :: bool

type_synonym checker = "(string \<Rightarrow> string \<Rightarrow> string \<Rightarrow> bool) option"

definition User :: "string \<Rightarrow> string \<Rightarrow> string list \<Rightarrow> subjects" where
  "User t u roles = \<lparr>s_TenantID = t, s_UserID = u, s_Roles = roles, s_ActorKind = ActorUser,
     s_PeerSPIFFE = [], s_acme = False\<rparr>"

definition SystemFor :: "string \<Rightarrow> subjects" where
  "SystemFor t = \<lparr>s_TenantID = t, s_UserID = IPAMSyncActorID, s_Roles = [],
     s_ActorKind = ActorIPAMSync, s_PeerSPIFFE = [], s_acme = False\<rparr>"

definition Internal :: "string \<Rightarrow> subjects" where
  "Internal t = \<lparr>s_TenantID = t, s_UserID = ActorSystem, s_Roles = [], s_ActorKind = ActorSystem,
     s_PeerSPIFFE = [], s_acme = False\<rparr>"

definition Module :: "string \<Rightarrow> string \<Rightarrow> subjects" where
  "Module t sid = \<lparr>s_TenantID = t, s_UserID = sid, s_Roles = [], s_ActorKind = ActorModule,
     s_PeerSPIFFE = sid, s_acme = False\<rparr>"

definition HasRole :: "subjects \<Rightarrow> string \<Rightarrow> bool" where
  "HasRole s role = list_ex (\<lambda>r. r = role) (s_Roles s)"

definition IsPlatformAdmin :: "subjects \<Rightarrow> bool" where
  "IsPlatformAdmin s =
     (if s_ActorKind s = ActorSystem then True
      else if s_ActorKind s = ActorUser then s_UserID s \<noteq> [] \<and> HasRole s RolePlatformAdmin
      else False)"

definition ActorID :: "subjects \<Rightarrow> string" where
  "ActorID s = (if s_UserID s \<noteq> [] then s_UserID s else s_ActorKind s)"

definition IsHuman :: "subjects \<Rightarrow> bool" where
  "IsHuman s = (s_ActorKind s = ActorUser)"

definition Known :: "string \<Rightarrow> bool" where
  "Known perm = list_ex (\<lambda>p. p = perm) Permissions"

section \<open>Checks\<close>

text \<open>A check returns \<open>None\<close> (Go's nil error) or the refusal.\<close>

definition Require :: "checker \<Rightarrow> subjects \<Rightarrow> string \<Rightarrow> gerr option" where
  "Require c s perm =
     (if s_TenantID s = [] then Some (Sent ErrForbidden)
      else if \<not> Known perm then Some (Sent ErrForbidden)
      else if s_ActorKind s = ActorSystem then None
      else if s_ActorKind s = ActorIPAMSync then
        (if syncAllowed perm then None else Some (Sent ErrForbidden))
      else if s_ActorKind s = ActorModule then
        (if s_PeerSPIFFE s \<noteq> [] \<and> (moduleAllowed perm \<or> (s_acme s \<and> challengeAllowed perm))
         then None else Some (Sent ErrForbidden))
      else if s_ActorKind s = ActorUser then
        (case c of None \<Rightarrow> Some (Sent ErrForbidden)
         | Some has \<Rightarrow> if s_UserID s \<noteq> [] \<and> has (s_TenantID s) (s_UserID s) perm
             then None else Some (Sent ErrForbidden))
      else Some (Sent ErrForbidden))"

definition Allowed :: "checker \<Rightarrow> subjects \<Rightarrow> string \<Rightarrow> bool" where
  "Allowed c s perm = (Require c s perm = None)"

definition RequirePlatformAdmin :: "subjects \<Rightarrow> gerr option" where
  "RequirePlatformAdmin s = (if IsPlatformAdmin s then None else Some (Sent ErrForbidden))"

definition RequireAdmin :: "checker \<Rightarrow> subjects \<Rightarrow> string \<Rightarrow> gerr option" where
  "RequireAdmin c s perm =
     (case RequirePlatformAdmin s of Some e \<Rightarrow> Some e | None \<Rightarrow> Require c s perm)"

definition RequireTenant :: "subjects \<Rightarrow> string \<Rightarrow> gerr option" where
  "RequireTenant s t = (if t = [] \<or> s_TenantID s \<noteq> t then Some (Sent ErrForbidden) else None)"

definition CallerIs :: "subjects \<Rightarrow> string \<Rightarrow> gerr option" where
  "CallerIs s sid =
     (if s_ActorKind s \<noteq> ActorModule \<or> sid = [] \<or> s_PeerSPIFFE s = [] \<or> s_PeerSPIFFE s \<noteq> sid
         \<or> CHR ''*'' \<in> set sid
      then Some (Sent ErrForbidden) else None)"

definition Challenger :: "subjects \<Rightarrow> string \<Rightarrow> subjects res" where
  "Challenger s allowed =
     (case CallerIs s allowed of Some e \<Rightarrow> Inl e | None \<Rightarrow> Inr (s\<lparr>s_acme := True\<rparr>))"

text \<open>\<open>authz.Split\<close>: \<^verbatim>\<open>strings.Cut(perm, ":")\<close> with both parts non-empty.\<close>

definition perm_Split :: "string \<Rightarrow> string \<times> string \<times> bool" where
  "perm_Split perm =
     (let r = takeWhile (\<lambda>c. c \<noteq> CHR '':'') perm; found = (CHR '':'' \<in> set perm);
          a = (if found then drop (Suc (length r)) perm else [])
      in (r, a, found \<and> r \<noteq> [] \<and> a \<noteq> []))"

section \<open>What the access model guarantees\<close>

lemma Known_iff: "Known p \<longleftrightarrow> p \<in> set Permissions"
  by (auto simp: Known_def list_ex_iff)

lemma Require_None_iff:
  "Require c s perm = None \<longleftrightarrow>
     s_TenantID s \<noteq> [] \<and> Known perm \<and>
     (s_ActorKind s = ActorSystem
      \<or> s_ActorKind s = ActorIPAMSync \<and> syncAllowed perm
      \<or> s_ActorKind s = ActorModule \<and> s_PeerSPIFFE s \<noteq> [] \<and>
          (moduleAllowed perm \<or> s_acme s \<and> challengeAllowed perm)
      \<or> s_ActorKind s = ActorUser \<and> s_UserID s \<noteq> [] \<and>
          (\<exists>has. c = Some has \<and> has (s_TenantID s) (s_UserID s) perm))"
  by (auto simp: Require_def authz_consts split: option.splits)

lemma Require_error: "Require c s perm = Some e \<Longrightarrow> e = Sent ErrForbidden"
  by (auto simp: Require_def split: if_splits option.splits)

section \<open>Properties\<close>

text \<open>
  C38: what each kind of caller can be granted, whatever the checker says. Nobody is
  granted anything without a tenant or outside the list of permissions. The system scope
  is granted every permission and passes every administrator check. The IPAM sync and a
  mesh module are granted at most reading and managing zones, a module only under a
  verified identity and managing only once it was admitted as the ACME caller, and
  neither passes an administrator check. A user is granted what the checker grants that
  user, and passes an administrator check only with the platform role. Any other kind
  of caller is granted nothing.
\<close>

theorem caller_scopes:
  "(Require c s perm = None \<longrightarrow> s_TenantID s \<noteq> [] \<and> perm \<in> set Permissions) \<and>
   (s_ActorKind s = ActorSystem \<longrightarrow> RequirePlatformAdmin s = None \<and>
      (s_TenantID s \<noteq> [] \<and> perm \<in> set Permissions \<longrightarrow> Require c s perm = None \<and> RequireAdmin c s perm = None)) \<and>
   (s_ActorKind s = ActorIPAMSync \<longrightarrow> RequireAdmin c s perm \<noteq> None \<and> (Require c s perm = None \<longrightarrow> perm \<in> {ZonesRead, ZonesManage})) \<and>
   (s_ActorKind s = ActorModule \<longrightarrow> RequireAdmin c s perm \<noteq> None \<and>
      (Require c s perm = None \<longrightarrow> s_PeerSPIFFE s \<noteq> [] \<and> (perm = ZonesRead \<or> perm = ZonesManage \<and> s_acme s))) \<and>
   (s_ActorKind s = ActorUser \<longrightarrow>
      (Require c s perm = None \<longrightarrow> s_UserID s \<noteq> [] \<and> (\<exists>has. c = Some has \<and> has (s_TenantID s) (s_UserID s) perm)) \<and>
      (RequireAdmin c s perm = None \<longrightarrow> HasRole s RolePlatformAdmin \<and> Require c s perm = None)) \<and>
   (s_ActorKind s \<notin> {ActorSystem, ActorIPAMSync, ActorModule, ActorUser} \<longrightarrow> Require c s perm \<noteq> None \<and> RequireAdmin c s perm \<noteq> None)"
  using Require_None_iff [of c s perm]
  by (auto simp: Known_iff syncAllowed_def moduleAllowed_def challengeAllowed_def RequireAdmin_def RequirePlatformAdmin_def
      IsPlatformAdmin_def authz_consts split: option.splits if_splits)

theorem caller_scopes_witness:
  "RequireAdmin None (SystemFor ''t1'') ConfigManage \<noteq> None \<and> RequireAdmin None (Internal ''t1'') ConfigManage = None \<and>
   Require None (SystemFor ''t1'') ZonesManage = None"
proof -
  have k: "s_ActorKind (SystemFor ''t1'') = ActorIPAMSync" "s_ActorKind (Internal ''t1'') = ActorSystem"
    "s_TenantID (Internal ''t1'') \<noteq> [] \<and> ConfigManage \<in> set Permissions" "Require None (SystemFor ''t1'') ZonesManage = None" by code_simp+
  then show ?thesis using caller_scopes [of None "SystemFor ''t1''" ConfigManage] caller_scopes [of None "Internal ''t1''" ConfigManage] by blast
qed

text \<open>
  The ACME caller is admitted only under the exact configured SPIFFE identity
  (no wildcard), keeps its tenant and identity, and gains reading and managing
  zones and nothing else.
\<close>

lemma Challenger_admits:
  assumes "Challenger s allowed = Inr s'"
  shows "s_ActorKind s = ActorModule \<and> s_PeerSPIFFE s = allowed \<and> allowed \<noteq> [] \<and> CHR ''*'' \<notin> set allowed \<and>
    s' = s\<lparr>s_acme := True\<rparr> \<and> (\<forall>c perm. Require c s' perm = None \<longleftrightarrow>
      s_TenantID s \<noteq> [] \<and> perm \<in> {ZonesRead, ZonesManage})"
proof -
  have s: "s_ActorKind s = ActorModule" "s_PeerSPIFFE s = allowed" "allowed \<noteq> []" "CHR ''*'' \<notin> set allowed"
    "s' = s\<lparr>s_acme := True\<rparr>"
    using assms by (auto simp: Challenger_def CallerIs_def split: option.splits if_splits)
  then have "Require c s' perm = None \<longleftrightarrow> s_TenantID s \<noteq> [] \<and> perm \<in> {ZonesRead, ZonesManage}" for c perm
    unfolding Require_None_iff Known_iff
    by (auto simp: Permissions_def moduleAllowed_def challengeAllowed_def authz_consts)
  with s show ?thesis by blast
qed

lemma Challenger_admits_witness:
  "Require None ((Module ''t1'' ''spiffe://x/lcm'')\<lparr>s_acme := True\<rparr>) ZonesManage = None"
proof -
  have "Challenger (Module ''t1'' ''spiffe://x/lcm'') ''spiffe://x/lcm'' =
      Inr ((Module ''t1'' ''spiffe://x/lcm'')\<lparr>s_acme := True\<rparr>)" by code_simp
  from Challenger_admits [OF this] show ?thesis by (simp add: Module_def)
qed

end
