(* ===== verification/Store_Models.thy ===== *)
theory Store_Models
  imports Go_Strings
begin

text \<open>
  The domain types of \<^verbatim>\<open>internal/store/models.go\<close> and the predicates on them. A
  Go slice is a list (the nil and the empty slice are one value); \<open>time.Time\<close>
  is an integer instant whose zero value is 0.
\<close>

type_synonym time = int

text \<open>The sort value of a list column (\<open>any\<close> in the code: a string, a time, an integer or nil).\<close>

datatype sort_value = KeyStr string | KeyTime time | KeyInt int | KeyNil

section \<open>Zones\<close>

definition KindNative :: string where "KindNative = ''native''"
definition KindMaster :: string where "KindMaster = ''master''"
definition KindSlave :: string where "KindSlave = ''slave''"
definition KindProducer :: string where "KindProducer = ''producer''"
definition KindConsumer :: string where "KindConsumer = ''consumer''"
definition OriginManual :: string where "OriginManual = ''manual''"
definition OriginIPAM :: string where "OriginIPAM = ''ipam''"

lemmas kind_consts = KindNative_def KindMaster_def KindSlave_def KindProducer_def KindConsumer_def
lemmas origin_consts = OriginManual_def OriginIPAM_def

definition Kinds :: "string list" where
  "Kinds = [KindNative, KindMaster, KindSlave, KindProducer, KindConsumer]"

definition ValidKind :: "string \<Rightarrow> bool" where
  "ValidKind k = list_ex (\<lambda>x. x = k) Kinds"

definition ValidOrigin :: "string \<Rightarrow> bool" where
  "ValidOrigin ori = (ori = OriginManual \<or> ori = OriginIPAM)"

definition NeedsMasters :: "string \<Rightarrow> bool" where
  "NeedsMasters k = (k = KindSlave \<or> k = KindConsumer)"

definition PDNSKind :: "string \<Rightarrow> string" where
  "PDNSKind k = (if \<not> ValidKind k then [] else map upper_byte (take 1 k) @ drop 1 k)"

definition KindFromPDNS :: "unicode \<Rightarrow> string \<Rightarrow> string" where
  "KindFromPDNS u k = (if \<not> ValidKind (ToLower u k) then [] else ToLower u k)"

record zone =
  z_ID :: string
  z_TenantID :: string
  z_Name :: string
  z_PDNSID :: string
  z_Kind :: string
  z_Masters :: "string list"
  z_DNSSEC :: bool
  z_Description :: string
  z_TemplateID :: string
  z_Origin :: string
  z_Nameservers :: "string list"
  z_CreatedBy :: string
  z_CreatedAt :: time
  z_UpdatedAt :: time

record zone_filter =
  zf_Query :: string
  zf_Kind :: string
  zf_Origin :: string

definition Matches :: "unicode \<Rightarrow> zone_filter \<Rightarrow> zone \<Rightarrow> bool" where
  "Matches u f z =
     (if zf_Kind f \<noteq> [] \<and> z_Kind z \<noteq> zf_Kind f then False
      else if zf_Origin f \<noteq> [] \<and> z_Origin z \<noteq> zf_Origin f then False
      else let q = ToLower u (TrimSpace (zf_Query f))
        in if q \<noteq> [] \<and> \<not> Contains (z_Name z) q then False else True)"

definition InZone :: "string \<Rightarrow> string \<Rightarrow> bool" where
  "InZone name zn = (name = zn \<or> suffix (''.'' @ zn) name)"

text \<open>The loop of \<open>LongestZone\<close>: \<open>best\<close> is the best zone so far, \<open>None\<close> when not found.\<close>

fun longest_loop :: "(zone \<Rightarrow> bool) \<Rightarrow> string \<Rightarrow> zone option \<Rightarrow> zone list \<Rightarrow> zone option" where
  "longest_loop P fqdn best [] = best"
| "longest_loop P fqdn best (z # zs) =
     (if P z \<and> InZone fqdn (z_Name z)
         \<and> (case best of None \<Rightarrow> True | Some b \<Rightarrow> length (z_Name z) > length (z_Name b))
      then longest_loop P fqdn (Some z) zs else longest_loop P fqdn best zs)"

definition LongestZone :: "zone list \<Rightarrow> string \<Rightarrow> zone option" where
  "LongestZone zs fqdn = longest_loop (\<lambda>_. True) fqdn None zs"

section \<open>Templates, supermasters, sync state, challenges, configuration\<close>

record template_record =
  tr_Name :: string
  tr_Type :: string
  tr_TTL :: int
  tr_Content :: string
  tr_Priority :: int

definition MaxTemplateRecords :: nat where "MaxTemplateRecords = 200"

record template =
  t_ID :: string
  t_TenantID :: string
  t_Name :: string
  t_Description :: string
  t_Records :: "template_record list"
  t_CreatedAt :: time
  t_UpdatedAt :: time

record supermaster =
  sm_ID :: string
  sm_TenantID :: string
  sm_IP :: string
  sm_Nameserver :: string
  sm_CreatedBy :: string
  sm_CreatedAt :: time

record server_config =
  sc_Recursor :: string
  sc_Authoritative :: string
  sc_RecursorHash :: string
  sc_AuthHash :: string
  sc_UpdatedBy :: string
  sc_UpdatedAt :: time

record ipam_sync =
  is_TenantID :: string
  is_IPAddressID :: string
  is_Address :: string
  is_Hostname :: string
  is_ForwardZoneID :: string
  is_ForwardName :: string
  is_ForwardType :: string
  is_ReverseZoneID :: string
  is_ReverseName :: string
  is_LastEvent :: string
  is_UpdatedAt :: time

record challenge =
  c_ID :: string
  c_TenantID :: string
  c_ZoneID :: string
  c_FQDN :: string
  c_Value :: string
  c_RequestedBy :: string
  c_CreatedAt :: time

definition SyncCreated :: string where "SyncCreated = ''created''"
definition SyncUpdated :: string where "SyncUpdated = ''updated''"
definition SyncScanned :: string where "SyncScanned = ''scanned''"
definition SyncDeleted :: string where "SyncDeleted = ''deleted''"
definition SyncReconciled :: string where "SyncReconciled = ''reconciled''"

definition ValidSyncEvent :: "string \<Rightarrow> bool" where
  "ValidSyncEvent e = list_ex (\<lambda>x. x = e)
     [SyncCreated, SyncUpdated, SyncScanned, SyncDeleted, SyncReconciled]"

text \<open>
  The detail of an audit row is Go's \<^verbatim>\<open>map[string]any\<close>. By its dynamic type a value is a
  \<^verbatim>\<open>string\<close>, a \<^verbatim>\<open>map[string]any\<close>, a \<^verbatim>\<open>[]any\<close>, a value of a defined string type, a map of
  another type or a struct (by the names of its fields), a slice of another type, or a
  scalar (in print).
\<close>

datatype detail = DStr string | DMap "(string \<times> detail) list" | DList "detail list"
  | DNamed string | DFields "(string \<times> detail) list" | DItems "detail list" | DOther string

record audit_row =
  ar_ID :: string
  ar_TenantID :: string
  ar_At :: time
  ar_ActorKind :: string
  ar_ActorID :: string
  ar_Action :: string
  ar_SubjectKind :: string
  ar_SubjectID :: string
  ar_Outcome :: string
  ar_Reason :: string
  ar_Detail :: "(string \<times> detail) list"

definition NilTenant :: string where "NilTenant = ''00000000-0000-0000-0000-000000000000''"

section \<open>Facts\<close>

lemma ValidKind_iff: "ValidKind k \<longleftrightarrow> k \<in> set Kinds"
  by (auto simp: ValidKind_def list_ex_iff)

lemma InZone_refl [simp]: "InZone z z"
  by (simp add: InZone_def)

lemma InZone_trans: "InZone a b \<Longrightarrow> InZone b c \<Longrightarrow> InZone a c"
  by (auto simp: InZone_def suffix_def)

lemma InZone_length: "InZone a b \<Longrightarrow> length b \<le> length a"
  by (auto simp: InZone_def suffix_def)

text \<open>Two zones that contain one name are nested: the shorter one contains the longer one.\<close>

lemma suffix_same:
  assumes "suffix a s" and "suffix b s" and "length a \<le> length b"
  shows "suffix a b"
  using assms suffix_length_suffix by blast

lemma InZone_comparable:
  assumes "InZone n a" and "InZone n b" and "length a \<le> length b"
  shows "InZone b a"
proof (cases "n = a")
  case True
  with assms show ?thesis by (auto simp: InZone_def suffix_def)
next
  case False
  then have a: "suffix (''.'' @ a) n" using assms(1) by (simp add: InZone_def)
  have "suffix b n" using assms(2) by (auto simp: InZone_def suffix_def)
  show ?thesis
  proof (cases "length a = length b")
    case True
    have "suffix a n" using a by (auto simp: suffix_def)
    with \<open>suffix b n\<close> True have "a = b"
      by (metis suffix_same order_refl suffix_order.antisym)
    then show ?thesis by simp
  next
    case False
    with assms(3) have "length (''.'' @ a) \<le> length b" by simp
    with a \<open>suffix b n\<close> have "suffix (''.'' @ a) b" by (rule suffix_same)
    then show ?thesis by (simp add: InZone_def)
  qed
qed

definition best_ok :: "(zone \<Rightarrow> bool) \<Rightarrow> string \<Rightarrow> zone option \<Rightarrow> zone list \<Rightarrow> bool" where
  "best_ok P fqdn best seen = (case best of
     None \<Rightarrow> (\<forall>z \<in> set seen. \<not> (P z \<and> InZone fqdn (z_Name z)))
   | Some b \<Rightarrow> b \<in> set seen \<and> P b \<and> InZone fqdn (z_Name b) \<and>
       (\<forall>z \<in> set seen. P z \<and> InZone fqdn (z_Name z) \<longrightarrow> length (z_Name z) \<le> length (z_Name b)))"

lemma longest_loop_ok:
  "best_ok P fqdn best seen \<Longrightarrow> best_ok P fqdn (longest_loop P fqdn best zs) (seen @ zs)"
proof (induction zs arbitrary: best seen)
  case Nil
  then show ?case by simp
next
  case (Cons z zs)
  let ?b = "if P z \<and> InZone fqdn (z_Name z)
      \<and> (case best of None \<Rightarrow> True | Some b \<Rightarrow> length (z_Name z) > length (z_Name b)) then Some z else best"
  have "best_ok P fqdn ?b (seen @ [z])"
    using Cons.prems by (fastforce simp: best_ok_def split: option.splits)
  from Cons.IH [OF this] show ?case by (cases "?b = Some z") (auto split: if_splits)
qed

lemma longest_loop_best: "best_ok P fqdn (longest_loop P fqdn None zs) zs"
  using longest_loop_ok [of P fqdn None "[]" zs] by (simp add: best_ok_def)

section \<open>Properties\<close>

text \<open>
  The zone chosen for a name is one of the given zones, contains the name, and
  every given zone that contains the name contains the chosen zone as well; no
  zone is chosen only if none contains the name.
\<close>

lemma LongestZone_closest:
  "case LongestZone zs fqdn of
     None \<Rightarrow> \<not> (\<exists>z \<in> set zs. InZone fqdn (z_Name z))
   | Some b \<Rightarrow> b \<in> set zs \<and> InZone fqdn (z_Name b) \<and>
       {z \<in> set zs. InZone fqdn (z_Name z)} \<subseteq> {z. InZone (z_Name b) (z_Name z)}"
proof (cases "LongestZone zs fqdn")
  case None
  then show ?thesis
    using longest_loop_best [of "\<lambda>_. True" fqdn zs] by (simp add: LongestZone_def best_ok_def)
next
  case (Some b)
  have ok: "b \<in> set zs" "InZone fqdn (z_Name b)"
    "\<And>z. z \<in> set zs \<Longrightarrow> InZone fqdn (z_Name z) \<Longrightarrow> length (z_Name z) \<le> length (z_Name b)"
    using longest_loop_best [of "\<lambda>_. True" fqdn zs] Some by (simp_all add: LongestZone_def best_ok_def)
  then show ?thesis using InZone_comparable Some by auto
qed

end
