(* ===== verification/Actions.thy ===== *)
theory Actions
  imports Go_Base
begin

text \<open>
  Stateful operations: an action takes the state and returns its result (an error
  or a value) with the new state, also when it fails. The combinators follow the
  shapes of the Go code: go on only when the error is nil, look at the outcome of
  a call whatever it is, and return early on a failed check.
\<close>

type_synonym ('w, 'e, 'a) eact = "'w \<Rightarrow> ('e + 'a) \<times> 'w"
type_synonym ('w, 'a) act = "('w, gerr, 'a) eact"

definition ret :: "'a \<Rightarrow> ('w, 'e, 'a) eact" where
  "ret x w = (Inr x, w)"

definition fail_with :: "'e \<Rightarrow> ('w, 'e, 'a) eact" where
  "fail_with e w = (Inl e, w)"

definition lift_res :: "'e + 'a \<Rightarrow> ('w, 'e, 'a) eact" where
  "lift_res r w = (r, w)"

definition and_then :: "('w, 'e, 'a) eact \<Rightarrow> ('a \<Rightarrow> ('w, 'e, 'b) eact) \<Rightarrow> ('w, 'e, 'b) eact" where
  "and_then m f w = (case m w of (Inl e, w') \<Rightarrow> (Inl e, w') | (Inr x, w') \<Rightarrow> f x w')"

definition on_result :: "('w, 'e, 'a) eact \<Rightarrow> ('e + 'a \<Rightarrow> ('w, 'f, 'b) eact) \<Rightarrow> ('w, 'f, 'b) eact" where
  "on_result m f w = (case m w of (r, w') \<Rightarrow> f r w')"

definition check :: "'e option \<Rightarrow> ('w, 'e, 'a) eact \<Rightarrow> ('w, 'e, 'a) eact" where
  "check g m = (case g of Some e \<Rightarrow> fail_with e | None \<Rightarrow> m)"

text \<open>A side effect that cannot fail the caller.\<close>

definition effect :: "('w \<Rightarrow> 'w) \<Rightarrow> ('w, 'e, 'a) eact \<Rightarrow> ('w, 'e, 'a) eact" where
  "effect h m w = m (h w)"

text \<open>Changing the error, as when a function returns a value next to its error.\<close>

definition map_err :: "('e \<Rightarrow> 'f) \<Rightarrow> ('w, 'e, 'a) eact \<Rightarrow> ('w, 'f, 'a) eact" where
  "map_err h m w = (case m w of (Inl e, w') \<Rightarrow> (Inl (h e), w') | (Inr x, w') \<Rightarrow> (Inr x, w'))"

text \<open>Reading the state.\<close>

definition reading :: "('w \<Rightarrow> 'r) \<Rightarrow> ('r \<Rightarrow> ('w, 'e, 'a) eact) \<Rightarrow> ('w, 'e, 'a) eact" where
  "reading h f w = f (h w) w"

text \<open>The error of a result, nil when there is none.\<close>

definition err_of :: "'e + 'a \<Rightarrow> 'e option" where
  "err_of r = (case r of Inl e \<Rightarrow> Some e | Inr _ \<Rightarrow> None)"

section \<open>Reasoning\<close>

text \<open>
  \<open>keeps I m\<close>: the action preserves the predicate whatever its outcome.
  \<open>triple P m Q\<close>: from \<open>P\<close>, the result and the new state satisfy \<open>Q\<close>.
\<close>

definition keeps :: "('w \<Rightarrow> bool) \<Rightarrow> ('w, 'e, 'a) eact \<Rightarrow> bool" where
  "keeps I m = (\<forall>w. I w \<longrightarrow> I (snd (m w)))"

definition triple :: "('w \<Rightarrow> bool) \<Rightarrow> ('w, 'e, 'a) eact \<Rightarrow> ('e + 'a \<Rightarrow> 'w \<Rightarrow> bool) \<Rightarrow> bool" where
  "triple P m Q = (\<forall>w. P w \<longrightarrow> Q (fst (m w)) (snd (m w)))"

named_theorems act_keeps \<open>preservation rules for actions\<close>
named_theorems act_eval \<open>evaluation rules for actions\<close>

lemma keepsI: "(\<And>w r w'. m w = (r, w') \<Longrightarrow> I w \<Longrightarrow> I w') \<Longrightarrow> keeps I m"
  by (metis keeps_def prod.collapse)

lemma keepsD: "keeps I m \<Longrightarrow> I w \<Longrightarrow> I (snd (m w))"
  by (simp add: keeps_def)

lemma keepsE: "keeps I m \<Longrightarrow> m w = (r, w') \<Longrightarrow> I w \<Longrightarrow> I w'"
  by (metis keeps_def snd_conv)

lemma keeps_ret [act_keeps]: "keeps I (ret x)"
  by (simp add: keeps_def ret_def)

lemma keeps_fail_with [act_keeps]: "keeps I (fail_with e)"
  by (simp add: keeps_def fail_with_def)

lemma keeps_lift_res [act_keeps]: "keeps I (lift_res r)"
  by (simp add: keeps_def lift_res_def)

lemma keeps_and_then [act_keeps]: "keeps I m \<Longrightarrow> (\<And>x. keeps I (f x)) \<Longrightarrow> keeps I (and_then m f)"
  by (auto simp: keeps_def and_then_def split: prod.split sum.split)

lemma keeps_on_result [act_keeps]: "keeps I m \<Longrightarrow> (\<And>r. keeps I (f r)) \<Longrightarrow> keeps I (on_result m f)"
  by (auto simp: keeps_def on_result_def split: prod.split)

lemma keeps_check [act_keeps]: "keeps I m \<Longrightarrow> keeps I (check g m)"
  by (cases g) (auto simp: check_def keeps_fail_with)

lemma keeps_effect [act_keeps]: "(\<And>w. I w \<Longrightarrow> I (h w)) \<Longrightarrow> keeps I m \<Longrightarrow> keeps I (effect h m)"
  by (simp add: keeps_def effect_def)

lemma keeps_map_err [act_keeps]: "keeps I m \<Longrightarrow> keeps I (map_err h m)"
  by (auto simp: keeps_def map_err_def split: prod.split sum.split)

lemma keeps_reading [act_keeps]: "(\<And>r. keeps I (f r)) \<Longrightarrow> keeps I (reading h f)"
  by (simp add: keeps_def reading_def)

lemma keeps_if [act_keeps]: "(b \<Longrightarrow> keeps I m) \<Longrightarrow> (\<not> b \<Longrightarrow> keeps I n) \<Longrightarrow> keeps I (if b then m else n)"
  by simp

lemma keeps_sum [act_keeps]:
  "(\<And>e. r = Inl e \<Longrightarrow> keeps I (f e)) \<Longrightarrow> (\<And>x. r = Inr x \<Longrightarrow> keeps I (g x)) \<Longrightarrow>
    keeps I (case r of Inl e \<Rightarrow> f e | Inr x \<Rightarrow> g x)"
  by (cases r) auto

lemma keeps_option [act_keeps]:
  "(r = None \<Longrightarrow> keeps I f) \<Longrightarrow> (\<And>x. r = Some x \<Longrightarrow> keeps I (g x)) \<Longrightarrow>
    keeps I (case r of None \<Rightarrow> f | Some x \<Rightarrow> g x)"
  by (cases r) auto

lemma keeps_let [act_keeps]: "(\<And>x. x = t \<Longrightarrow> keeps I (f x)) \<Longrightarrow> keeps I (let x = t in f x)"
  by simp

lemma keeps_conj: "keeps I m \<Longrightarrow> keeps J m \<Longrightarrow> keeps (\<lambda>w. I w \<and> J w) m"
  by (simp add: keeps_def)

lemma tripleI: "(\<And>w r w'. m w = (r, w') \<Longrightarrow> P w \<Longrightarrow> Q r w') \<Longrightarrow> triple P m Q"
  by (metis triple_def prod.collapse)

lemma tripleD: "triple P m Q \<Longrightarrow> m w = (r, w') \<Longrightarrow> P w \<Longrightarrow> Q r w'"
  by (metis triple_def fst_conv snd_conv)

lemma triple_and_then:
  assumes "triple P m R" and "\<And>x. triple (R (Inr x)) (f x) Q" and "\<And>e w. R (Inl e) w \<Longrightarrow> Q (Inl e) w"
  shows "triple P (and_then m f) Q"
proof (rule tripleI)
  fix w r w' assume run: "and_then m f w = (r, w')" and "P w"
  then have "R (fst (m w)) (snd (m w))" using assms(1) by (simp add: triple_def)
  with run show "Q r w'"
    using assms(2,3) by (auto simp: and_then_def triple_def split: prod.splits sum.splits) (metis fst_conv snd_conv)
qed

lemma triple_on_result:
  assumes "triple P m R" and "\<And>r. triple (R r) (f r) Q"
  shows "triple P (on_result m f) Q"
  using assms by (auto simp: triple_def on_result_def split: prod.splits)

text \<open>An action that preserves a predicate and returns only values with a property.\<close>

definition gives :: "('w \<Rightarrow> bool) \<Rightarrow> ('a \<Rightarrow> bool) \<Rightarrow> ('w, 'e, 'a) eact \<Rightarrow> bool" where
  "gives I Q m = triple I m (\<lambda>r w. I w \<and> (\<forall>x. r = Inr x \<longrightarrow> Q x))"

lemma givesI:
  "(\<And>w r w'. m w = (r, w') \<Longrightarrow> I w \<Longrightarrow> I w') \<Longrightarrow> (\<And>w x w'. m w = (Inr x, w') \<Longrightarrow> I w \<Longrightarrow> Q x) \<Longrightarrow> gives I Q m"
  unfolding gives_def by (rule tripleI) blast

lemma gives_keeps: "gives I Q m \<Longrightarrow> keeps I m"
  by (auto simp: gives_def triple_def keeps_def)

lemma keeps_gives: "keeps I m \<Longrightarrow> (\<And>x. Q x) \<Longrightarrow> gives I Q m"
  by (auto simp: gives_def triple_def keeps_def)

lemma gives_ret: "Q x \<Longrightarrow> gives I Q (ret x)"
  by (simp add: gives_def triple_def ret_def)

lemma gives_fail_with: "gives I Q (fail_with e)"
  by (simp add: gives_def triple_def fail_with_def)

lemma gives_on_result:
  assumes "gives I P m" "\<And>x. P x \<Longrightarrow> gives I Q (f (Inr x))" "\<And>e. gives I Q (f (Inl e))"
  shows "gives I Q (on_result m f)"
  unfolding gives_def
proof (rule triple_on_result)
  show "triple I m (\<lambda>r w. I w \<and> (\<forall>x. r = Inr x \<longrightarrow> P x))" using assms(1) by (simp add: gives_def)
  fix r show "triple (\<lambda>w. I w \<and> (\<forall>x. r = Inr x \<longrightarrow> P x)) (f r) (\<lambda>r w. I w \<and> (\<forall>x. r = Inr x \<longrightarrow> Q x))"
    using assms(2,3) by (cases r) (auto simp: gives_def triple_def)
qed

lemma keeps_on_gives:
  assumes "gives I P m" "\<And>x. P x \<Longrightarrow> keeps I (f (Inr x))" "\<And>e. keeps I (f (Inl e))"
  shows "keeps I (on_result m f)"
  by (rule gives_keeps [OF gives_on_result [OF assms(1)], of "\<lambda>_. True"]) (auto intro: keeps_gives assms)

lemma keeps_then_gives:
  assumes "gives I P m" "\<And>x. P x \<Longrightarrow> keeps I (f x)"
  shows "keeps I (and_then m f)"
proof -
  have "and_then m f = on_result m (\<lambda>r. case r of Inl e \<Rightarrow> fail_with e | Inr x \<Rightarrow> f x)"
    by (rule ext) (simp add: and_then_def on_result_def fail_with_def split: prod.split sum.split)
  then show ?thesis using keeps_on_gives [OF assms(1), of "\<lambda>r. case r of Inl e \<Rightarrow> fail_with e | Inr x \<Rightarrow> f x"] assms(2)
    by (simp add: keeps_fail_with)
qed

text \<open>Running an action that returned a value.\<close>

lemma and_then_Inr:
  assumes "and_then m f w = (Inr y, w')"
  obtains x w1 where "m w = (Inr x, w1)" "f x w1 = (Inr y, w')"
  using assms by (auto simp: and_then_def split: prod.splits sum.splits)

lemma on_resultE:
  assumes "on_result m f w = (y, w')"
  obtains r w1 where "m w = (r, w1)" "f r w1 = (y, w')"
  using assms by (auto simp: on_result_def split: prod.splits)

lemma check_Inr: "check g m w = (Inr y, w') \<longleftrightarrow> g = None \<and> m w = (Inr y, w')"
  by (cases g) (auto simp: check_def fail_with_def)

lemma check_Inl: "check g m w = (Inl e, w') \<longleftrightarrow> (g = Some e \<and> w' = w) \<or> (g = None \<and> m w = (Inl e, w'))"
  by (cases g) (auto simp: check_def fail_with_def)

lemma map_err_Inr: "map_err h m w = (Inr y, w') \<longleftrightarrow> m w = (Inr y, w')"
  by (auto simp: map_err_def split: prod.splits sum.splits)

lemma ret_run [simp]: "ret x w = (r, w') \<longleftrightarrow> r = Inr x \<and> w' = w"
  by (auto simp: ret_def)

lemma fail_with_run [simp]: "fail_with e w = (r, w') \<longleftrightarrow> r = Inl e \<and> w' = w"
  by (auto simp: fail_with_def)

lemma lift_res_run [simp]: "lift_res x w = (r, w') \<longleftrightarrow> r = x \<and> w' = w"
  by (auto simp: lift_res_def)

text \<open>Elimination rules for both outcomes.\<close>

lemma and_thenE:
  assumes "and_then m f w = (r, w')"
  obtains (err) e where "m w = (Inl e, w')" "r = Inl e" | (ok) x w1 where "m w = (Inr x, w1)" "f x w1 = (r, w')"
  using assms by (auto simp: and_then_def split: prod.splits sum.splits)

lemma map_errE:
  assumes "map_err h m w = (r, w')"
  obtains (err) e where "m w = (Inl e, w')" "r = Inl (h e)" | (ok) x where "m w = (Inr x, w')" "r = Inr x"
  using assms by (auto simp: map_err_def split: prod.splits sum.splits)

lemma checkE:
  assumes "check g m w = (r, w')"
  obtains (refused) e where "g = Some e" "r = Inl e" "w' = w" | (passed) "g = None" "m w = (r, w')"
  using assms by (cases g) (auto simp: check_def fail_with_def)

lemma effect_run [simp]: "effect h m w = m (h w)"
  by (simp add: effect_def)

lemma reading_run [simp]: "reading h f w = f (h w) w"
  by (simp add: reading_def)

text \<open>An action on a part of the state.\<close>

definition focus :: "('w \<Rightarrow> 's) \<Rightarrow> ('s \<Rightarrow> 'w \<Rightarrow> 'w) \<Rightarrow> ('s, 'e, 'a) eact \<Rightarrow> ('w, 'e, 'a) eact" where
  "focus get put m w = (case m (get w) of (r, s) \<Rightarrow> (r, put s w))"

lemma focus_run: "focus get put m w = (r, w') \<longleftrightarrow> (\<exists>s. m (get w) = (r, s) \<and> w' = put s w)"
  by (auto simp: focus_def split: prod.splits)

end
