(* ===== verification/Audit_Log.thy ===== *)
theory Audit_Log
  imports Authz Store_Models Actions
begin

text \<open>
  The audit log, \<^verbatim>\<open>internal/audit/audit.go\<close>: the closed vocabulary, the
  validation of events, the detail guard and the bounded queue of the writer. The
  background goroutine is the step \<open>writer_step\<close>, which writes one queued row.
\<close>

section \<open>Vocabulary\<close>

definition ZoneCreate :: string where "ZoneCreate = ''zone.create''"
definition ZoneUpdate :: string where "ZoneUpdate = ''zone.update''"
definition ZoneDelete :: string where "ZoneDelete = ''zone.delete''"
definition ZoneExport :: string where "ZoneExport = ''zone.export''"
definition ZoneNotify :: string where "ZoneNotify = ''zone.notify''"
definition RecordUpsert :: string where "RecordUpsert = ''record.upsert''"
definition RecordDelete :: string where "RecordDelete = ''record.delete''"
definition TemplateCreate :: string where "TemplateCreate = ''template.create''"
definition TemplateUpdate :: string where "TemplateUpdate = ''template.update''"
definition TemplateDelete :: string where "TemplateDelete = ''template.delete''"
definition SupermasterCreate :: string where "SupermasterCreate = ''supermaster.create''"
definition SupermasterDelete :: string where "SupermasterDelete = ''supermaster.delete''"
definition SyncUpsert :: string where "SyncUpsert = ''sync.upsert''"
definition SyncDelete :: string where "SyncDelete = ''sync.delete''"
definition SyncSkip :: string where "SyncSkip = ''sync.skip''"
definition ChallengePresent :: string where "ChallengePresent = ''challenge.present''"
definition ChallengeCleanup :: string where "ChallengeCleanup = ''challenge.cleanup''"
definition ChallengeRefused :: string where "ChallengeRefused = ''challenge.refused''"
definition ChallengeSwept :: string where "ChallengeSwept = ''challenge.swept''"

definition Vocabulary :: "string list" where
  "Vocabulary = [ZoneCreate, ZoneUpdate, ZoneDelete, ZoneExport, ZoneNotify, RecordUpsert, RecordDelete,
     TemplateCreate, TemplateUpdate, TemplateDelete, SupermasterCreate, SupermasterDelete,
     ''config.update'', ''config.apply'', ''config.restart'', SyncUpsert, SyncDelete, SyncSkip,
     ChallengePresent, ChallengeCleanup, ChallengeRefused, ChallengeSwept,
     ''backup.export'', ''backup.import'', ''access.refused'']"

definition SubjectZone :: string where "SubjectZone = ''zone''"
definition SubjectRecord :: string where "SubjectRecord = ''record''"
definition SubjectTemplate :: string where "SubjectTemplate = ''template''"
definition SubjectSupermaster :: string where "SubjectSupermaster = ''supermaster''"
definition SubjectSync :: string where "SubjectSync = ''sync''"
definition SubjectChallenge :: string where "SubjectChallenge = ''challenge''"

definition SubjectKinds :: "string list" where
  "SubjectKinds = [SubjectZone, SubjectRecord, SubjectTemplate, SubjectSupermaster, ''config'', ''container'',
     SubjectSync, SubjectChallenge, ''backup'', ''system'']"

definition OutcomeOK :: string where "OutcomeOK = ''ok''"
definition OutcomeRefused :: string where "OutcomeRefused = ''refused''"
definition OutcomeError :: string where "OutcomeError = ''error''"

definition audit_Known :: "string \<Rightarrow> bool" where
  "audit_Known t = (t \<in> set Vocabulary)"

record audit_event =
  ae_TenantID :: string
  ae_EventType :: string
  ae_ActorKind :: string
  ae_ActorID :: string
  ae_SubjectKind :: string
  ae_SubjectID :: string
  ae_Outcome :: string
  ae_Reason :: string
  ae_Details :: "(string \<times> detail) list"

definition audit_Validate :: "audit_event \<Rightarrow> gerr option" where
  "audit_Validate e =
     (if \<not> audit_Known (ae_EventType e) then Some (Opaque ''audit: unknown event type'')
      else if ae_TenantID e = [] then Some (Opaque ''audit: tenant_id is required'')
      else if ae_ActorKind e \<notin> set [ActorUser, ActorModule, ActorIPAMSync, ActorSystem] then Some (Opaque ''audit: actor_kind'')
      else if ae_SubjectKind e \<notin> set SubjectKinds then Some (Opaque ''audit: subject_kind'')
      else if ae_Outcome e \<notin> set [OutcomeOK, OutcomeRefused, OutcomeError] then Some (Opaque ''audit: outcome'')
      else None)"

section \<open>The detail guard\<close>

definition forbidden_keys :: "string list" where
  "forbidden_keys = [''api_key'', ''apikey'', ''x-api-key'', ''password'', ''token'', ''secret'', ''credential'',
     ''authorization'', ''content'', ''value'', ''rdata'', ''record_data'', ''file'', ''rendered'', ''body'']"

definition forbiddenKey :: "unicode \<Rightarrow> string \<Rightarrow> bool" where
  "forbiddenKey u k = (let lk = ToLower u k in list_ex (\<lambda>f. Contains lk f) forbidden_keys)"

definition truncate256 :: "string \<Rightarrow> string" where
  "truncate256 s = (if length s > 256 then take 256 s else s)"

fun guardValue :: "unicode \<Rightarrow> detail \<Rightarrow> detail"
  and guardMap :: "unicode \<Rightarrow> (string \<times> detail) list \<Rightarrow> (string \<times> detail) list"
  and guardList :: "unicode \<Rightarrow> detail list \<Rightarrow> detail list" where
  "guardValue u (DStr x) = DStr (truncate256 x)"
| "guardValue u (DMap m) = DMap (guardMap u m)"
| "guardValue u (DList xs) = DList (guardList u xs)"
| "guardValue u (DNamed x) = DNamed x"
| "guardValue u (DFields m) = DFields m"
| "guardValue u (DItems xs) = DItems xs"
| "guardValue u (DOther v) = DOther v"
| "guardMap u [] = []"
| "guardMap u ((k, v) # m) = (if forbiddenKey u k then guardMap u m else (k, guardValue u v) # guardMap u m)"
| "guardList u [] = []"
| "guardList u (x # xs) = guardValue u x # guardList u xs"

definition Redact :: "unicode \<Rightarrow> (string \<times> detail) list \<Rightarrow> (string \<times> detail) list" where
  "Redact u m = guardMap u m"

section \<open>The writer\<close>

record writer =
  wr_queue :: "audit_row list"
  wr_cap :: nat
  wr_closed :: bool
  wr_dropped :: int

definition newWriter :: "nat \<Rightarrow> writer" where
  "newWriter queue = \<lparr>wr_queue = [], wr_cap = queue, wr_closed = False, wr_dropped = 0\<rparr>"

text \<open>The row of an event; the id and the time are read from the environment.\<close>

definition row_of :: "unicode \<Rightarrow> string \<Rightarrow> time \<Rightarrow> audit_event \<Rightarrow> audit_row" where
  "row_of u i now e = \<lparr>ar_ID = i, ar_TenantID = ae_TenantID e, ar_At = now, ar_ActorKind = ae_ActorKind e,
     ar_ActorID = ae_ActorID e, ar_Action = ae_EventType e, ar_SubjectKind = ae_SubjectKind e,
     ar_SubjectID = ae_SubjectID e, ar_Outcome = ae_Outcome e, ar_Reason = truncate256 (ae_Reason e),
     ar_Detail = guardMap u (ae_Details e)\<rparr>"

definition writer_Record :: "unicode \<Rightarrow> string \<Rightarrow> time \<Rightarrow> audit_event \<Rightarrow> (writer, unit) act" where
  "writer_Record u i now e w = (case audit_Validate e of Some x \<Rightarrow> (Inl x, w)
     | None \<Rightarrow>
         if wr_closed w then (Inl (Opaque ''audit: writer closed''), w\<lparr>wr_dropped := wr_dropped w + 1\<rparr>)
         else if length (wr_queue w) < wr_cap w
         then (Inr (), w\<lparr>wr_queue := wr_queue w @ [row_of u i now e]\<rparr>)
         else (Inr (), w\<lparr>wr_dropped := wr_dropped w + 1\<rparr>))"

text \<open>One iteration of the goroutine: the oldest row leaves the queue and is written.\<close>

definition writer_step :: "writer \<Rightarrow> (audit_row \<times> writer) option" where
  "writer_step w = (case wr_queue w of [] \<Rightarrow> None | r # rs \<Rightarrow> Some (r, w\<lparr>wr_queue := rs\<rparr>))"

definition writer_Close :: "writer \<Rightarrow> writer" where
  "writer_Close w = w\<lparr>wr_closed := True\<rparr>"

definition audit_Emit :: "(audit_event \<Rightarrow> ('w, unit) act) option \<Rightarrow> audit_event \<Rightarrow> 'w \<Rightarrow> 'w" where
  "audit_Emit r e w = (case r of None \<Rightarrow> w | Some rec \<Rightarrow> snd (rec e w))"

definition ActorOf :: "string \<Rightarrow> string" where
  "ActorOf kind = (if kind = ActorModule \<or> kind = ActorIPAMSync \<or> kind = ActorSystem then kind else ActorUser)"

section \<open>Facts\<close>

text \<open>
  The guard looks into \<^verbatim>\<open>map[string]any\<close> and \<^verbatim>\<open>[]any\<close> only. \<open>guarded\<close> says that there is no
  forbidden key and no string over 256 bytes as far as it looks, \<open>clean\<close> that there is
  none anywhere, and \<open>transparent\<close> that it looks everywhere: the detail holds no defined string,
  typed map, struct or typed slice.
\<close>

fun guarded :: "unicode \<Rightarrow> detail \<Rightarrow> bool" where
  "guarded u (DStr x) = (length x \<le> 256)"
| "guarded u (DMap m) = (\<forall>(k, v) \<in> set m. \<not> forbiddenKey u k \<and> guarded u v)"
| "guarded u (DList xs) = (\<forall>x \<in> set xs. guarded u x)"
| "guarded u (DNamed x) = True"
| "guarded u (DFields m) = True"
| "guarded u (DItems xs) = True"
| "guarded u (DOther v) = True"

fun clean :: "unicode \<Rightarrow> detail \<Rightarrow> bool" where
  "clean u (DStr x) = (length x \<le> 256)"
| "clean u (DMap m) = (\<forall>(k, v) \<in> set m. \<not> forbiddenKey u k \<and> clean u v)"
| "clean u (DList xs) = (\<forall>x \<in> set xs. clean u x)"
| "clean u (DNamed x) = (length x \<le> 256)"
| "clean u (DFields m) = (\<forall>(k, v) \<in> set m. \<not> forbiddenKey u k \<and> clean u v)"
| "clean u (DItems xs) = (\<forall>x \<in> set xs. clean u x)"
| "clean u (DOther v) = True"

fun transparent :: "detail \<Rightarrow> bool" where
  "transparent (DStr x) = True"
| "transparent (DMap m) = (\<forall>(k, v) \<in> set m. transparent v)"
| "transparent (DList xs) = (\<forall>x \<in> set xs. transparent x)"
| "transparent (DOther v) = True"
| "transparent v = False"

lemma guard_guarded:
  "guarded u (guardValue u v)"
  "guarded u (DMap (guardMap u m))"
  "guarded u (DList (guardList u xs))"
  by (induction u v and u m and u xs rule: guardValue_guardMap_guardList.induct) (auto simp: truncate256_def)

lemma guard_clean:
  "transparent v \<Longrightarrow> clean u (guardValue u v)"
  "transparent (DMap m) \<Longrightarrow> clean u (DMap (guardMap u m))"
  "transparent (DList xs) \<Longrightarrow> clean u (DList (guardList u xs))"
  by (induction u v and u m and u xs rule: guardValue_guardMap_guardList.induct) (auto simp: truncate256_def)

lemma guard_id:
  "guarded u v \<Longrightarrow> guardValue u v = v"
  "guarded u (DMap m) \<Longrightarrow> guardMap u m = m"
  "guarded u (DList xs) \<Longrightarrow> guardList u xs = xs"
  by (induction u v and u m and u xs rule: guardValue_guardMap_guardList.induct) (auto simp: truncate256_def)

lemma guardMap_keys: "map fst (guardMap u m) = filter (\<lambda>k. \<not> forbiddenKey u k) (map fst m)"
  by (induction m) auto

lemma guardMap_keeps: "(k, v) \<in> set m \<Longrightarrow> \<not> forbiddenKey u k \<Longrightarrow> (k, guardValue u v) \<in> set (guardMap u m)"
  by (induction m) auto

lemma ActorOf_valid: "ActorOf k \<in> set [ActorUser, ActorModule, ActorIPAMSync, ActorSystem]"
  by (simp add: ActorOf_def)

section \<open>Properties\<close>

text \<open>
  C36: what reaches the audit log is redacted as far as the guard looks. A row accepted by
  the writer is of the closed vocabulary and keeps exactly the top-level keys that name
  no credential, file body or record value; through nested \<^verbatim>\<open>map[string]any\<close> and \<^verbatim>\<open>[]any\<close> it
  has no such key and no string over 256 bytes, and at any depth whatsoever when the
  event holds no value of another map, struct, slice or string type. Typed maps and
  structs are kept unchanged, whatever keys they have inside.
\<close>

theorem audit_rows_redacted:
  assumes "writer_Record u i now e w = (r, w')" and "row \<in> set (wr_queue w')" and "row \<notin> set (wr_queue w)"
  shows "audit_Validate e = None \<and> ar_Action row \<in> set Vocabulary \<and> length (ar_Reason row) \<le> 256 \<and>
    map fst (ar_Detail row) = filter (\<lambda>k. \<not> forbiddenKey u k) (map fst (ae_Details e)) \<and>
    guarded u (DMap (ar_Detail row)) \<and> (transparent (DMap (ae_Details e)) \<longrightarrow> clean u (DMap (ar_Detail row))) \<and>
    (\<forall>k m. (k, DFields m) \<in> set (ae_Details e) \<and> \<not> forbiddenKey u k \<longrightarrow> (k, DFields m) \<in> set (ar_Detail row)) \<and>
    Redact u (ar_Detail row) = ar_Detail row"
proof -
  have v: "audit_Validate e = None" and row: "row = row_of u i now e"
    using assms by (auto simp: writer_Record_def split: option.splits if_splits)
  have d: "ar_Detail row = guardMap u (ae_Details e)" by (simp add: row row_of_def)
  have g: "guarded u (DMap (ar_Detail row))" unfolding d by (rule guard_guarded(2))
  have c: "transparent (DMap (ae_Details e)) \<longrightarrow> clean u (DMap (ar_Detail row))" using guard_clean(2) d by simp
  have f: "(k, DFields m) \<in> set (ar_Detail row)" if "(k, DFields m) \<in> set (ae_Details e) \<and> \<not> forbiddenKey u k" for k m
    using guardMap_keeps [of k "DFields m" "ae_Details e" u] that d by simp
  have "length (ar_Reason row) \<le> 256" "ar_Action row \<in> set Vocabulary"
    using v by (auto simp: row row_of_def truncate256_def audit_Validate_def audit_Known_def split: if_splits)
  moreover have "Redact u (ar_Detail row) = ar_Detail row" unfolding Redact_def by (rule guard_id(2) [OF g])
  ultimately show ?thesis using v g c f guardMap_keys d by (intro conjI allI impI) auto
qed

text \<open>An event with a credential at the top and one inside a typed map.\<close>

theorem audit_rows_redacted_witness:
  "\<exists>row :: audit_row. guarded sample_unicode (DMap (ar_Detail row)) \<and> forbiddenKey sample_unicode ''token'' \<and>
     ar_Detail row = [(''zone'', DStr ''a.''), (''labels'', DFields [(''token'', DStr ''k'')])]"
proof -
  define e where "e = \<lparr>ae_TenantID = ''t'', ae_EventType = ZoneCreate, ae_ActorKind = ActorUser, ae_ActorID = ''u'',
    ae_SubjectKind = SubjectZone, ae_SubjectID = ''z'', ae_Outcome = OutcomeOK, ae_Reason = [],
    ae_Details = [(''zone'', DStr ''a.''), (''X-API-Key'', DStr ''k''), (''labels'', DFields [(''token'', DStr ''k'')])]\<rparr>"
  define row where "row = row_of sample_unicode ''i'' 1 e"
  have "audit_Validate e = None" unfolding e_def by code_simp
  then have run: "writer_Record sample_unicode ''i'' 1 e (newWriter 2) = (Inr (), (newWriter 2)\<lparr>wr_queue := [row]\<rparr>)"
    by (simp add: writer_Record_def newWriter_def row_def)
  have "ar_Detail row = [(''zone'', DStr ''a.''), (''labels'', DFields [(''token'', DStr ''k'')])]" unfolding row_def e_def by code_simp
  moreover have "guarded sample_unicode (DMap (ar_Detail row))"
    using audit_rows_redacted [OF run, of row] by (simp add: newWriter_def)
  moreover have "forbiddenKey sample_unicode ''token''" by code_simp
  ultimately show ?thesis by blast
qed

end
