(* ===== verification/Ext_Libs.thy ===== *)
theory Ext_Libs
  imports Go_Strings "HOL-Library.Word"
begin

text \<open>
  The third-party packages the program calls, as one record of functions that
  every definition using them takes as an argument: \<^verbatim>\<open>github.com/miekg/dns\<close>,
  \<^verbatim>\<open>golang.org/x/net/publicsuffix\<close> and the Unicode case tables. Nothing is
  assumed of them here; a theorem that relies on their documented behaviour
  names it as a hypothesis, one of the \<open>\<dots>_law\<close> predicates below.
\<close>

text \<open>
  A parsed resource record, \<open>dns.RR\<close>, with the rdata fields the program reads or
  writes. \<open>RR_other\<close> is any type without a rule of its own (A, TXT, SPF); it
  carries its presentation-form rdata.
\<close>

datatype rr =
    RR_AAAA (rr_v4mapped: bool) (rr_text: string)
  | RR_CNAME (rr_target: string)
  | RR_NS (rr_target: string)
  | RR_PTR (rr_target: string)
  | RR_MX (rr_pref: "16 word") (rr_target: string)
  | RR_SRV (rr_fields: string) (rr_target: string)
  | RR_CAA (rr_flag: "8 word") (rr_tag: string) (rr_value: string)
  | RR_DS (rr_fields: string) (rr_digestType: "8 word") (rr_digest: string)
  | RR_DNSKEY (rr_flags: "16 word") (rr_protocol: "8 word") (rr_alg: string) (rr_pubkey: string)
  | RR_TLSA (rr_usage: "8 word") (rr_selector: "8 word") (rr_matching: "8 word") (rr_cert: string)
  | RR_SSHFP (rr_algorithm: "8 word") (rr_fptype: "8 word") (rr_fp: string)
  | RR_NAPTR (rr_fields: string) (rr_nflags: string) (rr_rest: string) (rr_replacement: string)
  | RR_other (rr_text: string)

record ext =
  x_unicode :: unicode
  x_Fqdn :: "string \<Rightarrow> string"
  x_SplitDomainName :: "string \<Rightarrow> string list"
  x_IsDomainName :: "string \<Rightarrow> bool"
  x_PublicSuffix :: "string \<Rightarrow> string"
  x_EffectiveTLDPlusOne :: "string \<Rightarrow> string option"
  x_NewRR :: "string \<Rightarrow> rr option"
  x_rdata :: "rr \<Rightarrow> string"

abbreviation lower :: "ext \<Rightarrow> string \<Rightarrow> string" where
  "lower L \<equiv> ToLower (x_unicode L)"

abbreviation upper :: "ext \<Rightarrow> string \<Rightarrow> string" where
  "upper L \<equiv> ToUpper (x_unicode L)"

abbreviation fold_eq :: "ext \<Rightarrow> string \<Rightarrow> string \<Rightarrow> bool" where
  "fold_eq L \<equiv> EqualFold (x_unicode L)"

section \<open>Documented behaviour\<close>

text \<open>
  \<open>dns.Fqdn\<close> is the identity on a fully qualified name and adds the root dot to
  any other; without a backslash a name is fully qualified exactly when it ends
  in a dot.
\<close>

definition fqdn_law :: "ext \<Rightarrow> bool" where
  "fqdn_law L = (\<forall>s. (x_Fqdn L s = s \<or> x_Fqdn L s = s @ ''.'') \<and>
     (CHR 0x5C \<notin> set s \<longrightarrow> x_Fqdn L s = (if suffix ''.'' s then s else s @ ''.'')))"

text \<open>\<open>dns.SplitDomainName\<close> returns the labels of a fully qualified name without escapes.\<close>

definition split_law :: "ext \<Rightarrow> bool" where
  "split_law L = (\<forall>s. s \<noteq> [] \<longrightarrow> CHR 0x5C \<notin> set s \<longrightarrow> x_SplitDomainName L (s @ ''.'') = Split CHR ''.'' s)"

text \<open>A reference implementation of the two functions on names without escapes.\<close>

definition ref_Fqdn :: "string \<Rightarrow> string" where
  "ref_Fqdn s = (if suffix ''.'' s then s else s @ ''.'')"

definition ref_SplitDomainName :: "string \<Rightarrow> string list" where
  "ref_SplitDomainName s = (if s = ''.'' \<or> s = [] then []
     else Split CHR ''.'' (if suffix ''.'' s then butlast s else s))"

lemma fqdn_law_ref: "x_Fqdn L = ref_Fqdn \<Longrightarrow> fqdn_law L"
  by (simp add: fqdn_law_def ref_Fqdn_def)

lemma split_law_ref: "x_SplitDomainName L = ref_SplitDomainName \<Longrightarrow> split_law L"
  by (simp add: split_law_def ref_SplitDomainName_def)

lemma fqdn_law_cases: "fqdn_law L \<Longrightarrow> x_Fqdn L s = s \<or> x_Fqdn L s = s @ ''.''"
  by (simp add: fqdn_law_def)

lemma fqdn_law_plain:
  "fqdn_law L \<Longrightarrow> CHR 0x5C \<notin> set s \<Longrightarrow> x_Fqdn L s = (if suffix ''.'' s then s else s @ ''.'')"
  by (simp add: fqdn_law_def)

lemma split_law_labels:
  "split_law L \<Longrightarrow> s \<noteq> [] \<Longrightarrow> CHR 0x5C \<notin> set s \<Longrightarrow> x_SplitDomainName L (s @ ''.'') = Split CHR ''.'' s"
  by (simp add: split_law_def)

text \<open>
  A concrete instance for evaluating the model on inputs: the ASCII case maps, the
  two functions above, the default rule of the public-suffix list (the last label)
  and a parser that takes the fifth field of the line as the rdata.
\<close>

definition sample_ext :: ext where
  "sample_ext = \<lparr>x_unicode = sample_unicode, x_Fqdn = ref_Fqdn, x_SplitDomainName = ref_SplitDomainName,
     x_IsDomainName = (\<lambda>_. True), x_PublicSuffix = (\<lambda>s. last (Split CHR ''.'' s)),
     x_EffectiveTLDPlusOne = (\<lambda>_. None),
     x_NewRR = (\<lambda>l. case drop 4 (Split CHR '' '' l) of v # _ \<Rightarrow> Some (RR_other v) | [] \<Rightarrow> None),
     x_rdata = rr_text\<rparr>"

lemma sample_laws [simp]: "fqdn_law sample_ext" "split_law sample_ext"
  by (simp_all add: sample_ext_def fqdn_law_ref split_law_ref)

end
