(* ===== verification/Pdns_Types.thy ===== *)
theory Pdns_Types
  imports Go_Strings "HOL-Library.Word"
begin

text \<open>
  The PowerDNS resources of \<^verbatim>\<open>internal/pdns/types.go\<close>. TTLs and serials are
  32-bit words. The comments of a record set are optional: the nil slice
  (\<open>None\<close>) and the empty one (\<open>Some []\<close>) mean different things to PowerDNS.
\<close>

type_synonym u32 = "32 word"

definition ChangeReplace :: string where "ChangeReplace = ''REPLACE''"
definition ChangeDelete :: string where "ChangeDelete = ''DELETE''"

record record_line =
  rec_Content :: string
  rec_Disabled :: bool

record comment =
  com_Content :: string
  com_Account :: string
  com_ModifiedAt :: int

record rrset =
  rs_Name :: string
  rs_Type :: string
  rs_TTL :: u32
  rs_ChangeType :: string
  rs_Records :: "record_line list"
  rs_Comments :: "comment list option"

record pzone =
  pz_ID :: string
  pz_Name :: string
  pz_Kind :: string
  pz_Serial :: u32
  pz_NotifiedSerial :: u32
  pz_Masters :: "string list"
  pz_DNSSEC :: bool
  pz_Nameservers :: "string list"
  pz_Account :: string
  pz_RRsets :: "rrset list"

record psuper =
  ps_IP :: string
  ps_Nameserver :: string
  ps_Account :: string

lemma change_types_distinct [simp]: "ChangeReplace \<noteq> ChangeDelete" "ChangeDelete \<noteq> ChangeReplace"
  by (simp_all add: ChangeReplace_def ChangeDelete_def)

end
