(* ===== verification/Interfaces.thy ===== *)
theory Interfaces
  imports Audit_Log Ext_Libs Pdns_Types
begin

text \<open>
  The interfaces the services are written against, each as a record of actions
  over a state type: the storage contract \<^verbatim>\<open>repo.Store\<close>, the PowerDNS client, the
  recursor client, the event publisher and the audit recorder, and the
  dependencies a service is wired with. A nil interface is \<open>None\<close>. Contexts,
  metrics and logging have no effect on the results and are left out.
\<close>

section \<open>Storage\<close>

record 'w repo =
  r_CreateZone :: "zone \<Rightarrow> ('w, unit) act"
  r_GetZone :: "string \<Rightarrow> string \<Rightarrow> ('w, zone) act"
  r_GetZoneByName :: "string \<Rightarrow> string \<Rightarrow> ('w, zone) act"
  r_UpdateZone :: "zone \<Rightarrow> ('w, zone) act"
  r_DeleteZone :: "string \<Rightarrow> string \<Rightarrow> ('w, unit) act"
  r_ZoneConflict :: "string \<Rightarrow> string \<Rightarrow> ('w, bool) act"
  r_AllZoneNames :: "('w, string list) act"
  r_ZonesForTenant :: "string \<Rightarrow> ('w, zone list) act"
  r_CreateTemplate :: "template \<Rightarrow> ('w, unit) act"
  r_GetTemplate :: "string \<Rightarrow> string \<Rightarrow> ('w, template) act"
  r_UpdateTemplate :: "template \<Rightarrow> ('w, template) act"
  r_DeleteTemplate :: "string \<Rightarrow> string \<Rightarrow> ('w, unit) act"
  r_CreateSupermaster :: "supermaster \<Rightarrow> ('w, unit) act"
  r_GetSupermaster :: "string \<Rightarrow> string \<Rightarrow> ('w, supermaster) act"
  r_DeleteSupermaster :: "string \<Rightarrow> string \<Rightarrow> ('w, unit) act"
  r_GetIPAMSync :: "string \<Rightarrow> string \<Rightarrow> ('w, ipam_sync) act"
  r_UpsertIPAMSync :: "ipam_sync \<Rightarrow> ('w, unit) act"
  r_DeleteIPAMSync :: "string \<Rightarrow> string \<Rightarrow> ('w, unit) act"
  r_ClearSyncZone :: "string \<Rightarrow> string \<Rightarrow> ('w, unit) act"
  r_InsertChallenge :: "challenge \<Rightarrow> ('w, unit) act"
  r_DeleteChallenge :: "string \<Rightarrow> string \<Rightarrow> string \<Rightarrow> ('w, unit) act"
  r_ChallengesOlderThan :: "time \<Rightarrow> int \<Rightarrow> ('w, challenge list) act"

section \<open>PowerDNS and the recursor\<close>

record 'w pdns_client =
  p_ListZoneNames :: "('w, string list) act"
  p_GetZone :: "string \<Rightarrow> ('w, pzone) act"
  p_CreateZone :: "pzone \<Rightarrow> ('w, pzone) act"
  p_UpdateZoneMetadata :: "string \<Rightarrow> pzone \<Rightarrow> ('w, unit) act"
  p_DeleteZone :: "string \<Rightarrow> ('w, unit) act"
  p_PatchRRsets :: "string \<Rightarrow> rrset list \<Rightarrow> ('w, unit) act"
  p_NotifyZone :: "string \<Rightarrow> ('w, unit) act"
  p_ExportZone :: "string \<Rightarrow> ('w, string) act"
  p_ListSupermasters :: "('w, psuper list) act"
  p_CreateSupermaster :: "psuper \<Rightarrow> ('w, unit) act"
  p_DeleteSupermaster :: "string \<Rightarrow> string \<Rightarrow> ('w, unit) act"

record 'w recursor_client =
  rc_Enabled :: "'w \<Rightarrow> bool"
  rc_SyncForward :: "string \<Rightarrow> ('w, unit) act"
  rc_RemoveForward :: "string \<Rightarrow> ('w, unit) act"
  rc_ListForwards :: "('w, string list) act"
  rc_Ready :: "('w, unit) act"

section \<open>Events\<close>

definition ev_ZoneCreated :: string where "ev_ZoneCreated = ''dns.zone.created''"
definition ev_ZoneUpdated :: string where "ev_ZoneUpdated = ''dns.zone.updated''"
definition ev_ZoneDeleted :: string where "ev_ZoneDeleted = ''dns.zone.deleted''"
definition ev_RecordChanged :: string where "ev_RecordChanged = ''dns.record.changed''"

definition ActionUpserted :: string where "ActionUpserted = ''upserted''"
definition ActionDeleted :: string where "ActionDeleted = ''deleted''"
definition SourceAPI :: string where "SourceAPI = ''api''"
definition SourceIPAM :: string where "SourceIPAM = ''ipam''"
definition SourceACME :: string where "SourceACME = ''acme''"

record zone_payload =
  zp_ZoneID :: string
  zp_Zone :: string
  zp_Kind :: string
  zp_Origin :: string
  zp_ActorKind :: string

record record_payload =
  rp_ZoneID :: string
  rp_Zone :: string
  rp_Name :: string
  rp_Type :: string
  rp_Action :: string
  rp_Source :: string

datatype payload = ZonePayload zone_payload | RecordPayload record_payload

type_synonym 'w publisher = "string \<Rightarrow> string \<Rightarrow> payload \<Rightarrow> 'w \<Rightarrow> 'w"

definition ZoneOf :: "zone \<Rightarrow> string \<Rightarrow> zone_payload" where
  "ZoneOf z kind = \<lparr>zp_ZoneID = z_ID z, zp_Zone = z_Name z, zp_Kind = z_Kind z, zp_Origin = z_Origin z,
     zp_ActorKind = kind\<rparr>"

definition RecordOf :: "zone \<Rightarrow> string \<Rightarrow> string \<Rightarrow> string \<Rightarrow> string \<Rightarrow> record_payload" where
  "RecordOf z name rtype action source = \<lparr>rp_ZoneID = z_ID z, rp_Zone = z_Name z, rp_Name = name, rp_Type = rtype,
     rp_Action = action, rp_Source = source\<rparr>"

definition EmitZone :: "'w publisher option \<Rightarrow> string \<Rightarrow> zone \<Rightarrow> string \<Rightarrow> 'w \<Rightarrow> 'w" where
  "EmitZone pub ty z kind w = (case pub of None \<Rightarrow> w | Some p \<Rightarrow> p (z_TenantID z) ty (ZonePayload (ZoneOf z kind)) w)"

definition EmitRecord :: "'w publisher option \<Rightarrow> zone \<Rightarrow> string \<Rightarrow> string \<Rightarrow> string \<Rightarrow> string \<Rightarrow> 'w \<Rightarrow> 'w" where
  "EmitRecord pub z name rtype action source w = (case pub of None \<Rightarrow> w
     | Some p \<Rightarrow> p (z_TenantID z) ev_RecordChanged (RecordPayload (RecordOf z name rtype action source)) w)"

section \<open>Dependencies\<close>

record 'w deps =
  d_Ext :: ext
  d_Store :: "'w repo"
  d_PDNS :: "'w pdns_client"
  d_Recursor :: "'w recursor_client option"
  d_Events :: "'w publisher option"
  d_Audit :: "(audit_event \<Rightarrow> ('w, unit) act) option"
  d_Checker :: checker
  d_Templates :: "(string \<Rightarrow> string \<Rightarrow> string \<Rightarrow> ('w, rrset list) act) option"
  d_MaxExportBytes :: int
  d_Now :: "'w \<Rightarrow> time"
  d_NewID :: "'w \<Rightarrow> string \<times> 'w"

end
