(* ===== verification/Go_Netip.thy ===== *)
theory Go_Netip
  imports Go_Strings "HOL-Library.Word"
begin

unbundle bit_operations_syntax

text \<open>
  The part of Go's \<open>net/netip\<close> the program uses: addresses, their parser, their
  printer and the predicates of the SSRF guard. An IPv6 address is its eight
  16-bit groups and its zone (the empty string is no zone); \<open>NoAddr\<close> is the
  zero \<open>netip.Addr\<close>.
\<close>

type_synonym u8 = "8 word"
type_synonym u16 = "16 word"

datatype addr = NoAddr | V4 u8 u8 u8 u8 | V6 "u16 list" string

section \<open>Accessors and predicates\<close>

fun IsValid :: "addr \<Rightarrow> bool" where
  "IsValid NoAddr = False"
| "IsValid a = True"

fun Is4 :: "addr \<Rightarrow> bool" where
  "Is4 (V4 a b c d) = True"
| "Is4 x = False"

fun addr_Zone :: "addr \<Rightarrow> string" where
  "addr_Zone (V6 g z) = z"
| "addr_Zone x = []"

text \<open>A well-formed address has eight groups.\<close>

fun addr_wf :: "addr \<Rightarrow> bool" where
  "addr_wf (V6 g z) = (length g = 8)"
| "addr_wf x = True"

definition hi8 :: "u16 \<Rightarrow> u8" where
  "hi8 g = ucast (drop_bit 8 g)"

definition lo8 :: "u16 \<Rightarrow> u8" where
  "lo8 g = ucast g"

definition join8 :: "u8 \<Rightarrow> u8 \<Rightarrow> u16" where
  "join8 a b = push_bit 8 (ucast a) OR ucast b"

fun Is4In6 :: "addr \<Rightarrow> bool" where
  "Is4In6 (V6 g z) = (take 6 g = [0, 0, 0, 0, 0, 0xFFFF])"
| "Is4In6 x = False"

fun Unmap :: "addr \<Rightarrow> addr" where
  "Unmap (V6 g z) = (if Is4In6 (V6 g z)
     then V4 (hi8 (g ! 6)) (lo8 (g ! 6)) (hi8 (g ! 7)) (lo8 (g ! 7)) else V6 g z)"
| "Unmap x = x"

fun IsLoopback :: "addr \<Rightarrow> bool" where
  "IsLoopback (V4 a b c d) = (a = 127)"
| "IsLoopback (V6 g z) = (g = [0, 0, 0, 0, 0, 0, 0, 1])"
| "IsLoopback NoAddr = False"

fun IsLinkLocalUnicast :: "addr \<Rightarrow> bool" where
  "IsLinkLocalUnicast (V4 a b c d) = (a = 169 \<and> b = 254)"
| "IsLinkLocalUnicast (V6 g z) = (g ! 0 AND 0xFFC0 = 0xFE80)"
| "IsLinkLocalUnicast NoAddr = False"

fun IsLinkLocalMulticast :: "addr \<Rightarrow> bool" where
  "IsLinkLocalMulticast (V4 a b c d) = (a = 224 \<and> b = 0 \<and> c = 0)"
| "IsLinkLocalMulticast (V6 g z) = (g ! 0 AND 0xFF0F = 0xFF02)"
| "IsLinkLocalMulticast NoAddr = False"

fun IsInterfaceLocalMulticast :: "addr \<Rightarrow> bool" where
  "IsInterfaceLocalMulticast (V6 g z) = (g ! 0 AND 0xFF0F = 0xFF01)"
| "IsInterfaceLocalMulticast x = False"

fun IsMulticast :: "addr \<Rightarrow> bool" where
  "IsMulticast (V4 a b c d) = (a AND 0xF0 = 0xE0)"
| "IsMulticast (V6 g z) = (hi8 (g ! 0) = 0xFF)"
| "IsMulticast NoAddr = False"

fun IsUnspecified :: "addr \<Rightarrow> bool" where
  "IsUnspecified (V4 a b c d) = (a = 0 \<and> b = 0 \<and> c = 0 \<and> d = 0)"
| "IsUnspecified (V6 g z) = (g = [0, 0, 0, 0, 0, 0, 0, 0] \<and> z = [])"
| "IsUnspecified NoAddr = False"

fun As16 :: "addr \<Rightarrow> u8 list" where
  "As16 (V6 g z) = concat (map (\<lambda>x. [hi8 x, lo8 x]) g)"
| "As16 (V4 a b c d) = replicate 10 0 @ [0xFF, 0xFF, a, b, c, d]"
| "As16 NoAddr = replicate 16 0"

section \<open>Parsing\<close>

text \<open>
  \<open>parseIPv4Fields\<close>: \<open>sep\<close> says that the position is the first one or follows a
  dot, \<open>val\<close> and \<open>dl\<close> are the octet read so far and its number of digits.
\<close>

fun parse4 :: "bool \<Rightarrow> nat \<Rightarrow> nat \<Rightarrow> u8 list \<Rightarrow> string \<Rightarrow> u8 list option" where
  "parse4 sep val dl fs [] = (if length fs < 3 then None else Some (fs @ [of_nat val]))"
| "parse4 sep val dl fs (c # s) =
     (if is_digit c then
        (if dl = 1 \<and> val = 0 then None
         else let v = val * 10 + (byte c - 48)
              in if v > 255 then None else parse4 False v (Suc dl) fs s)
      else if c = CHR ''.'' then
        (if sep \<or> s = [] then None
         else if length fs = 3 then None
         else parse4 True 0 0 (fs @ [of_nat val]) s)
      else None)"

definition parseIPv4 :: "string \<Rightarrow> addr option" where
  "parseIPv4 s = (case parse4 True 0 0 [] s of
     Some [a, b, c, d] \<Rightarrow> Some (V4 a b c d) | _ \<Rightarrow> None)"

definition is_hex :: "char \<Rightarrow> bool" where
  "is_hex c = (is_digit c \<or> (97 \<le> byte c \<and> byte c \<le> 102) \<or> (65 \<le> byte c \<and> byte c \<le> 70))"

text \<open>The hexadecimal form of a UUID, a pattern several packages match against.\<close>

definition uuid_text :: "string \<Rightarrow> bool" where
  "uuid_text s = (length s = 36 \<and> list_all (\<lambda>(i, c). if i \<in> {8, 13, 18, 23} then c = CHR ''-'' else is_hex c) (enumerate (0::nat) s))"

definition hex_val :: "char \<Rightarrow> nat" where
  "hex_val c = (if is_digit c then byte c - 48
     else if 97 \<le> byte c then byte c - 87 else byte c - 55)"

definition hex_num :: "string \<Rightarrow> nat" where
  "hex_num s = foldl (\<lambda>a c. 16 * a + hex_val c) 0 s"

text \<open>The loop of \<open>parseIPv6\<close>: groups read, position of the ellipsis, rest of the input.\<close>

function parse6 :: "u16 list \<Rightarrow> nat option \<Rightarrow> string \<Rightarrow> (u16 list \<times> nat option \<times> string) option" where
  "parse6 gs ell s =
     (if 8 \<le> length gs then Some (gs, ell, s)
      else let h = takeWhile is_hex s; r = drop (length h) s; gs' = gs @ [of_nat (hex_num h)] in
        if length h > 4 \<or> h = [] then None
        else case r of
          [] \<Rightarrow> Some (gs', ell, [])
        | c # r1 \<Rightarrow>
          if c = CHR ''.'' then
            (if ell = None \<and> length gs \<noteq> 6 then None
             else if length gs + 2 > 8 then None
             else case parse4 True 0 0 [] s of
               Some [a, b, c, d] \<Rightarrow> Some (gs @ [join8 a b, join8 c d], ell, [])
             | _ \<Rightarrow> None)
          else if c \<noteq> CHR '':'' then None
          else case r1 of
            [] \<Rightarrow> None
          | c1 # r2 \<Rightarrow>
            if c1 = CHR '':'' then
              (if ell \<noteq> None then None
               else if r2 = [] then Some (gs', Some (length gs'), [])
               else parse6 gs' (Some (length gs')) r2)
            else parse6 gs' ell r1)"
  by pat_completeness auto
termination
  by (relation "measure (\<lambda>(gs, ell, s). 8 - length gs)") auto

declare parse6.simps [simp del]

definition finish6 :: "u16 list \<times> nat option \<times> string \<Rightarrow> u16 list option" where
  "finish6 p = (case p of (gs, ell, s) \<Rightarrow>
     if s \<noteq> [] then None
     else if length gs < 8 then
       (case ell of None \<Rightarrow> None
        | Some e \<Rightarrow> Some (take e gs @ replicate (8 - length gs) 0 @ drop e gs))
     else if ell \<noteq> None then None
     else Some gs)"

definition parseIPv6 :: "string \<Rightarrow> addr option" where
  "parseIPv6 inp =
     (let s = takeWhile (\<lambda>c. c \<noteq> CHR ''%'') inp; z = drop (Suc (length s)) inp in
      if length s < length inp \<and> z = [] then None
      else if prefix ''::'' s then
        (if length s = 2 then Some (V6 (replicate 8 0) z)
         else map_option (\<lambda>g. V6 g z) (Option.bind (parse6 [] (Some 0) (drop 2 s)) finish6))
      else map_option (\<lambda>g. V6 g z) (Option.bind (parse6 [] None s) finish6))"

text \<open>\<open>netip.ParseAddr\<close>: the first of dot, colon and percent sign decides the family.\<close>

definition ParseAddr :: "string \<Rightarrow> addr option" where
  "ParseAddr s = (case find (\<lambda>c. c = CHR ''.'' \<or> c = CHR '':'' \<or> c = CHR ''%'') s of
     None \<Rightarrow> None
   | Some c \<Rightarrow> if c = CHR ''.'' then parseIPv4 s
               else if c = CHR '':'' then parseIPv6 s else None)"

definition ParseUint16 :: "string \<Rightarrow> u16 option" where
  "ParseUint16 s = (if s \<noteq> [] \<and> list_all is_digit s \<and> digits_val s < 65536
     then Some (of_nat (digits_val s)) else None)"

text \<open>\<open>netip.ParseAddrPort\<close>: the text before and after the last colon.\<close>

definition ParseAddrPort :: "string \<Rightarrow> (addr \<times> u16) option" where
  "ParseAddrPort s =
     (if CHR '':'' \<notin> set s then None
      else let port = rev (takeWhile (\<lambda>c. c \<noteq> CHR '':'') (rev s));
               ip = take (length s - length port - 1) s in
        if ip = [] \<or> port = [] then None
        else let v6 = (hd ip = CHR ''['') in
          if v6 \<and> (length ip < 2 \<or> last ip \<noteq> CHR '']'') then None
          else case ParseUint16 port of None \<Rightarrow> None
          | Some p \<Rightarrow> (case ParseAddr (if v6 then butlast (tl ip) else ip) of None \<Rightarrow> None
             | Some a \<Rightarrow> if v6 = Is4 a then None else Some (a, p)))"

section \<open>Printing\<close>

definition octet :: "u8 \<Rightarrow> string" where
  "octet b = itoa_nat (unat b)"

fun hex_nat :: "nat \<Rightarrow> string" where
  "hex_nat n = (if n < 16 then [hex_digit n] else hex_nat (n div 16) @ [hex_digit (n mod 16)])"

declare hex_nat.simps [simp del]

definition string4 :: "u8 \<Rightarrow> u8 \<Rightarrow> u8 \<Rightarrow> u8 \<Rightarrow> string" where
  "string4 a b c d = octet a @ ''.'' @ octet b @ ''.'' @ octet c @ ''.'' @ octet d"

definition zero_run :: "u16 list \<Rightarrow> nat \<Rightarrow> nat" where
  "zero_run g i = length (takeWhile (\<lambda>x. x = 0) (drop i g))"

text \<open>The first longest run of at least two zero groups, as (start, end).\<close>

definition best_run :: "u16 list \<Rightarrow> (nat \<times> nat) option" where
  "best_run g = foldl (\<lambda>b i. let l = zero_run g i in
     if 2 \<le> l \<and> (case b of None \<Rightarrow> True | Some (x, y) \<Rightarrow> y - x < l) then Some (i, i + l) else b)
     None [0..<8]"

definition groups :: "u16 list \<Rightarrow> string" where
  "groups g = Join '':'' (map (\<lambda>w. hex_nat (unat w)) g)"

definition string6 :: "u16 list \<Rightarrow> string" where
  "string6 g = (case best_run g of None \<Rightarrow> groups g
     | Some (x, y) \<Rightarrow> groups (take x g) @ ''::'' @ groups (drop y g))"

definition with_zone :: "string \<Rightarrow> string \<Rightarrow> string" where
  "with_zone s z = (if z = [] then s else s @ ''%'' @ z)"

fun addr_String :: "addr \<Rightarrow> string" where
  "addr_String NoAddr = ''invalid IP''"
| "addr_String (V4 a b c d) = string4 a b c d"
| "addr_String (V6 g z) =
     (if Is4In6 (V6 g z)
      then with_zone (''::ffff:'' @ string4 (hi8 (g ! 6)) (lo8 (g ! 6)) (hi8 (g ! 7)) (lo8 (g ! 7))) z
      else with_zone (string6 g) z)"

definition addrPort_String :: "addr \<Rightarrow> u16 \<Rightarrow> string" where
  "addrPort_String a p = (case a of
     NoAddr \<Rightarrow> ''invalid AddrPort''
   | V4 _ _ _ _ \<Rightarrow> addr_String a @ '':'' @ itoa_nat (unat p)
   | V6 _ _ \<Rightarrow> ''['' @ addr_String a @ '']:'' @ itoa_nat (unat p))"

section \<open>Laws\<close>

lemma itoa_nat_small:
  "n < 1000 \<Longrightarrow> itoa_nat n =
     (if n < 10 then [digit n]
      else if n < 100 then [digit (n div 10), digit (n mod 10)]
      else [digit (n div 100), digit (n div 10 mod 10), digit (n mod 10)])"
proof -
  assume n: "n < 1000"
  have two: "itoa_nat m = [digit (m div 10), digit (m mod 10)]" if "10 \<le> m" "m < 100" for m
    using that by (simp add: itoa_nat.simps [of m] itoa_nat.simps [of "m div 10"])
  show ?thesis
  proof (cases "n < 100")
    case True
    then show ?thesis using two [of n] by (simp add: itoa_nat.simps [of n])
  next
    case False
    then have "itoa_nat (n div 10) = [digit (n div 100), digit (n div 10 mod 10)]"
      using n two [of "n div 10"] by (simp add: div_mult2_eq [symmetric])
    with False show ?thesis by (simp add: itoa_nat.simps [of n])
  qed
qed

lemma parse4_digit:
  assumes "d < 10" and "dl = 1 \<longrightarrow> val \<noteq> 0" and "val * 10 + d \<le> 255"
  shows "parse4 sep val dl fs (digit d # s) = parse4 False (val * 10 + d) (Suc dl) fs s"
  using assms by auto

lemma parse4_octet:
  assumes "n < 256"
  shows "\<exists>dl. parse4 sep 0 0 fs (itoa_nat n @ rest) = parse4 False n dl fs rest"
proof -
  consider "n < 10" | "10 \<le> n" "n < 100" | "100 \<le> n" by linarith
  then show ?thesis
  proof cases
    case 1
    then have "parse4 sep 0 0 fs (itoa_nat n @ rest) = parse4 False n 1 fs rest"
      using parse4_digit [of n 0 0] by (simp add: itoa_nat_small)
    then show ?thesis ..
  next
    case 2
    define x y where "x = n div 10" and "y = n mod 10"
    have n: "n = x * 10 + y" by (simp add: x_def y_def)
    have b: "x < 10" "y < 10" "x \<noteq> 0" using 2 by (auto simp: x_def y_def)
    have "parse4 sep 0 0 fs (digit x # digit y # rest) = parse4 False (x * 10 + y) 2 fs rest"
      using b by (simp del: parse4.simps add: parse4_digit numeral_2_eq_2)
    then have "parse4 sep 0 0 fs (digit x # digit y # rest) = parse4 False n 2 fs rest"
      by (simp only: n [symmetric])
    moreover have "itoa_nat n = [digit x, digit y]"
      using 2 by (simp add: itoa_nat_small x_def y_def)
    ultimately have "parse4 sep 0 0 fs (itoa_nat n @ rest) = parse4 False n 2 fs rest"
      by (simp only: append_Cons append_Nil)
    then show ?thesis ..
  next
    case 3
    define x y z where "x = n div 100" and "y = n div 10 mod 10" and "z = n mod 10"
    have "x = n div 10 div 10" by (simp add: x_def div_mult2_eq [symmetric])
    then have "x * 10 + y = n div 10" by (simp add: y_def)
    then have n: "n = (x * 10 + y) * 10 + z" by (simp add: z_def)
    have b: "x < 10" "y < 10" "z < 10" "x \<noteq> 0" using 3 assms by (auto simp: x_def y_def z_def)
    have m: "(x * 10 + y) * 10 + z \<le> 255" using n assms by linarith
    have "parse4 sep 0 0 fs (digit x # digit y # digit z # rest) = parse4 False ((x * 10 + y) * 10 + z) 3 fs rest"
      using b m by (simp del: parse4.simps add: parse4_digit numeral_3_eq_3)
    then have "parse4 sep 0 0 fs (digit x # digit y # digit z # rest) = parse4 False n 3 fs rest"
      by (simp only: n [symmetric])
    moreover have "itoa_nat n = [digit x, digit y, digit z]"
      using 3 assms by (simp add: itoa_nat_small x_def y_def z_def)
    ultimately have "parse4 sep 0 0 fs (itoa_nat n @ rest) = parse4 False n 3 fs rest"
      by (simp only: append_Cons append_Nil)
    then show ?thesis ..
  qed
qed

lemma is_digit_dot [simp]: "\<not> is_digit CHR ''.''" "\<not> is_digit CHR '':''"
  by (simp_all add: is_digit_def byte_def)

lemma parse4_octet_dot:
  assumes "length fs < 3" and "s \<noteq> []"
  shows "parse4 sep 0 0 fs (octet b @ CHR ''.'' # s) = parse4 True 0 0 (fs @ [b]) s"
  using parse4_octet [of "unat b" sep fs "CHR ''.'' # s"] unsigned_less [of b] assms
  by (auto simp: octet_def)

lemma parse4_octet_end:
  assumes "length fs = 3"
  shows "parse4 sep 0 0 fs (octet b) = Some (fs @ [b])"
  using parse4_octet [of "unat b" sep fs "[]"] unsigned_less [of b] assms
  by (auto simp: octet_def)

lemma octet_nonempty [simp]: "octet b \<noteq> []"
  by (simp add: octet_def)

lemma find_octet:
  assumes "\<And>c. is_digit c \<Longrightarrow> \<not> P c"
  shows "find P (octet b @ s) = find P s"
proof -
  have "find P (t @ s) = find P s" if "list_all is_digit t" for t
    using that assms by (induction t) auto
  then show ?thesis by (simp add: octet_def itoa_nat_digits)
qed

lemma ParseAddr_string4 [simp]: "ParseAddr (string4 a b c d) = Some (V4 a b c d)"
proof -
  have "find (\<lambda>c. c = CHR ''.'' \<or> c = CHR '':'' \<or> c = CHR ''%'') (string4 a b c d) = Some CHR ''.''"
    unfolding string4_def by (subst find_octet) (auto simp: is_digit_def byte_def)
  moreover have "parseIPv4 (string4 a b c d) = Some (V4 a b c d)"
    by (simp add: parseIPv4_def string4_def parse4_octet_dot parse4_octet_end)
  ultimately show ?thesis by (simp add: ParseAddr_def)
qed

definition ell_ok :: "u16 list \<Rightarrow> nat option \<Rightarrow> bool" where
  "ell_ok gs ell = (length gs \<le> 8 \<and> (\<forall>e. ell = Some e \<longrightarrow> e \<le> length gs))"

lemma parse6_length:
  "parse6 gs ell s = Some (gs', ell', s') \<Longrightarrow> ell_ok gs ell \<Longrightarrow> ell_ok gs' ell'"
proof (induction gs ell s rule: parse6.induct)
  case (1 gs ell s)
  show ?case
  proof (cases "8 \<le> length gs")
    case True
    with "1.prems" show ?thesis by (simp add: parse6.simps [of gs ell s])
  next
    case False
    note IH = "1.IH" [OF False refl refl refl]
    define h where "h = takeWhile is_hex s"
    define g' where "g' = gs @ [of_nat (hex_num h)]"
    have ok: "ell_ok g' ell" "ell_ok g' (Some (length g'))"
      using "1.prems"(2) False by (auto simp: ell_ok_def g'_def)
    have "ell_ok (gs @ [x, y]) ell" if "\<not> length gs + 2 > 8" for x y
      using "1.prems"(2) that by (auto simp: ell_ok_def)
    with "1.prems"(1) False ok IH [folded h_def, folded g'_def] show ?thesis
      unfolding parse6.simps [of gs ell s] Let_def h_def [symmetric] g'_def [symmetric]
      by (auto split: if_splits list.splits option.splits)
  qed
qed

lemma finish6_length:
  "finish6 (gs, ell, s) = Some g \<Longrightarrow> ell_ok gs ell \<Longrightarrow> length g = 8"
  by (auto simp: finish6_def ell_ok_def split: if_splits option.splits)

lemma parse6_finish6: "Option.bind (parse6 [] ell s) finish6 = Some g \<Longrightarrow> ell_ok [] ell \<Longrightarrow> length g = 8"
  by (auto simp: bind_eq_Some_conv dest!: parse6_length finish6_length)

lemma parseIPv6_wf: "parseIPv6 s = Some a \<Longrightarrow> addr_wf a"
  by (auto simp: parseIPv6_def Let_def ell_ok_def dest!: parse6_finish6 split: if_splits)

lemma ParseAddr_wf: "ParseAddr s = Some a \<Longrightarrow> addr_wf a \<and> IsValid a"
proof -
  assume s: "ParseAddr s = Some a"
  then have "addr_wf a"
    by (auto simp: ParseAddr_def parseIPv4_def parseIPv6_wf split: option.splits if_splits list.splits)
  moreover have "a \<noteq> NoAddr"
    using s by (auto simp: ParseAddr_def parseIPv4_def parseIPv6_def Let_def
        split: option.splits if_splits list.splits)
  ultimately show ?thesis by (cases a) simp_all
qed

lemma Unmap_wf: "addr_wf a \<Longrightarrow> addr_wf (Unmap a)"
  by (cases a) auto

lemma Unmap_Unmap [simp]: "Unmap (Unmap a) = Unmap a"
  by (cases a) auto

lemma Is4In6_Unmap [simp]: "\<not> Is4In6 (Unmap a)"
  by (cases a) auto

lemma IsValid_Unmap [simp]: "IsValid (Unmap a) = IsValid a"
  by (cases a) auto

end
