(* ===== verification/Validate_Names.thy ===== *)
theory Validate_Names
  imports Ext_Libs Go_Netip Store_Models
begin

text \<open>
  Boundary validation of names and addresses, \<^verbatim>\<open>internal/validate/names.go\<close>:
  canonical zone, record and host names, the reverse-tree rules and the SSRF
  guard on primaries and supermasters.
\<close>

section \<open>Names\<close>

definition MaxMasters :: nat where "MaxMasters = 16"
definition maxName :: nat where "maxName = 253"
definition maxLabel :: nat where "maxLabel = 63"
definition v4Suffix :: string where "v4Suffix = ''in-addr.arpa.''"
definition v6Suffix :: string where "v6Suffix = ''ip6.arpa.''"

definition label_char :: "bool \<Rightarrow> char \<Rightarrow> bool" where
  "label_char us c = (is_lower c \<or> is_digit c \<or> c = CHR ''-'' \<or> (c = CHR ''_'' \<and> us))"

definition labelOK :: "string \<Rightarrow> bool \<Rightarrow> bool" where
  "labelOK l us =
     (if l = [] \<or> length l > maxLabel \<or> hd l = CHR ''-'' \<or> last l = CHR ''-'' then False
      else list_all (label_char us) l)"

text \<open>\<open>split\<close>: the canonical absolute form and its labels.\<close>

definition split_name :: "ext \<Rightarrow> string \<Rightarrow> (string \<times> string list) res" where
  "split_name L s0 =
     (let s = lower L (TrimSpace s0) in
      if list_ex (\<lambda>c. byte c < 0x21 \<or> byte c > 0x7E) s then Inl (Sent ErrName)
      else if s = [] \<or> s = ''.'' then Inl (Sent ErrName)
      else let fq = x_Fqdn L s in
        if prefix ''.'' fq \<or> Contains fq ''..'' \<or> CHR 0x5C \<in> set fq then Inl (Sent ErrName)
        else if length fq - 1 > maxName then Inl (Sent ErrName)
        else Inr (fq, x_SplitDomainName L fq))"

definition canonicalZone :: "ext \<Rightarrow> string \<Rightarrow> string res" where
  "canonicalZone L s = (case split_name L s of Inl e \<Rightarrow> Inl e
     | Inr (fq, labels) \<Rightarrow>
         if list_all (\<lambda>(i, l). labelOK l (i > 0)) (enumerate 0 labels) then Inr fq
         else Inl (Sent ErrName))"

definition IsReverse :: "string \<Rightarrow> bool" where
  "IsReverse zn = (suffix (''.'' @ v4Suffix) zn \<or> suffix (''.'' @ v6Suffix) zn)"

definition octet_label :: "string \<Rightarrow> bool" where
  "octet_label l = (case Atoi l of None \<Rightarrow> False | Some n \<Rightarrow> \<not> (n < 0 \<or> n > 255 \<or> Itoa n \<noteq> l))"

definition nibble_label :: "string \<Rightarrow> bool" where
  "nibble_label l = (length l = 1 \<and> Contains ''0123456789abcdef'' l)"

definition reverseOK :: "string \<Rightarrow> bool" where
  "reverseOK zn =
     (if suffix (''.'' @ v4Suffix) zn then
        (let labels = Split CHR ''.'' (TrimSuffix zn (''.'' @ v4Suffix)) in
         if length labels > 4 then False else list_all octet_label labels)
      else
        (let labels = Split CHR ''.'' (TrimSuffix zn (''.'' @ v6Suffix)) in
         if length labels > 32 then False else list_all nibble_label labels))"

definition ZoneName :: "ext \<Rightarrow> string \<Rightarrow> string res" where
  "ZoneName L s = (case canonicalZone L s of Inl e \<Rightarrow> Inl e
     | Inr z \<Rightarrow>
         if IsReverse z then (if \<not> reverseOK z then Inl (Sent ErrName) else Inr z)
         else let bare = TrimSuffix z ''.'' in
           if x_PublicSuffix L bare = bare then Inl (Wrap ErrName (Sent ErrPublicSuffix)) else Inr z)"

definition RecordName :: "ext \<Rightarrow> string \<Rightarrow> string \<Rightarrow> string res" where
  "RecordName L zn name = (case canonicalZone L zn of Inl e \<Rightarrow> Inl e
     | Inr z \<Rightarrow> let n = TrimSpace name in
         if n = [] \<or> n = ''@'' then Inr z
         else if \<not> suffix ''.'' n \<and> prefix ''.'' n then Inl (Sent ErrName)
         else (case split_name L (if suffix ''.'' n then n else n @ ''.'' @ z) of Inl e \<Rightarrow> Inl e
           | Inr (fq, labels) \<Rightarrow>
               if \<not> list_all (\<lambda>(i, l). (l = ''*'' \<and> i = 0) \<or> labelOK l True) (enumerate (0::nat) labels)
               then Inl (Sent ErrName)
               else if fq \<noteq> z \<and> \<not> suffix (''.'' @ z) fq then Inl (Sent ErrName)
               else Inr fq))"

definition Hostname :: "ext \<Rightarrow> string \<Rightarrow> string res" where
  "Hostname L s = (case split_name L s of Inl e \<Rightarrow> Inl e
     | Inr (fq, labels) \<Rightarrow>
         if length labels < 2 then Inl (Sent ErrName)
         else if \<not> list_all (\<lambda>l. labelOK l False) labels then Inl (Sent ErrName)
         else if Atoi (last labels) \<noteq> None then Inl (Sent ErrName)
         else Inr fq)"

section \<open>Addresses\<close>

definition broadcast :: addr where "broadcast = V4 255 255 255 255"

definition ip_guard :: "addr \<Rightarrow> addr res" where
  "ip_guard a0 = (let a = Unmap a0 in
     if IsLoopback a \<or> IsLinkLocalUnicast a \<or> IsLinkLocalMulticast a \<or> IsInterfaceLocalMulticast a
        \<or> IsUnspecified a \<or> IsMulticast a \<or> a = broadcast
     then Inl (Sent ErrMasters) else Inr a)"

definition IPGuard :: "string \<Rightarrow> addr res" where
  "IPGuard s = (case ParseAddr (TrimSpace s) of None \<Rightarrow> Inl (Sent ErrMasters)
     | Some a \<Rightarrow> if addr_Zone a \<noteq> [] then Inl (Sent ErrMasters) else ip_guard a)"

text \<open>One primary of \<open>Masters\<close>: an address, else an address with a port.\<close>

definition master_port :: "string \<Rightarrow> string res" where
  "master_port s = (case ParseAddrPort s of None \<Rightarrow> Inl (Sent ErrMasters)
     | Some (a, p) \<Rightarrow>
         if addr_Zone a \<noteq> [] then Inl (Sent ErrMasters)
         else if p = 0 then Inl (Sent ErrMasters)
         else (case ip_guard a of Inl e \<Rightarrow> Inl e | Inr g \<Rightarrow> Inr (addrPort_String g p)))"

definition master_canon :: "string \<Rightarrow> string res" where
  "master_canon s =
     (case ParseAddr s of
        None \<Rightarrow> master_port s
      | Some a \<Rightarrow> if addr_Zone a = []
          then (case ip_guard a of Inl e \<Rightarrow> Inl e | Inr g \<Rightarrow> Inr (addr_String g))
          else master_port s)"

text \<open>The loop of \<open>Masters\<close>; the \<open>seen\<close> map holds exactly the collected values.\<close>

fun masters_loop :: "string list \<Rightarrow> string list \<Rightarrow> string list res" where
  "masters_loop out [] = Inr out"
| "masters_loop out (raw # rest) =
     (case master_canon (TrimSpace raw) of Inl e \<Rightarrow> Inl e
      | Inr canon \<Rightarrow> if canon \<in> set out then Inl (Sent ErrMasters)
          else masters_loop (out @ [canon]) rest)"

definition Masters :: "string list \<Rightarrow> string list res" where
  "Masters inp = (if length inp > MaxMasters then Inl (Sent ErrMasters) else masters_loop [] inp)"

section \<open>Facts\<close>

text \<open>
  The shape of accepted names: non-empty labels joined and ended by dots, at most
  254 octets; \<open>canonical us\<close> has valid labels, with an underscore in the first one
  only if \<open>us\<close> holds; \<open>owner_name\<close> also allows a whole first label \<open>*\<close>.
\<close>

definition plain_name :: "string \<Rightarrow> bool" where
  "plain_name z = (\<exists>l ls. z = Join ''.'' (l # ls) @ ''.'' \<and> length z \<le> 254 \<and>
     (\<forall>k \<in> set (l # ls). k \<noteq> [] \<and> (\<forall>c \<in> set k.
        printable c \<and> byte c < 128 \<and> \<not> is_upper c \<and> c \<noteq> CHR ''.'' \<and> c \<noteq> CHR 0x5C)))"

definition owner_name :: "string \<Rightarrow> bool" where
  "owner_name z = (\<exists>l ls. z = Join ''.'' (l # ls) @ ''.'' \<and> (l = ''*'' \<or> labelOK l True) \<and>
     list_all (\<lambda>l. labelOK l True) ls \<and> length z \<le> 254)"

definition canonical :: "bool \<Rightarrow> string \<Rightarrow> bool" where
  "canonical us z = (\<exists>l ls. z = Join ''.'' (l # ls) @ ''.'' \<and> labelOK l us \<and>
     list_all (\<lambda>l. labelOK l True) ls \<and> length z \<le> 254)"

lemma list_all_enumerate_Suc:
  "list_all (\<lambda>(i, l). P (i > 0) l) (enumerate (Suc n) ls) = list_all (P True) ls"
  by (induction ls arbitrary: n) auto

lemma labels_enumerate:
  "list_all (\<lambda>(i, l). labelOK l (i > 0)) (enumerate 0 (l # ls)) =
     (labelOK l False \<and> list_all (\<lambda>l. labelOK l True) ls)"
  using list_all_enumerate_Suc [of "\<lambda>b l. labelOK l b" 0 ls] by simp

lemma label_char_mono: "label_char False c \<Longrightarrow> label_char us c"
  by (auto simp: label_char_def)

lemma labelOK_mono: "labelOK l False \<Longrightarrow> labelOK l us"
  by (auto simp: labelOK_def list_all_iff label_char_mono split: if_splits)

lemma label_char_props:
  "label_char us c \<Longrightarrow> printable c \<and> byte c < 128 \<and> \<not> is_upper c \<and> c \<noteq> CHR ''.'' \<and> c \<noteq> CHR 0x5C"
  by (auto simp: label_char_def is_lower_def is_digit_def printable_def is_upper_def byte_def)

lemma labelOK_chars: "labelOK l us \<Longrightarrow> c \<in> set l \<Longrightarrow> label_char us c"
  by (auto simp: labelOK_def list_all_iff split: if_splits)

lemma labelOK_nonempty: "labelOK l us \<Longrightarrow> l \<noteq> []"
  by (auto simp: labelOK_def split: if_splits)

lemma split_name_fq:
  assumes laws: "fqdn_law L" "split_law L" and r: "split_name L s = Inr (fq, ls)"
  obtains b where "fq = b @ ''.''" "b \<noteq> []" "ls = Split CHR ''.'' b" "CHR 0x5C \<notin> set fq"
    "length fq \<le> 254" "\<not> prefix ''.'' fq" "\<not> Contains fq ''..''" "list_all printable fq"
proof -
  define t where "t = lower L (TrimSpace s)"
  have pr: "list_all printable t" and t: "t \<noteq> []"
    and fq: "fq = x_Fqdn L t" and ls: "ls = x_SplitDomainName L fq"
    and c: "\<not> prefix ''.'' fq" "\<not> Contains fq ''..''" "CHR 0x5C \<notin> set fq" "length fq - 1 \<le> 253"
    using r by (auto simp: split_name_def Let_def t_def maxName_def list_all_iff list_ex_iff printable_def not_le
        split: if_splits)
  have "CHR 0x5C \<notin> set t" using fq c(3) fqdn_law_cases [OF laws(1), of t] by auto
  then have f: "fq = (if suffix ''.'' t then t else t @ ''.'')"
    using fq fqdn_law_plain [OF laws(1)] by simp
  then obtain b where b: "fq = b @ ''.''" by (cases "suffix ''.'' t") (auto simp: suffix_def)
  have "b \<noteq> []" using b c(1) by auto
  moreover have "ls = Split CHR ''.'' b" using ls b c(3) \<open>b \<noteq> []\<close> split_law_labels [OF laws(2), of b] by simp
  moreover have "list_all printable fq"
    using f pr by (cases "suffix ''.'' t") (auto simp: printable_def byte_def)
  ultimately show thesis using that b c by auto
qed

lemma dots_ok:
  assumes "list_all (\<lambda>l. l \<noteq> [] \<and> CHR ''.'' \<notin> set l) (l # ls)"
  shows "\<not> prefix ''.'' (Join ''.'' (l # ls) @ ''.'') \<and> \<not> Contains (Join ''.'' (l # ls) @ ''.'') ''..''"
proof -
  have step: "\<not> Contains (p @ CHR ''.'' # s) ''..''" if "CHR ''.'' \<notin> set p" "s \<noteq> [] \<longrightarrow> hd s \<noteq> CHR ''.''" "\<not> Contains s ''..''"
    for p s using that
  proof (induction p)
    case Nil
    then show ?case by (cases s) (auto simp: prefix_def)
  next
    case (Cons c p)
    then show ?case by (cases p) (auto simp: prefix_def)
  qed
  have "Join ''.'' (l # ls) \<noteq> [] \<and> hd (Join ''.'' (l # ls)) \<noteq> CHR ''.'' \<and> \<not> Contains (Join ''.'' (l # ls) @ ''.'') ''..''"
    using assms
  proof (induction ls arbitrary: l)
    case Nil
    then show ?case using step [of l "[]"] by (cases l) auto
  next
    case (Cons m ls)
    then have IH: "Join ''.'' (m # ls) \<noteq> []" "hd (Join ''.'' (m # ls)) \<noteq> CHR ''.''"
      "\<not> Contains (Join ''.'' (m # ls) @ ''.'') ''..''" and l: "CHR ''.'' \<notin> set l" "l \<noteq> []"
      by auto
    have "\<not> Contains (l @ CHR ''.'' # (Join ''.'' (m # ls) @ ''.'')) ''..''"
      by (rule step) (use IH l in auto)
    with l show ?case by (cases l) auto
  qed
  then show ?thesis by (cases "Join ''.'' (l # ls)") auto
qed

lemma labelOK_plain:
  "labelOK k us \<Longrightarrow> k \<noteq> [] \<and> (\<forall>c \<in> set k.
     printable c \<and> byte c < 128 \<and> \<not> is_upper c \<and> c \<noteq> CHR ''.'' \<and> c \<noteq> CHR 0x5C)"
  using labelOK_nonempty labelOK_chars label_char_props by blast

lemma labelOK_no_dot: "labelOK k us \<Longrightarrow> CHR ''.'' \<notin> set k"
  using labelOK_plain by blast

lemma canonical_plain: "canonical us z \<Longrightarrow> plain_name z"
  using labelOK_plain unfolding canonical_def plain_name_def list_all_iff
  by (metis set_ConsD)

lemma canonical_mono: "canonical False z \<Longrightarrow> canonical us z"
  using labelOK_mono by (fastforce simp: canonical_def)

lemma owner_plain: "owner_name z \<Longrightarrow> plain_name z"
proof -
  have "''*'' \<noteq> [] \<and> (\<forall>c \<in> set ''*''.
     printable c \<and> byte c < 128 \<and> \<not> is_upper c \<and> c \<noteq> CHR ''.'' \<and> c \<noteq> CHR 0x5C)"
    by (simp add: printable_def byte_def is_upper_def)
  then show "owner_name z \<Longrightarrow> plain_name z"
    using labelOK_plain unfolding owner_name_def plain_name_def list_all_iff
    by (metis set_ConsD)
qed

lemma canonical_owner: "canonical us z \<Longrightarrow> owner_name z"
  using labelOK_mono unfolding canonical_def owner_name_def by (cases us) metis+

lemma plain_name_chars:
  assumes "plain_name z"
  shows "\<forall>c \<in> set z. printable c \<and> byte c < 128 \<and> \<not> is_upper c \<and> c \<noteq> CHR 0x5C" and "z \<noteq> []" and "last z = CHR ''.''"
proof -
  obtain l ls where z: "z = Join ''.'' (l # ls) @ ''.''" and
    k: "\<forall>k \<in> set (l # ls). k \<noteq> [] \<and> (\<forall>c \<in> set k.
        printable c \<and> byte c < 128 \<and> \<not> is_upper c \<and> c \<noteq> CHR ''.'' \<and> c \<noteq> CHR 0x5C)"
    using assms by (auto simp: plain_name_def)
  show "\<forall>c \<in> set z. printable c \<and> byte c < 128 \<and> \<not> is_upper c \<and> c \<noteq> CHR 0x5C"
  proof
    fix c assume "c \<in> set z"
    then have "c = CHR ''.'' \<or> (\<exists>k \<in> set (l # ls). c \<in> set k)"
      using z set_Join [of c "''.''" "l # ls"] by auto
    then show "printable c \<and> byte c < 128 \<and> \<not> is_upper c \<and> c \<noteq> CHR 0x5C"
    proof
      assume "c = CHR ''.''"
      then show ?thesis by (simp add: printable_def byte_def is_upper_def)
    next
      assume "\<exists>k \<in> set (l # ls). c \<in> set k"
      then show ?thesis using k by blast
    qed
  qed
  show "z \<noteq> []" "last z = CHR ''.''" using z by auto
qed

lemma plain_name_trim:
  assumes "plain_name z"
  shows "TrimSpace z = z" and "lower L z = z"
  using plain_name_chars [OF assms] by (simp_all add: TrimSpace_printable ToLower_id list_all_iff)

lemma not_printable_iff: "(byte c < 0x21 \<or> byte c > 0x7E) \<longleftrightarrow> \<not> printable c"
  by (auto simp: printable_def)

lemma split_name_plain:
  assumes laws: "fqdn_law L" "split_law L" and pn: "plain_name z"
  shows "split_name L z = Inr (z, Split CHR ''.'' (butlast z))"
proof -
  obtain l ls where z: "z = Join ''.'' (l # ls) @ ''.''" and len: "length z \<le> 254" and
    k: "list_all (\<lambda>l. l \<noteq> [] \<and> CHR ''.'' \<notin> set l) (l # ls)"
    using pn unfolding plain_name_def list_all_iff by metis
  note ch = plain_name_chars [OF pn] and d = dots_ok [OF k, folded z]
  have bs: "CHR 0x5C \<notin> set z" using ch(1) by blast
  have fq: "x_Fqdn L z = z" using fqdn_law_plain [OF laws(1) bs] z by (simp add: suffix_def)
  have ne: "z \<noteq> ''.''" using d by auto
  define b where "b = Join ''.'' (l # ls)"
  have b: "z = b @ ''.''" "butlast z = b" using z by (simp_all add: b_def)
  then have "b \<noteq> []" "CHR 0x5C \<notin> set b" using ne bs by auto
  then have "x_SplitDomainName L z = Split CHR ''.'' (butlast z)"
    unfolding b(2) using split_law_labels [OF laws(2), of b] b(1) by simp
  moreover have "\<not> list_ex (\<lambda>c. byte c < 0x21 \<or> byte c > 0x7E) z"
    using ch(1) unfolding not_printable_iff list_ex_iff by blast
  moreover have "\<not> length z - 1 > maxName" using len by (simp add: maxName_def)
  ultimately show ?thesis using fq ne ch(2) d bs
    by (simp add: split_name_def plain_name_trim [OF pn])
qed

lemma Split_butlast_Join:
  assumes "z = Join ''.'' (l # ls) @ ''.''" and "\<forall>k \<in> set (l # ls). CHR ''.'' \<notin> set k"
  shows "Split CHR ''.'' (butlast z) = l # ls"
  using assms Split_Join [of "l # ls" "CHR ''.''"] by (simp add: list_all_iff)

lemma canonicalZone_canonical:
  assumes "fqdn_law L" "split_law L" and "canonicalZone L s = Inr z"
  shows "canonical False z"
proof -
  obtain ls where sp: "split_name L s = Inr (z, ls)"
    and ok: "list_all (\<lambda>(i, l). labelOK l (i > 0)) (enumerate 0 ls)"
    using assms(3) by (auto simp: canonicalZone_def split: sum.splits if_splits)
  obtain b where b: "z = b @ ''.''" "ls = Split CHR ''.'' b" "length z \<le> 254"
    using split_name_fq [OF assms(1,2) sp] by metis
  obtain l ls' where l: "ls = l # ls'" using b(2) by (metis Split_nonempty neq_Nil_conv)
  have "b = Join ''.'' (l # ls')" using b(2) l Join_Split [of "CHR ''.''" b] by simp
  moreover have "labelOK l False \<and> list_all (\<lambda>l. labelOK l True) ls'"
    using ok unfolding l labels_enumerate .
  ultimately show ?thesis using b unfolding canonical_def by blast
qed

lemma canonicalZone_id:
  assumes "fqdn_law L" "split_law L" and "canonical False z"
  shows "canonicalZone L z = Inr z"
proof -
  obtain l ls where z: "z = Join ''.'' (l # ls) @ ''.''" and l: "labelOK l False"
    and ls: "list_all (\<lambda>l. labelOK l True) ls"
    using assms(3) by (auto simp: canonical_def)
  have "Split CHR ''.'' (butlast z) = l # ls"
    by (rule Split_butlast_Join [OF z]) (use l ls labelOK_no_dot in \<open>auto simp: list_all_iff\<close>)
  then show ?thesis
    using split_name_plain [OF assms(1,2) canonical_plain [OF assms(3)]] l ls
    by (simp add: canonicalZone_def labels_enumerate del: enumerate_simps)
qed

lemma split_name_error: "split_name L s = Inl e \<Longrightarrow> e = Sent ErrName"
  by (auto simp: split_name_def Let_def split: if_splits)

lemma canonicalZone_error: "canonicalZone L s = Inl e \<Longrightarrow> e = Sent ErrName"
  by (auto simp: canonicalZone_def dest: split_name_error split: sum.splits if_splits)

lemma ZoneName_canonicalZone: "ZoneName L s = Inr z \<Longrightarrow> canonicalZone L s = Inr z"
  by (auto simp: ZoneName_def Let_def split: sum.splits if_splits)

lemma ZoneName_id:
  assumes "fqdn_law L" "split_law L" and "ZoneName L s = Inr z"
  shows "ZoneName L z = Inr z"
proof -
  have "canonicalZone L z = Inr z"
    using assms ZoneName_canonicalZone canonicalZone_canonical canonicalZone_id by blast
  with assms(3) show ?thesis by (auto simp: ZoneName_def Let_def split: sum.splits if_splits)
qed

lemma owner_enumerate:
  "list_all (\<lambda>(i, l). (l = ''*'' \<and> i = 0) \<or> labelOK l True) (enumerate (0::nat) (l # ls)) =
     ((l = ''*'' \<or> labelOK l True) \<and> list_all (\<lambda>l. labelOK l True) ls)"
proof -
  have "list_all (\<lambda>(i, l). (l = ''*'' \<and> i = 0) \<or> labelOK l True) (enumerate (Suc n) ls) =
      list_all (\<lambda>l. labelOK l True) ls" for n
    by (induction ls arbitrary: n) auto
  then show ?thesis by simp
qed

text \<open>The owner name a record gets is well formed and inside its zone.\<close>

lemma RecordName_owner:
  assumes laws: "fqdn_law L" "split_law L" and r: "RecordName L zn name = Inr fq"
  obtains z where "canonicalZone L zn = Inr z" "canonical False z" "owner_name fq" "InZone fq z"
proof -
  obtain z where z: "canonicalZone L zn = Inr z"
    using r by (auto simp: RecordName_def split: sum.splits)
  have c: "canonical False z" by (rule canonicalZone_canonical [OF laws z])
  show thesis
  proof (cases "TrimSpace name = [] \<or> TrimSpace name = ''@''")
    case True
    then have "fq = z" using r z by (simp add: RecordName_def)
    with z c show ?thesis using that canonical_owner by simp
  next
    case False
    define m where "m = (if suffix ''.'' (TrimSpace name) then TrimSpace name else TrimSpace name @ ''.'' @ z)"
    obtain ls where sp: "split_name L m = Inr (fq, ls)"
      and ok: "list_all (\<lambda>(i, l). (l = ''*'' \<and> i = 0) \<or> labelOK l True) (enumerate (0::nat) ls)"
      and inz: "fq = z \<or> suffix (''.'' @ z) fq"
      using r z False by (auto simp: RecordName_def Let_def m_def [symmetric] split: sum.splits if_splits)
    obtain b where b: "fq = b @ ''.''" "ls = Split CHR ''.'' b" "length fq \<le> 254"
      using split_name_fq [OF laws sp] by metis
    obtain l ls' where l: "ls = l # ls'" using b(2) by (metis Split_nonempty neq_Nil_conv)
    have "b = Join ''.'' (l # ls')" using b(2) l Join_Split [of "CHR ''.''" b] by simp
    then have "owner_name fq" using ok b unfolding l owner_enumerate owner_name_def by blast
    with z c inz show ?thesis using that by (simp add: InZone_def)
  qed
qed

lemma owner_labels:
  assumes "owner_name fq"
  shows "list_all (\<lambda>(i, l). (l = ''*'' \<and> i = 0) \<or> labelOK l True) (enumerate (0::nat) (Split CHR ''.'' (butlast fq)))"
proof -
  obtain l ls where fq: "fq = Join ''.'' (l # ls) @ ''.''" and l: "l = ''*'' \<or> labelOK l True"
    and ls: "list_all (\<lambda>l. labelOK l True) ls"
    using assms by (auto simp: owner_name_def)
  have "Split CHR ''.'' (butlast fq) = l # ls"
    by (rule Split_butlast_Join [OF fq]) (use l ls labelOK_no_dot in \<open>auto simp: list_all_iff\<close>)
  then show ?thesis using l ls owner_enumerate by (simp del: enumerate_simps)
qed

lemma RecordName_fixed:
  assumes laws: "fqdn_law L" "split_law L" and z: "canonicalZone L zn = Inr z" and o: "owner_name fq" and inz: "InZone fq z"
  shows "RecordName L zn fq = Inr fq"
proof -
  have pl: "plain_name fq" by (rule owner_plain [OF o])
  have "last fq = CHR ''.''" "fq \<noteq> []" using plain_name_chars [OF pl] by simp_all
  then have "suffix ''.'' fq" "fq \<noteq> ''@''" by (auto simp: suffix_def) (metis append_butlast_last_id)
  with z inz pl \<open>fq \<noteq> []\<close> owner_labels [OF o] split_name_plain [OF laws pl] plain_name_trim(1) [OF pl]
  show ?thesis by (auto simp: RecordName_def InZone_def)
qed

lemma RecordName_id:
  assumes laws: "fqdn_law L" "split_law L" and r: "RecordName L zn name = Inr fq"
  shows "RecordName L zn fq = Inr fq"
  by (rule RecordName_owner [OF laws r]) (rule RecordName_fixed [OF laws])

lemma RecordName_error: "RecordName L zn name = Inl e \<Longrightarrow> e = Sent ErrName"
  by (auto simp: RecordName_def Let_def dest: split_name_error canonicalZone_error split: sum.splits if_splits)

text \<open>The reverse rules, as numbers.\<close>

lemma octet_label_iff: "octet_label l \<longleftrightarrow> (\<exists>n \<le> 255. l = itoa_nat n)"
proof
  assume "octet_label l"
  then obtain n where "Atoi l = Some n" "0 \<le> n" "n \<le> 255" "Itoa n = l"
    by (auto simp: octet_label_def split: option.splits)
  then show "\<exists>n \<le> 255. l = itoa_nat n" by (intro exI [of _ "nat n"]) (auto simp: Itoa_def)
next
  assume "\<exists>n \<le> 255. l = itoa_nat n"
  then obtain n where "n \<le> 255" "l = itoa_nat n" by auto
  moreover have "Atoi (itoa_nat n) = Some (int n)" using \<open>n \<le> 255\<close> by (intro Atoi_itoa_nat) simp
  ultimately show "octet_label l" by (simp add: octet_label_def Itoa_def)
qed

lemma Hostname_ok:
  assumes laws: "fqdn_law L" "split_law L" and r: "Hostname L s = Inr h"
  shows "canonical False h \<and> (\<exists>ls. h = Join ''.'' ls @ ''.'' \<and> length ls \<ge> 2 \<and>
    list_all (\<lambda>l. labelOK l False) ls \<and> Atoi (last ls) = None)"
proof -
  obtain ls where sp: "split_name L s = Inr (h, ls)" and n: "length ls \<ge> 2"
    and ok: "list_all (\<lambda>l. labelOK l False) ls" and a: "Atoi (last ls) = None"
    using r by (auto simp: Hostname_def split: sum.splits if_splits)
  obtain b where b: "h = b @ ''.''" "ls = Split CHR ''.'' b" "length h \<le> 254"
    using split_name_fq [OF laws sp] by metis
  have j: "h = Join ''.'' ls @ ''.''" using b by simp
  moreover have "canonical False h"
    using j ok n b(3) labelOK_mono [of _ True] unfolding canonical_def list_all_iff
    by (cases ls) auto
  ultimately show ?thesis using n ok a by blast
qed

lemma masters_loop_ok:
  "masters_loop out inp = Inr r \<Longrightarrow> distinct out \<Longrightarrow>
     distinct r \<and> length r = length out + length inp \<and>
     set r = set out \<union> {c. \<exists>raw \<in> set inp. master_canon (TrimSpace raw) = Inr c}"
  by (induction inp arbitrary: out) (auto split: sum.splits if_splits)

lemma ip_guard_ok:
  "ip_guard a = Inr g \<Longrightarrow> g = Unmap a \<and> ip_guard g = Inr g \<and>
     \<not> IsLoopback g \<and> \<not> IsLinkLocalUnicast g \<and> \<not> IsMulticast g \<and> \<not> IsUnspecified g \<and> g \<noteq> broadcast"
  by (auto simp: ip_guard_def Let_def split: if_splits)

text \<open>The reverse zone of up to four octets, least significant first.\<close>

definition v4_reverse :: "nat list \<Rightarrow> string" where
  "v4_reverse ns = Join ''.'' (map itoa_nat ns) @ ''.'' @ v4Suffix"

lemma labelOK_itoa: "n \<le> 255 \<Longrightarrow> labelOK (itoa_nat n) us"
proof -
  assume n: "n \<le> 255"
  have d: "list_all is_digit (itoa_nat n)" "itoa_nat n \<noteq> []" using itoa_nat_digits [of n] by auto
  have l: "length (itoa_nat n) \<le> 3" using n itoa_nat_small [of n] by auto
  have "hd (itoa_nat n) \<in> set (itoa_nat n)" "last (itoa_nat n) \<in> set (itoa_nat n)" using d by auto
  then have "is_digit (hd (itoa_nat n))" "is_digit (last (itoa_nat n))" using d by (auto simp: list_all_iff)
  then have "hd (itoa_nat n) \<noteq> CHR ''-''" "last (itoa_nat n) \<noteq> CHR ''-''" by (auto simp: is_digit_def byte_def)
  then show ?thesis using d l by (auto simp: labelOK_def maxLabel_def list_all_iff label_char_def)
qed

lemma Join_append: "ps \<noteq> [] \<Longrightarrow> qs \<noteq> [] \<Longrightarrow> Join sep (ps @ qs) = Join sep ps @ sep @ Join sep qs"
proof (induction ps)
  case (Cons p ps)
  then show ?case by (cases "ps @ qs"; cases ps; cases qs) auto
qed simp

lemma length_Join_octets:
  "\<forall>n \<in> set ns. n \<le> 255 \<Longrightarrow> length (Join ''.'' (map itoa_nat ns)) \<le> 4 * length ns"
proof (induction ns)
  case (Cons n ns)
  then have "length (itoa_nat n) \<le> 3" using itoa_nat_small [of n] by auto
  with Cons show ?case by (cases ns) auto
qed simp

lemma v4_reverse_canonical:
  assumes "ns \<noteq> []" "length ns \<le> 4" "\<forall>n \<in> set ns. n \<le> 255"
  shows "canonical False (v4_reverse ns)"
proof -
  obtain n ms where ns: "ns = n # ms" using assms(1) by (cases ns) auto
  have "Join ''.'' (map itoa_nat ns @ [''in-addr'', ''arpa'']) = Join ''.'' (map itoa_nat ns) @ ''.'' @ ''in-addr.arpa''"
    using assms(1) by (subst Join_append) auto
  then have "v4_reverse ns = Join ''.'' (itoa_nat n # (map itoa_nat ms @ [''in-addr'', ''arpa''])) @ ''.''"
    by (simp add: v4_reverse_def v4Suffix_def ns)
  moreover have "labelOK ''in-addr'' True \<and> labelOK ''arpa'' True" by code_simp
  moreover have "list_all (\<lambda>l. labelOK l True) (map itoa_nat ms)" "labelOK (itoa_nat n) False"
    using assms(3) labelOK_itoa by (auto simp: ns list_all_iff)
  moreover have "length (v4_reverse ns) \<le> 254"
    using length_Join_octets [OF assms(3)] assms(2) by (simp add: v4_reverse_def v4Suffix_def)
  ultimately show ?thesis unfolding canonical_def
    by (intro exI [of _ "itoa_nat n"] exI [of _ "map itoa_nat ms @ [''in-addr'', ''arpa'']"]) simp
qed

lemma v4_reverse_labels:
  "ns \<noteq> [] \<Longrightarrow> Split CHR ''.'' (Join ''.'' (map itoa_nat ns)) = map itoa_nat ns"
proof (rule Split_Join)
  show "list_all (\<lambda>p. CHR ''.'' \<notin> set p) (map itoa_nat ns)"
    using itoa_nat_digits by (auto simp: list_all_iff) (metis is_digit_dot(1))
qed simp

lemma map_choice: "\<forall>l \<in> set ls. \<exists>n. P n \<and> l = f n \<Longrightarrow> \<exists>ns. ls = map f ns \<and> (\<forall>n \<in> set ns. P n)"
proof (induction ls)
  case (Cons l ls)
  then obtain n ns where "P n" "l = f n" "ls = map f ns" "\<forall>n \<in> set ns. P n" by auto
  then show ?case by (intro exI [of _ "n # ns"]) auto
qed simp

lemma reverseOK_v4:
  assumes "suffix (''.'' @ v4Suffix) z"
  shows "reverseOK z \<longleftrightarrow> (\<exists>ns. ns \<noteq> [] \<and> length ns \<le> 4 \<and> (\<forall>n \<in> set ns. n \<le> 255) \<and> z = v4_reverse ns)"
proof -
  obtain b where b: "z = b @ ''.'' @ v4Suffix" using assms by (auto simp: suffix_def)
  then have t: "TrimSuffix z (''.'' @ v4Suffix) = b" by (simp add: TrimSuffix_def suffix_def)
  have r: "reverseOK z \<longleftrightarrow> length (Split CHR ''.'' b) \<le> 4 \<and> list_all octet_label (Split CHR ''.'' b)"
    using assms t by (auto simp: reverseOK_def Let_def not_less)
  show ?thesis
  proof
    assume "reverseOK z"
    then have l: "length (Split CHR ''.'' b) \<le> 4" "\<forall>l \<in> set (Split CHR ''.'' b). \<exists>n \<le> 255. l = itoa_nat n"
      using r by (auto simp: list_all_iff octet_label_iff)
    obtain ns where "Split CHR ''.'' b = map itoa_nat ns" "\<forall>n \<in> set ns. n \<le> 255"
      using map_choice [OF l(2)] by blast
    then show "\<exists>ns. ns \<noteq> [] \<and> length ns \<le> 4 \<and> (\<forall>n \<in> set ns. n \<le> 255) \<and> z = v4_reverse ns"
      using l(1) b Join_Split [of "CHR ''.''" b] Split_nonempty [of "CHR ''.''" b]
      by (intro exI [of _ ns]) (auto simp: v4_reverse_def)
  next
    assume "\<exists>ns. ns \<noteq> [] \<and> length ns \<le> 4 \<and> (\<forall>n \<in> set ns. n \<le> 255) \<and> z = v4_reverse ns"
    then obtain ns where ns: "ns \<noteq> []" "length ns \<le> 4" "\<forall>n \<in> set ns. n \<le> 255" "z = v4_reverse ns" by blast
    then have "b = Join ''.'' (map itoa_nat ns)" using b by (simp add: v4_reverse_def)
    then show "reverseOK z" using ns r v4_reverse_labels [OF ns(1)]
      by (auto simp: list_all_iff octet_label_iff)
  qed
qed

lemma master_canon_ok:
  assumes "master_canon s = Inr c"
  obtains a where "IsValid a" "\<not> Is4In6 a" "ip_guard a = Inr a"
    "c = addr_String a \<or> (\<exists>p. p \<noteq> 0 \<and> c = addrPort_String a p)"
proof -
  have p: "ParseAddrPort s = Some (a, p) \<Longrightarrow> IsValid a" for a p
    by (auto simp: ParseAddrPort_def Let_def dest: ParseAddr_wf split: if_splits option.splits)
  note result = that
  have g: "IsValid g \<and> \<not> Is4In6 g \<and> ip_guard g = Inr g" if "ip_guard a = Inr g" "IsValid a" for a g
    using ip_guard_ok [OF that(1)] that(2) by (metis IsValid_Unmap Is4In6_Unmap)
  have m: thesis if mp: "master_port s = Inr c"
  proof -
    obtain a q where pa: "ParseAddrPort s = Some (a, q)" using mp by (auto simp: master_port_def split: option.splits)
    then obtain h where h: "ip_guard a = Inr h" "q \<noteq> 0" "c = addrPort_String h q"
      using mp by (auto simp: master_port_def split: if_splits sum.splits)
    with g [OF h(1) p [OF pa]] show thesis by (intro result [of h]) auto
  qed
  show thesis
  proof (cases "master_port s = Inr c")
    case False
    then obtain a where pa: "ParseAddr s = Some a" "addr_Zone a = []"
      using assms by (auto simp: master_canon_def split: option.splits if_splits)
    then obtain h where h: "ip_guard a = Inr h" "c = addr_String h"
      using assms by (auto simp: master_canon_def split: sum.splits)
    with g [OF h(1)] ParseAddr_wf [OF pa(1)] show thesis by (intro result [of h]) auto
  qed (rule m)
qed

lemma ZoneName_rules:
  assumes "ZoneName L s = Inr z"
  shows "if IsReverse z then reverseOK z else x_PublicSuffix L (TrimSuffix z ''.'') \<noteq> TrimSuffix z ''.''"
  using assms ZoneName_canonicalZone [OF assms] by (auto simp: ZoneName_def Let_def split: if_splits)

section \<open>Properties\<close>

text \<open>
  C28: an accepted zone name is canonical (an absolute lower-case name of at most
  253 octets without the root dot, made of valid labels), validating it again
  returns it unchanged, and it is either a well-formed reverse zone or not a
  public suffix.
\<close>

theorem ZoneName_sound:
  assumes "fqdn_law L" and "split_law L" and "ZoneName L s = Inr z"
  shows "canonical False z \<and> ZoneName L z = Inr z \<and>
    (if IsReverse z then reverseOK z else x_PublicSuffix L (TrimSuffix z ''.'') \<noteq> TrimSuffix z ''.'')"
proof (intro conjI)
  have c: "canonicalZone L s = Inr z" by (rule ZoneName_canonicalZone [OF assms(3)])
  show "canonical False z" by (rule canonicalZone_canonical [OF assms(1,2) c])
  show "ZoneName L z = Inr z" by (rule ZoneName_id [OF assms])
  show "if IsReverse z then reverseOK z else x_PublicSuffix L (TrimSuffix z ''.'') \<noteq> TrimSuffix z ''.''"
    by (rule ZoneName_rules [OF assms(3)])
qed

theorem ZoneName_sound_witness:
  "canonical False ''example.com.'' \<and> ZoneName sample_ext ''example.com.'' = Inr ''example.com.''"
proof -
  have "ZoneName sample_ext '' Example.COM'' = Inr ''example.com.''" by code_simp
  from ZoneName_sound [OF sample_laws this] show ?thesis by simp
qed

text \<open>
  C31: the zones accepted under \<^verbatim>\<open>in-addr.arpa\<close> are exactly the names of one to
  four octets 0--255 in decimal without leading zeros.
\<close>

theorem reverse_zone_octets:
  assumes "fqdn_law L" and "split_law L" and "suffix (''.'' @ v4Suffix) z"
  shows "(\<exists>s. ZoneName L s = Inr z) \<longleftrightarrow>
    (\<exists>ns. ns \<noteq> [] \<and> length ns \<le> 4 \<and> (\<forall>n \<in> set ns. n \<le> 255) \<and> z = Join ''.'' (map itoa_nat ns) @ ''.'' @ v4Suffix)"
proof -
  have rev: "IsReverse z" using assms(3) by (simp add: IsReverse_def)
  show ?thesis
  proof
    assume "\<exists>s. ZoneName L s = Inr z"
    then have "reverseOK z" using rev ZoneName_rules by metis
    then show "\<exists>ns. ns \<noteq> [] \<and> length ns \<le> 4 \<and> (\<forall>n \<in> set ns. n \<le> 255) \<and> z = Join ''.'' (map itoa_nat ns) @ ''.'' @ v4Suffix"
      using reverseOK_v4 [OF assms(3)] by (simp add: v4_reverse_def)
  next
    assume "\<exists>ns. ns \<noteq> [] \<and> length ns \<le> 4 \<and> (\<forall>n \<in> set ns. n \<le> 255) \<and> z = Join ''.'' (map itoa_nat ns) @ ''.'' @ v4Suffix"
    then obtain ns where ns: "ns \<noteq> []" "length ns \<le> 4" "\<forall>n \<in> set ns. n \<le> 255" "z = v4_reverse ns"
      by (auto simp: v4_reverse_def)
    then have "reverseOK z" using reverseOK_v4 [OF assms(3)] by blast
    moreover have "canonicalZone L z = Inr z"
      using canonicalZone_id [OF assms(1,2)] v4_reverse_canonical [OF ns(1-3)] ns(4) by simp
    ultimately have "ZoneName L z = Inr z" using rev by (simp add: ZoneName_def)
    then show "\<exists>s. ZoneName L s = Inr z" ..
  qed
qed

theorem reverse_zone_octets_witness:
  "\<exists>s. ZoneName sample_ext s = Inr ''2.0.192.in-addr.arpa.''"
proof -
  have "suffix (''.'' @ v4Suffix) ''2.0.192.in-addr.arpa.''" by code_simp
  moreover have "''2.0.192.in-addr.arpa.'' = Join ''.'' (map itoa_nat [2, 0, 192]) @ ''.'' @ v4Suffix" by code_simp
  moreover have "[2, 0, 192::nat] \<noteq> [] \<and> length [2, 0, 192::nat] \<le> 4 \<and> (\<forall>n \<in> set [2, 0, 192::nat]. n \<le> 255)" by simp
  ultimately show ?thesis
    using reverse_zone_octets [OF sample_laws, of "''2.0.192.in-addr.arpa.''"] by blast
qed

text \<open>
  C29: an accepted owner name is well formed (a wildcard only as the whole first
  label), lies inside the zone the caller named, and is a fixed point of the
  validation.
\<close>

theorem RecordName_in_zone:
  assumes "fqdn_law L" and "split_law L" and "RecordName L zn name = Inr fq"
  shows "\<exists>z. canonicalZone L zn = Inr z \<and> owner_name fq \<and> InZone fq z \<and> RecordName L z fq = Inr fq"
proof -
  obtain z where z: "canonicalZone L zn = Inr z" "canonical False z" "owner_name fq" "InZone fq z"
    using RecordName_owner [OF assms] by metis
  have "canonicalZone L z = Inr z" using canonicalZone_id [OF assms(1,2) z(2)] .
  then have "RecordName L z fq = RecordName L zn fq" using z(1) by (simp add: RecordName_def)
  then show ?thesis using z RecordName_id [OF assms] by auto
qed

theorem RecordName_in_zone_witness:
  "InZone ''*.dev.example.com.'' ''example.com.''"
proof -
  have "RecordName sample_ext ''Example.com'' ''*.Dev'' = Inr ''*.dev.example.com.''" by code_simp
  moreover have "canonicalZone sample_ext ''Example.com'' = Inr ''example.com.''" by code_simp
  ultimately show ?thesis using RecordName_in_zone [OF sample_laws, of "''Example.com''" "''*.Dev''"] by auto
qed

text \<open>
  C30: the list of primaries the program hands on has one entry per input, at most
  16, all different, and each is an address (with or without a non-zero port)
  that is not loopback, link-local, multicast, unspecified, broadcast or an
  IPv4-mapped form of one.
\<close>

theorem Masters_guarded:
  assumes "Masters inp = Inr ms"
  shows "length ms = length inp \<and> length ms \<le> 16 \<and> distinct ms \<and> (\<forall>m \<in> set ms. \<exists>a.
    IsValid a \<and> \<not> Is4In6 a \<and> \<not> IsLoopback a \<and> \<not> IsLinkLocalUnicast a \<and> \<not> IsMulticast a \<and>
    \<not> IsUnspecified a \<and> a \<noteq> V4 255 255 255 255 \<and>
    (m = addr_String a \<or> (\<exists>p. p \<noteq> 0 \<and> m = addrPort_String a p)))"
proof -
  have l: "length inp \<le> 16" and r: "masters_loop [] inp = Inr ms"
    using assms by (auto simp: Masters_def MaxMasters_def split: if_splits)
  note ok = masters_loop_ok [OF r]
  have "\<exists>a. IsValid a \<and> \<not> Is4In6 a \<and> \<not> IsLoopback a \<and> \<not> IsLinkLocalUnicast a \<and> \<not> IsMulticast a \<and>
    \<not> IsUnspecified a \<and> a \<noteq> V4 255 255 255 255 \<and> (m = addr_String a \<or> (\<exists>p. p \<noteq> 0 \<and> m = addrPort_String a p))"
    if m: "m \<in> set ms" for m
  proof -
    obtain raw where "master_canon (TrimSpace raw) = Inr m" using ok m by auto
    then obtain a where a: "IsValid a" "\<not> Is4In6 a" "ip_guard a = Inr a"
      "m = addr_String a \<or> (\<exists>p. p \<noteq> 0 \<and> m = addrPort_String a p)"
      by (rule master_canon_ok)
    then show ?thesis using ip_guard_ok [OF a(3)] by (auto simp: broadcast_def)
  qed
  then show ?thesis using ok l by simp
qed

theorem Masters_guarded_witness:
  "length [''192.0.2.10'', ''192.0.2.11:5300''] \<le> 16 \<and> distinct [''192.0.2.10'', ''192.0.2.11:5300'']"
proof -
  have "Masters [''192.0.2.10'', '' 192.0.2.11:5300''] = Inr [''192.0.2.10'', ''192.0.2.11:5300'']" by code_simp
  from Masters_guarded [OF this] show ?thesis by blast
qed

text \<open>
  An IPv4 primary in printed form is a fixed point of the validation: it is
  either refused by the address guard or kept letter for letter, so a stored
  primary names the address that was checked.
\<close>

lemma master_canon_printed:
  "master_canon (addr_String (V4 a b c d)) =
     (case ip_guard (V4 a b c d) of Inl e \<Rightarrow> Inl e | Inr g \<Rightarrow> Inr (addr_String (V4 a b c d)))"
  by (auto simp: master_canon_def dest: ip_guard_ok split: sum.split)

text \<open>
  A name with a non-ASCII character is accepted when that character's lower
  case is ASCII: U+212A (KELVIN SIGN) is validated as the letter k, because the
  name is lower-cased before the characters are checked.
\<close>

lemma kelvin_sign_accepted:
  assumes "uni_lower (x_unicode L) 8490 = 107" and "fqdn_law L" and "split_law L"
    and "x_PublicSuffix L ''k.example'' \<noteq> ''k.example''"
  shows "ZoneName L [CHR 0xE2, CHR 0x84, CHR 0xAA, CHR ''.'', CHR ''e'', CHR ''x'', CHR ''a'', CHR ''m'',
    CHR ''p'', CHR ''l'', CHR ''e''] = Inr ''k.example.''"
proof -
  define s where "s = [CHR 0xE2, CHR 0x84, CHR 0xAA, CHR ''.'', CHR ''e'', CHR ''x'', CHR ''a'', CHR ''m'',
    CHR ''p'', CHR ''l'', CHR ''e'']"
  have t: "TrimSpace s = s" "\<not> is_ascii s" "runes s = [8490, 46, 101, 120, 97, 109, 112, 108, 101]"
    unfolding s_def by code_simp+
  have e: "concat (map encode_rune [107, 46, 101, 120, 97, 109, 112, 108, 101]) = ''k.example''" by code_simp
  have l: "lower L s = ''k.example''"
    using t(2,3) e assms(1) by (simp add: ToLower_def rune_lower_def)
  have c: "canonical False ''k.example.''"
    unfolding canonical_def by (intro exI [of _ "''k''"] exI [of _ "[''example'']"]) code_simp
  note pq = plain_name_trim [OF canonical_plain [OF c]]
  have "split_name L s = split_name L ''k.example.''"
    using fqdn_law_plain [OF assms(2), of "''k.example''"] fqdn_law_plain [OF assms(2), of "''k.example.''"]
    unfolding split_name_def t(1) l pq by (simp add: suffix_def byte_def)
  then have "canonicalZone L s = Inr ''k.example.''"
    using canonicalZone_id [OF assms(2,3) c] by (simp add: canonicalZone_def)
  moreover have "\<not> IsReverse ''k.example.''" "TrimSuffix ''k.example.'' ''.'' = ''k.example''" by code_simp+
  ultimately have "ZoneName L s = Inr ''k.example.''" using assms(4) by (simp add: ZoneName_def)
  then show ?thesis unfolding s_def .
qed

lemma kelvin_sign_accepted_witness:
  "\<exists>L. fqdn_law L \<and> ZoneName L [CHR 0xE2, CHR 0x84, CHR 0xAA, CHR ''.'', CHR ''e'', CHR ''x'', CHR ''a'', CHR ''m'',
    CHR ''p'', CHR ''l'', CHR ''e''] = Inr ''k.example.''"
proof -
  define L where "L = sample_ext\<lparr>x_unicode := sample_unicode\<lparr>uni_lower := id(8490 := 107)\<rparr>\<rparr>"
  have "uni_lower (x_unicode L) 8490 = 107" "fqdn_law L" "split_law L"
    by (simp_all add: L_def sample_ext_def sample_unicode_def fqdn_law_ref split_law_ref)
  moreover have "x_PublicSuffix sample_ext ''k.example'' \<noteq> ''k.example''" by code_simp
  then have "x_PublicSuffix L ''k.example'' \<noteq> ''k.example''" by (simp add: L_def)
  ultimately show ?thesis using kelvin_sign_accepted [of L] by blast
qed

end
