(* ===== verification/Zones.thy ===== *)
theory Zones
  imports Interfaces Validate_Names
begin

text \<open>
  The zone lifecycle, \<^verbatim>\<open>internal/zones/zones.go\<close>. Slices that are nil and empty
  are not told apart, so \<open>view\<close> and \<open>nonNil\<close> disappear; the metrics around
  \<^verbatim>\<open>Service.Call\<close> do not change the outcome of the call.
\<close>

definition MaxDescription :: nat where "MaxDescription = 1000"
definition MaxNameservers :: nat where "MaxNameservers = 16"

record create_input =
  ci_Name :: string
  ci_Kind :: string
  ci_Masters :: "string list"
  ci_Nameservers :: "string list"
  ci_DNSSEC :: bool
  ci_Description :: string
  ci_TemplateID :: string
  ci_Origin :: string
  ci_RRsets :: "rrset list"

record update_input =
  ui_Kind :: "string option"
  ui_Masters :: "string list option"
  ui_DNSSEC :: "bool option"
  ui_Description :: "string option"

text \<open>The constructor; the clock and the identifiers, which it also fills in, are always given here.\<close>

definition zones_New :: "'w deps \<Rightarrow> 'w deps" where
  "zones_New D = D\<lparr>d_MaxExportBytes := (if d_MaxExportBytes D \<le> 0 then 32 * 2 ^ 20 else d_MaxExportBytes D)\<rparr>"

section \<open>Checks and classification\<close>

definition zones_guard :: "'w deps \<Rightarrow> subjects \<Rightarrow> string \<Rightarrow> gerr option" where
  "zones_guard D s perm =
     (if s_TenantID s = [] then Some (Sent ErrForbidden)
      else if s_ActorKind s = ActorUser \<and> d_Checker D = None then None
      else Require (d_Checker D) s perm)"

text \<open>\<open>errors.As\<close> for an API error: its status.\<close>

fun api_status :: "gerr \<Rightarrow> int option" where
  "api_status (APIError st k) = Some st"
| "api_status (Wrap s e) = api_status e"
| "api_status e = None"

definition mapPDNS :: "gerr \<Rightarrow> gerr" where
  "mapPDNS e = (case api_status e of None \<Rightarrow> e
     | Some st \<Rightarrow> if 400 \<le> st \<and> st < 500 \<and> \<not> errIs e pdns_ErrNotFound \<and> \<not> errIs e pdns_ErrConflict
         then Sent zones_ErrRejected else e)"

definition zones_reasons :: "(sentinel \<times> string) list" where
  "zones_reasons = [(zones_ErrDuplicate, ''duplicate''), (zones_ErrInvalidKind, ''invalid_kind''),
     (zones_ErrInvalid, ''bad_request''), (zones_ErrRejected, ''bad_request''),
     (zones_ErrTemplateNotFound, ''template_not_found''), (ErrName, ''invalid_name''), (ErrMasters, ''bad_request''),
     (pdns_ErrUnavailable, ''pdns_unavailable''), (zones_ErrExportTooLarge, ''bad_request''),
     (zones_ErrNotFound, ''zone_not_found'')]"

definition zones_reasonOf :: "gerr \<Rightarrow> string" where
  "zones_reasonOf e = (case List.find (\<lambda>(s, r). errIs e s) zones_reasons of Some (s, r) \<Rightarrow> r | None \<Rightarrow> ''error'')"

definition zones_outcomeOf :: "gerr \<Rightarrow> string" where
  "zones_outcomeOf e =
     (if zones_reasonOf e = ''error'' \<or> errIs e pdns_ErrUnavailable then OutcomeError else OutcomeRefused)"

definition zones_audit ::
  "'w deps \<Rightarrow> subjects \<Rightarrow> string \<Rightarrow> string \<Rightarrow> string \<Rightarrow> string \<Rightarrow> gerr option \<Rightarrow> 'w \<Rightarrow> 'w" where
  "zones_audit D s t i name outcome err = audit_Emit (d_Audit D)
     \<lparr>ae_TenantID = s_TenantID s, ae_EventType = t, ae_ActorKind = ActorOf (s_ActorKind s), ae_ActorID = ActorID s,
      ae_SubjectKind = SubjectZone, ae_SubjectID = i, ae_Outcome = outcome,
      ae_Reason = (case err of None \<Rightarrow> [] | Some e \<Rightarrow> zones_reasonOf e), ae_Details = [(''zone'', DStr name)]\<rparr>"

definition checkDescription :: "string \<Rightarrow> gerr option" where
  "checkDescription d = (if RuneCount d > MaxDescription then Some (Sent zones_ErrInvalid) else None)"

definition kindMasters :: "string \<Rightarrow> string list \<Rightarrow> string list res" where
  "kindMasters kind masters =
     (if \<not> ValidKind kind then Inl (Sent zones_ErrInvalidKind)
      else case Masters masters of Inl e \<Rightarrow> Inl e
        | Inr m \<Rightarrow>
            if NeedsMasters kind \<and> m = [] then Inl (Sent zones_ErrInvalidKind)
            else if \<not> NeedsMasters kind \<and> m \<noteq> [] then Inl (Sent ErrMasters)
            else Inr m)"

fun nameservers_loop :: "ext \<Rightarrow> string list \<Rightarrow> string list \<Rightarrow> string list res" where
  "nameservers_loop L out [] = Inr out"
| "nameservers_loop L out (n # ns) = (case Hostname L n of Inl e \<Rightarrow> Inl e
     | Inr h \<Rightarrow> nameservers_loop L (if h \<in> set out then out else out @ [h]) ns)"

definition nameservers :: "ext \<Rightarrow> string \<Rightarrow> string list \<Rightarrow> string list res" where
  "nameservers L kind inp =
     (if NeedsMasters kind then Inr []
      else if length inp > MaxNameservers then Inl (Sent zones_ErrInvalid)
      else nameservers_loop L [] inp)"

section \<open>Create\<close>

definition empty_zone :: zone where
  "empty_zone = \<lparr>z_ID = [], z_TenantID = [], z_Name = [], z_PDNSID = [], z_Kind = [], z_Masters = [], z_DNSSEC = False,
     z_Description = [], z_TemplateID = [], z_Origin = [], z_Nameservers = [], z_CreatedBy = [], z_CreatedAt = 0,
     z_UpdatedAt = 0\<rparr>"

text \<open>
  The validation of a new zone. \<open>prepare\<close> and \<open>create\<close> return the zone next to their
  error, for the audit entry: the error is a pair.
\<close>

definition prepare_zone :: "ext \<Rightarrow> subjects \<Rightarrow> create_input \<Rightarrow> string \<Rightarrow> string \<Rightarrow> zone" where
  "prepare_zone L s inp name i = \<lparr>z_ID = i, z_TenantID = s_TenantID s, z_Name = name, z_PDNSID = name,
     z_Kind = lower L (TrimSpace (ci_Kind inp)), z_Masters = [], z_DNSSEC = ci_DNSSEC inp,
     z_Description = TrimSpace (ci_Description inp), z_TemplateID = ci_TemplateID inp, z_Origin = OriginManual,
     z_Nameservers = [], z_CreatedBy = ActorID s, z_CreatedAt = 0, z_UpdatedAt = 0\<rparr>"

definition prepare_checks :: "ext \<Rightarrow> subjects \<Rightarrow> create_input \<Rightarrow> zone \<Rightarrow> (zone \<times> gerr) + zone" where
  "prepare_checks L s inp z0 =
     (case kindMasters (z_Kind z0) (ci_Masters inp) of Inl e \<Rightarrow> Inl (z0, e)
      | Inr ms \<Rightarrow> let z1 = z0\<lparr>z_Masters := ms\<rparr> in
        (case nameservers L (z_Kind z1) (ci_Nameservers inp) of Inl e \<Rightarrow> Inl (z1, e)
         | Inr ns \<Rightarrow> let z2 = z1\<lparr>z_Nameservers := ns\<rparr> in
           (case checkDescription (z_Description z2) of Some e \<Rightarrow> Inl (z2, e)
            | None \<Rightarrow>
                if ci_Origin inp = [] \<or> ci_Origin inp = OriginManual then Inr z2
                else if ci_Origin inp = OriginIPAM then
                  (if IsHuman s then Inl (z2, Sent zones_ErrInvalid) else Inr (z2\<lparr>z_Origin := OriginIPAM\<rparr>))
                else Inl (z2, Sent zones_ErrInvalid))))"

definition zones_prepare :: "'w deps \<Rightarrow> subjects \<Rightarrow> create_input \<Rightarrow> ('w, zone \<times> gerr, zone) eact" where
  "zones_prepare D s inp w = (case ZoneName (d_Ext D) (ci_Name inp) of Inl e \<Rightarrow> (Inl (empty_zone, e), w)
     | Inr name \<Rightarrow> (case d_NewID D w of (i, w') \<Rightarrow>
         (prepare_checks (d_Ext D) s inp (prepare_zone (d_Ext D) s inp name i), w')))"

text \<open>The initial record sets: the caller's and those of the template.\<close>

definition zones_initial :: "'w deps \<Rightarrow> zone \<Rightarrow> rrset list \<Rightarrow> ('w, rrset list) act" where
  "zones_initial D z rrsets =
     (if z_TemplateID z = [] then ret rrsets
      else if NeedsMasters (z_Kind z) then fail_with (Sent zones_ErrInvalidKind)
      else case d_Templates D of None \<Rightarrow> fail_with (Sent zones_ErrTemplateNotFound)
        | Some expand \<Rightarrow> and_then (expand (z_TenantID z) (z_TemplateID z) (z_Name z)) (\<lambda>tpl. ret (rrsets @ tpl)))"

definition last_index :: "('a \<Rightarrow> bool) \<Rightarrow> 'a list \<Rightarrow> nat option" where
  "last_index P xs = (case filter (\<lambda>i. P (xs ! i)) [0..<length xs] of [] \<Rightarrow> None | is \<Rightarrow> Some (last is))"

fun merge_ns_loop :: "string list \<Rightarrow> record_line list \<Rightarrow> string list \<Rightarrow> record_line list" where
  "merge_ns_loop seen recs [] = recs"
| "merge_ns_loop seen recs (n # ns) =
     (if n \<in> set seen then merge_ns_loop seen recs ns
      else merge_ns_loop (seen @ [n]) (recs @ [\<lparr>rec_Content = n, rec_Disabled = False\<rparr>]) ns)"

definition mergeApexNS :: "ext \<Rightarrow> string \<Rightarrow> rrset list \<Rightarrow> string list \<Rightarrow> rrset list \<times> string list" where
  "mergeApexNS L zn rrsets nss =
     (case last_index (\<lambda>r. rs_Name r = zn \<and> fold_eq L (rs_Type r) ''NS'') rrsets of None \<Rightarrow> (rrsets, nss)
      | Some idx \<Rightarrow>
          if nss = [] then (rrsets, nss)
          else let ns = rrsets ! idx;
              recs = merge_ns_loop (map (\<lambda>r. lower L (rec_Content r)) (rs_Records ns)) (rs_Records ns) nss
            in (rrsets[idx := ns\<lparr>rs_Records := recs\<rparr>], []))"

text \<open>The local insert after PowerDNS accepted the zone, with the compensating delete.\<close>

definition zones_commit :: "'w deps \<Rightarrow> zone \<Rightarrow> pzone \<Rightarrow> ('w, zone \<times> gerr, zone) eact" where
  "zones_commit D z created = reading (d_Now D) (\<lambda>now.
     let z' = (if pz_ID created \<noteq> [] then z\<lparr>z_PDNSID := pz_ID created\<rparr> else z)\<lparr>z_CreatedAt := now, z_UpdatedAt := now\<rparr>
     in on_result (r_CreateZone (d_Store D) z') (\<lambda>r. case r of
          Inr _ \<Rightarrow> ret z'
        | Inl e \<Rightarrow> on_result (p_DeleteZone (d_PDNS D) (z_PDNSID z')) (\<lambda>_.
            fail_with (z', if errIs e repo_ErrConflict then Sent zones_ErrDuplicate else e))))"

text \<open>Ownership: the name is free in the tenant, in every other tenant and on the server.\<close>

definition zones_ownership :: "'w deps \<Rightarrow> zone \<Rightarrow> ('w, unit) act" where
  "zones_ownership D z =
     on_result (r_GetZoneByName (d_Store D) (z_TenantID z) (z_Name z)) (\<lambda>r. case r of
       Inr _ \<Rightarrow> fail_with (Sent zones_ErrDuplicate)
     | Inl e \<Rightarrow> if \<not> errIs e repo_ErrNotFound then fail_with e
         else and_then (r_ZoneConflict (d_Store D) (z_TenantID z) (z_Name z)) (\<lambda>taken.
           if taken then fail_with (Sent zones_ErrDuplicate)
           else on_result (p_GetZone (d_PDNS D) (z_Name z)) (\<lambda>r. case r of
             Inr _ \<Rightarrow> fail_with (Sent zones_ErrDuplicate)
           | Inl e \<Rightarrow> if \<not> errIs e pdns_ErrNotFound then fail_with (mapPDNS e) else ret ())))"

definition zones_provision :: "'w deps \<Rightarrow> zone \<Rightarrow> rrset list \<Rightarrow> ('w, pzone) act" where
  "zones_provision D z rrsets = (case mergeApexNS (d_Ext D) (z_Name z) rrsets (z_Nameservers z) of (rs, ns) \<Rightarrow>
     on_result (p_CreateZone (d_PDNS D) \<lparr>pz_ID = [], pz_Name = z_Name z, pz_Kind = PDNSKind (z_Kind z), pz_Serial = 0,
         pz_NotifiedSerial = 0, pz_Masters = z_Masters z, pz_DNSSEC = z_DNSSEC z, pz_Nameservers = ns,
         pz_Account = z_TenantID z, pz_RRsets = rs\<rparr>) (\<lambda>r. case r of
       Inr created \<Rightarrow> ret created
     | Inl e \<Rightarrow> if errIs e pdns_ErrConflict then fail_with (Sent zones_ErrDuplicate) else fail_with (mapPDNS e)))"

definition zones_create :: "'w deps \<Rightarrow> subjects \<Rightarrow> create_input \<Rightarrow> ('w, zone \<times> gerr, zone) eact" where
  "zones_create D s inp = and_then (zones_prepare D s inp) (\<lambda>z.
     and_then (map_err (Pair z) (zones_initial D z (ci_RRsets inp))) (\<lambda>rrsets.
     and_then (map_err (Pair z) (zones_ownership D z)) (\<lambda>_.
     and_then (map_err (Pair z) (zones_provision D z rrsets)) (\<lambda>created.
     zones_commit D z created))))"

definition syncForward :: "'w deps \<Rightarrow> string \<Rightarrow> 'w \<Rightarrow> 'w" where
  "syncForward D name w = (case d_Recursor D of None \<Rightarrow> w | Some rc \<Rightarrow> snd (rc_SyncForward rc name w))"

definition removeForward :: "'w deps \<Rightarrow> string \<Rightarrow> 'w \<Rightarrow> 'w" where
  "removeForward D name w = (case d_Recursor D of None \<Rightarrow> w | Some rc \<Rightarrow> snd (rc_RemoveForward rc name w))"

definition zones_Create :: "'w deps \<Rightarrow> subjects \<Rightarrow> create_input \<Rightarrow> ('w, zone) act" where
  "zones_Create D s inp = check (zones_guard D s ZonesManage)
     (on_result (zones_create D s inp) (\<lambda>r. case r of
        Inl (z, e) \<Rightarrow> effect (zones_audit D s ZoneCreate (z_ID z) (z_Name z) (zones_outcomeOf e) (Some e)) (fail_with e)
      | Inr z \<Rightarrow> effect (\<lambda>w. syncForward D (z_Name z) (EmitZone (d_Events D) ev_ZoneCreated z (s_ActorKind s)
          (zones_audit D s ZoneCreate (z_ID z) (z_Name z) OutcomeOK None w))) (ret z)))"

section \<open>Reads\<close>

definition zones_owned :: "'w deps \<Rightarrow> subjects \<Rightarrow> string \<Rightarrow> ('w, zone) act" where
  "zones_owned D s i = on_result (r_GetZone (d_Store D) (s_TenantID s) i) (\<lambda>r. case r of
     Inr z \<Rightarrow> ret z
   | Inl e \<Rightarrow> if errIs e repo_ErrNotFound then fail_with (Sent zones_ErrNotFound) else fail_with e)"

definition zones_Owned :: "'w deps \<Rightarrow> subjects \<Rightarrow> string \<Rightarrow> ('w, zone) act" where
  "zones_Owned D s i = check (zones_guard D s ZonesRead) (zones_owned D s i)"

text \<open>A zone with its serials, absent when PowerDNS could not be read.\<close>

definition zones_Get :: "'w deps \<Rightarrow> subjects \<Rightarrow> string \<Rightarrow> ('w, zone \<times> (u32 \<times> u32) option) act" where
  "zones_Get D s i = and_then (zones_Owned D s i) (\<lambda>z.
     on_result (p_GetZone (d_PDNS D) (z_PDNSID z)) (\<lambda>r. case r of
       Inl _ \<Rightarrow> ret (z, None)
     | Inr pz \<Rightarrow> ret (z, Some (pz_Serial pz, pz_NotifiedSerial pz))))"

definition zones_List ::
  "'w deps \<Rightarrow> (string \<Rightarrow> zone_filter \<Rightarrow> 'q \<Rightarrow> ('w, zone list \<times> int \<times> 'q) act) \<Rightarrow>
   subjects \<Rightarrow> zone_filter \<Rightarrow> 'q \<Rightarrow> ('w, zone list \<times> int \<times> 'q) act" where
  "zones_List D ListZones s f req = check (zones_guard D s ZonesRead) (ListZones (s_TenantID s) f req)"

definition canonicalFQDN :: "ext \<Rightarrow> string \<Rightarrow> string option" where
  "canonicalFQDN L s = (let n = x_Fqdn L (lower L (TrimSpace s)) in
     if x_IsDomainName L n \<and> n \<noteq> ''.'' \<and> \<not> Contains n ''..'' then Some n else None)"

definition zones_ByName :: "'w deps \<Rightarrow> subjects \<Rightarrow> string \<Rightarrow> ('w, zone) act" where
  "zones_ByName D s name = check (zones_guard D s ZonesRead)
     (case canonicalFQDN (d_Ext D) name of None \<Rightarrow> fail_with (Sent zones_ErrNotFound)
      | Some n \<Rightarrow> on_result (r_GetZoneByName (d_Store D) (s_TenantID s) n) (\<lambda>r. case r of
          Inr z \<Rightarrow> ret z
        | Inl e \<Rightarrow> if errIs e repo_ErrNotFound then fail_with (Sent zones_ErrNotFound) else fail_with e))"

definition zones_FindForName :: "'w deps \<Rightarrow> subjects \<Rightarrow> string \<Rightarrow> ('w, zone) act" where
  "zones_FindForName D s fqdn = check (zones_guard D s ZonesRead)
     (case canonicalFQDN (d_Ext D) fqdn of None \<Rightarrow> fail_with (Sent zones_ErrNotFound)
      | Some n \<Rightarrow> and_then (r_ZonesForTenant (d_Store D) (s_TenantID s)) (\<lambda>all.
          case LongestZone all n of None \<Rightarrow> fail_with (Sent zones_ErrNotFound) | Some z \<Rightarrow> ret z))"

section \<open>Update\<close>

definition metadata :: "zone \<Rightarrow> pzone" where
  "metadata z = \<lparr>pz_ID = [], pz_Name = z_Name z, pz_Kind = PDNSKind (z_Kind z), pz_Serial = 0, pz_NotifiedSerial = 0,
     pz_Masters = z_Masters z, pz_DNSSEC = z_DNSSEC z, pz_Nameservers = [], pz_Account = z_TenantID z, pz_RRsets = []\<rparr>"

text \<open>The changed zone, or the refusal of the input.\<close>

definition zones_next :: "ext \<Rightarrow> zone \<Rightarrow> update_input \<Rightarrow> zone res" where
  "zones_next L prev inp =
     (let n0 = (case ui_Kind inp of None \<Rightarrow> prev | Some k \<Rightarrow> prev\<lparr>z_Kind := lower L (TrimSpace k)\<rparr>);
          masters = (case ui_Masters inp of Some ms \<Rightarrow> ms
            | None \<Rightarrow> if \<not> NeedsMasters (z_Kind n0) then [] else z_Masters prev)
      in case kindMasters (z_Kind n0) masters of Inl e \<Rightarrow> Inl e
         | Inr ms \<Rightarrow> let n1 = n0\<lparr>z_Masters := ms\<rparr>;
             n2 = (case ui_DNSSEC inp of None \<Rightarrow> n1 | Some b \<Rightarrow> n1\<lparr>z_DNSSEC := b\<rparr>)
           in case ui_Description inp of None \<Rightarrow> Inr n2
              | Some d \<Rightarrow> (case checkDescription (TrimSpace d) of Some e \<Rightarrow> Inl e
                  | None \<Rightarrow> Inr (n2\<lparr>z_Description := TrimSpace d\<rparr>)))"

definition metaChanged :: "zone \<Rightarrow> zone \<Rightarrow> bool" where
  "metaChanged prev next = (z_Kind next \<noteq> z_Kind prev \<or> z_DNSSEC next \<noteq> z_DNSSEC prev \<or> z_Masters next \<noteq> z_Masters prev)"

text \<open>The local write, with the restoring PUT when it fails.\<close>

definition zones_save :: "'w deps \<Rightarrow> zone \<Rightarrow> zone \<Rightarrow> ('w, zone) act" where
  "zones_save D prev next = reading (d_Now D) (\<lambda>now.
     on_result (r_UpdateZone (d_Store D) (next\<lparr>z_UpdatedAt := now\<rparr>)) (\<lambda>r. case r of
       Inr saved \<Rightarrow> ret saved
     | Inl e \<Rightarrow> if metaChanged prev next
         then on_result (p_UpdateZoneMetadata (d_PDNS D) (z_PDNSID prev) (metadata prev)) (\<lambda>_. fail_with e)
         else fail_with e))"

definition zones_update :: "'w deps \<Rightarrow> zone \<Rightarrow> update_input \<Rightarrow> ('w, zone) act" where
  "zones_update D prev inp = and_then (lift_res (zones_next (d_Ext D) prev inp)) (\<lambda>next.
     if metaChanged prev next
     then and_then (map_err mapPDNS (p_UpdateZoneMetadata (d_PDNS D) (z_PDNSID prev) (metadata next))) (\<lambda>_. zones_save D prev next)
     else zones_save D prev next)"

definition zones_Update :: "'w deps \<Rightarrow> subjects \<Rightarrow> string \<Rightarrow> update_input \<Rightarrow> ('w, zone) act" where
  "zones_Update D s i inp = check (zones_guard D s ZonesManage)
     (and_then (zones_owned D s i) (\<lambda>prev.
        on_result (zones_update D prev inp) (\<lambda>r. case r of
          Inl e \<Rightarrow> effect (zones_audit D s ZoneUpdate (z_ID prev) (z_Name prev) (zones_outcomeOf e) (Some e)) (fail_with e)
        | Inr next \<Rightarrow> effect (\<lambda>w. EmitZone (d_Events D) ev_ZoneUpdated next (s_ActorKind s)
            (zones_audit D s ZoneUpdate (z_ID next) (z_Name next) OutcomeOK None w)) (ret next))))"

section \<open>Delete, export, notify\<close>

definition zones_delete :: "'w deps \<Rightarrow> zone \<Rightarrow> ('w, unit) act" where
  "zones_delete D z = on_result (p_DeleteZone (d_PDNS D) (z_PDNSID z)) (\<lambda>r.
     let go = effect (removeForward D (z_Name z))
         (and_then (r_ClearSyncZone (d_Store D) (z_TenantID z) (z_ID z)) (\<lambda>_.
            r_DeleteZone (d_Store D) (z_TenantID z) (z_ID z)))
     in case r of Inr _ \<Rightarrow> go
        | Inl e \<Rightarrow> if errIs e pdns_ErrNotFound then go else fail_with (mapPDNS e))"

definition zones_Delete :: "'w deps \<Rightarrow> subjects \<Rightarrow> string \<Rightarrow> ('w, unit) act" where
  "zones_Delete D s i = check (zones_guard D s ZonesManage)
     (and_then (zones_owned D s i) (\<lambda>z.
        on_result (zones_delete D z) (\<lambda>r. case r of
          Inl e \<Rightarrow> effect (zones_audit D s ZoneDelete (z_ID z) (z_Name z) (zones_outcomeOf e) (Some e)) (fail_with e)
        | Inr _ \<Rightarrow> effect (\<lambda>w. EmitZone (d_Events D) ev_ZoneDeleted z (s_ActorKind s)
            (zones_audit D s ZoneDelete (z_ID z) (z_Name z) OutcomeOK None w)) (ret ()))))"

text \<open>The BIND text of a zone, with its name.\<close>

definition zones_Export :: "'w deps \<Rightarrow> subjects \<Rightarrow> string \<Rightarrow> ('w, string \<times> string) act" where
  "zones_Export D s i = check (zones_guard D s ZonesManage)
     (and_then (zones_owned D s i) (\<lambda>z.
        on_result (p_ExportZone (d_PDNS D) (z_PDNSID z)) (\<lambda>r0.
          let r = (case r0 of Inl e \<Rightarrow> Inl e
                | Inr text \<Rightarrow> if int (length text) > d_MaxExportBytes D then Inl (Sent zones_ErrExportTooLarge) else Inr text)
          in case r of
            Inl e \<Rightarrow> effect (zones_audit D s ZoneExport (z_ID z) (z_Name z) (zones_outcomeOf (mapPDNS e)) (Some (mapPDNS e)))
              (fail_with (mapPDNS e))
          | Inr text \<Rightarrow> effect (zones_audit D s ZoneExport (z_ID z) (z_Name z) OutcomeOK None) (ret (z_Name z, text)))))"

definition zones_Notify :: "'w deps \<Rightarrow> subjects \<Rightarrow> string \<Rightarrow> ('w, unit) act" where
  "zones_Notify D s i = check (zones_guard D s ZonesManage)
     (and_then (zones_owned D s i) (\<lambda>z.
        on_result (if z_Kind z \<noteq> KindMaster \<and> z_Kind z \<noteq> KindProducer then fail_with (Sent zones_ErrInvalidKind)
            else map_err mapPDNS (p_NotifyZone (d_PDNS D) (z_PDNSID z))) (\<lambda>r. case r of
          Inl e \<Rightarrow> effect (zones_audit D s ZoneNotify (z_ID z) (z_Name z) (zones_outcomeOf e) (Some e)) (fail_with e)
        | Inr _ \<Rightarrow> effect (zones_audit D s ZoneNotify (z_ID z) (z_Name z) OutcomeOK None) (ret ()))))"

end
