(* ===== verification/Pdns_Fake.thy ===== *)
theory Pdns_Fake
  imports Actions Pdns_Types Store_Models "HOL-Library.Product_Lexorder"
begin

text \<open>
  The in-memory PowerDNS server, \<^verbatim>\<open>internal/pdns/fake.go\<close>, an implementation of
  the client interface of \<^verbatim>\<open>internal/pdns/client.go\<close>: the call log, injected
  failures and the down state, zone creation with generated SOA and NS record
  sets, atomic patches and the export. The mutex makes each call one step.
\<close>

record fake =
  f_zones :: "pzone gomap"
  f_supermasters :: "psuper list"
  f_failNext :: "gerr option gomap"
  f_Down :: bool
  f_Calls :: "string list"

definition NewFake :: fake where
  "NewFake = \<lparr>f_zones = [], f_supermasters = [], f_failNext = [], f_Down = False, f_Calls = []\<rparr>"

definition fake_FailNext :: "string \<Rightarrow> gerr option \<Rightarrow> fake \<Rightarrow> fake" where
  "fake_FailNext op e f = f\<lparr>f_failNext := mput op e (f_failNext f)\<rparr>"

definition fake_SetDown :: "bool \<Rightarrow> fake \<Rightarrow> fake" where
  "fake_SetDown down f = f\<lparr>f_Down := down\<rparr>"

definition fake_begin :: "string \<Rightarrow> string \<Rightarrow> fake \<Rightarrow> gerr option \<times> fake" where
  "fake_begin op i f0 = (let f = f0\<lparr>f_Calls := f_Calls f0 @ [TrimSpace (op @ '' '' @ i)]\<rparr> in
     if f_Down f then (Some (Sent pdns_ErrUnavailable), f)
     else case mget (f_failNext f) op of
       Some e \<Rightarrow> (e, f\<lparr>f_failNext := mdel op (f_failNext f)\<rparr>)
     | None \<Rightarrow> (None, f))"

text \<open>The head of every call: the log and an injected failure, else the body.\<close>

definition fake_op :: "string \<Rightarrow> string \<Rightarrow> (fake, 'a) act \<Rightarrow> (fake, 'a) act" where
  "fake_op op i body f = (case fake_begin op i f of (Some e, f') \<Rightarrow> (Inl e, f') | (None, f') \<Rightarrow> body f')"

definition notFound :: gerr where "notFound = APIError 404 (Some pdns_ErrNotFound)"
definition unprocessable :: gerr where "unprocessable = APIError 422 None"
definition conflict :: gerr where "conflict = APIError 409 (Some pdns_ErrConflict)"

text \<open>Cloning copies slices into fresh nil ones: an empty comment list becomes nil.\<close>

definition cloneRRset :: "rrset \<Rightarrow> rrset" where
  "cloneRRset r = r\<lparr>rs_Comments := (case rs_Comments r of Some (c # cs) \<Rightarrow> Some (c # cs) | _ \<Rightarrow> None)\<rparr>"

definition cloneRRsets :: "rrset list \<Rightarrow> rrset list" where
  "cloneRRsets rs = map cloneRRset rs"

definition clonePZone :: "pzone \<Rightarrow> pzone" where
  "clonePZone z = z\<lparr>pz_RRsets := cloneRRsets (pz_RRsets z)\<rparr>"

definition fake_zone :: "fake \<Rightarrow> string \<Rightarrow> pzone res" where
  "fake_zone f i = (case mget (f_zones f) i of None \<Rightarrow> Inl notFound | Some z \<Rightarrow> Inr z)"

section \<open>Zones\<close>

definition fake_Ping :: "(fake, unit) act" where
  "fake_Ping = fake_op ''Ping'' '''' (ret ())"

definition fake_ListZoneNames :: "(fake, string list) act" where
  "fake_ListZoneNames = fake_op ''ListZoneNames'' '''' (\<lambda>f. (Inr (sort (map pz_Name (mvals (f_zones f)))), f))"

definition fake_GetZone :: "string \<Rightarrow> (fake, pzone) act" where
  "fake_GetZone i = fake_op ''GetZone'' i (\<lambda>f.
     case fake_zone f i of Inl e \<Rightarrow> (Inl e, f) | Inr z \<Rightarrow> (Inr (clonePZone z), f))"

definition same_set :: "rrset \<Rightarrow> string \<Rightarrow> string \<Rightarrow> bool" where
  "same_set s n t = (rs_Name s = n \<and> rs_Type s = t)"

fun replaceRRset :: "rrset list \<Rightarrow> rrset \<Rightarrow> rrset list" where
  "replaceRRset [] r = [cloneRRset r]"
| "replaceRRset (s # ss) r =
     (if same_set s (rs_Name r) (rs_Type r) then cloneRRset r # ss else s # replaceRRset ss r)"

definition plain_set :: "string \<Rightarrow> string \<Rightarrow> string list \<Rightarrow> rrset" where
  "plain_set n t contents = \<lparr>rs_Name = n, rs_Type = t, rs_TTL = 3600, rs_ChangeType = [],
     rs_Records = map (\<lambda>c. \<lparr>rec_Content = c, rec_Disabled = False\<rparr>) contents, rs_Comments = None\<rparr>"

definition soa_content :: "string \<Rightarrow> string list \<Rightarrow> string" where
  "soa_content name nss = (case nss of [] \<Rightarrow> ''a.misconfigured.dns.server.invalid.'' | n # _ \<Rightarrow> n) @
     '' hostmaster.'' @ name @ '' 1 10800 3600 604800 3600''"

text \<open>The loop over the initial record sets.\<close>

fun create_sets :: "pzone \<Rightarrow> rrset list \<Rightarrow> rrset list \<Rightarrow> rrset list res" where
  "create_sets inp sets [] = Inr sets"
| "create_sets inp sets (r # rs) =
     (if pz_Nameservers inp \<noteq> [] \<and> rs_Name r = pz_Name inp \<and> rs_Type r = ''NS'' then Inl unprocessable
      else if \<not> InZone (rs_Name r) (pz_Name inp) then Inl unprocessable
      else create_sets inp (replaceRRset sets (r\<lparr>rs_ChangeType := []\<rparr>)) rs)"

definition initial_sets :: "pzone \<Rightarrow> rrset list" where
  "initial_sets inp = [plain_set (pz_Name inp) ''SOA'' [soa_content (pz_Name inp) (pz_Nameservers inp)]] @
     (if pz_Nameservers inp \<noteq> [] then [plain_set (pz_Name inp) ''NS'' (pz_Nameservers inp)] else [])"

definition fake_CreateZone :: "pzone \<Rightarrow> (fake, pzone) act" where
  "fake_CreateZone inp = fake_op ''CreateZone'' (pz_Name inp) (\<lambda>f.
     if pz_Name inp = [] \<or> \<not> suffix ''.'' (pz_Name inp) then (Inl unprocessable, f)
     else if mget (f_zones f) (pz_Name inp) \<noteq> None then (Inl conflict, f)
     else case create_sets inp (initial_sets inp) (pz_RRsets inp) of Inl e \<Rightarrow> (Inl e, f)
       | Inr sets \<Rightarrow> let z = \<lparr>pz_ID = pz_Name inp, pz_Name = pz_Name inp,
             pz_Kind = (if pz_Kind inp = [] then ''Native'' else pz_Kind inp), pz_Serial = 1, pz_NotifiedSerial = 0,
             pz_Masters = pz_Masters inp, pz_DNSSEC = pz_DNSSEC inp, pz_Nameservers = pz_Nameservers inp,
             pz_Account = pz_Account inp, pz_RRsets = sets\<rparr>
           in (Inr (clonePZone z), f\<lparr>f_zones := mput (pz_ID z) z (f_zones f)\<rparr>))"

definition fake_UpdateZoneMetadata :: "string \<Rightarrow> pzone \<Rightarrow> (fake, unit) act" where
  "fake_UpdateZoneMetadata i inp = fake_op ''UpdateZoneMetadata'' i (\<lambda>f.
     case fake_zone f i of Inl e \<Rightarrow> (Inl e, f)
     | Inr z \<Rightarrow> (Inr (), f\<lparr>f_zones := mput i (z\<lparr>
         pz_Kind := (if pz_Kind inp \<noteq> [] then pz_Kind inp else pz_Kind z),
         pz_Masters := pz_Masters inp, pz_DNSSEC := pz_DNSSEC inp,
         pz_Account := (if pz_Account inp \<noteq> [] then pz_Account inp else pz_Account z)\<rparr>) (f_zones f)\<rparr>))"

definition fake_DeleteZone :: "string \<Rightarrow> (fake, unit) act" where
  "fake_DeleteZone i = fake_op ''DeleteZone'' i (\<lambda>f.
     case fake_zone f i of Inl e \<Rightarrow> (Inl e, f)
     | Inr _ \<Rightarrow> (Inr (), f\<lparr>f_zones := mdel i (f_zones f)\<rparr>))"

section \<open>Patches\<close>

definition patch_check :: "string \<Rightarrow> rrset \<Rightarrow> gerr option" where
  "patch_check zn r =
     (if \<not> InZone (rs_Name r) zn then Some unprocessable
      else if rs_ChangeType r \<noteq> ChangeReplace \<and> rs_ChangeType r \<noteq> ChangeDelete then Some unprocessable
      else if rs_Type r = ''SOA'' \<and> rs_ChangeType r = ChangeDelete then Some unprocessable
      else None)"

fun first_error :: "('a \<Rightarrow> gerr option) \<Rightarrow> 'a list \<Rightarrow> gerr option" where
  "first_error c [] = None"
| "first_error c (x # xs) = (case c x of Some e \<Rightarrow> Some e | None \<Rightarrow> first_error c xs)"

definition commentsOf :: "rrset list \<Rightarrow> string \<Rightarrow> string \<Rightarrow> comment list option" where
  "commentsOf sets n t = (case List.find (\<lambda>s. same_set s n t) sets of
     Some s \<Rightarrow> rs_Comments (cloneRRset s) | None \<Rightarrow> None)"

text \<open>
  One change of a patch. The kept sets are collected in place: \<open>kept\<close> is the slice
  \<^verbatim>\<open>sets[:0]\<close>, so after the loop the backing array that \<open>sets\<close> still names holds
  the kept sets followed by what the tail held before.
\<close>

definition patch_one :: "rrset list \<Rightarrow> rrset \<Rightarrow> rrset list" where
  "patch_one sets r =
     (let kept = filter (\<lambda>s. \<not> same_set s (rs_Name r) (rs_Type r)) sets;
          array = kept @ drop (length kept) sets;
          repl = (rs_ChangeType r = ChangeReplace \<and> rs_Records r \<noteq> []);
          r' = (if repl \<and> rs_Comments r = None
                then r\<lparr>rs_Comments := commentsOf array (rs_Name r) (rs_Type r)\<rparr> else r)
      in if repl then kept @ [cloneRRset (r'\<lparr>rs_ChangeType := []\<rparr>)] else kept)"

definition fake_PatchRRsets :: "string \<Rightarrow> rrset list \<Rightarrow> (fake, unit) act" where
  "fake_PatchRRsets i rrsets = fake_op ''PatchRRsets'' i (\<lambda>f.
     case fake_zone f i of Inl e \<Rightarrow> (Inl e, f)
     | Inr z \<Rightarrow> (case first_error (patch_check (pz_Name z)) rrsets of Some e \<Rightarrow> (Inl e, f)
       | None \<Rightarrow> (Inr (), f\<lparr>f_zones := mput i (z\<lparr>
           pz_RRsets := foldl patch_one (cloneRRsets (pz_RRsets z)) rrsets,
           pz_Serial := pz_Serial z + 1\<rparr>) (f_zones f)\<rparr>)))"

section \<open>Notify and export\<close>

definition fake_NotifyZone :: "unicode \<Rightarrow> string \<Rightarrow> (fake, unit) act" where
  "fake_NotifyZone u i = fake_op ''NotifyZone'' i (\<lambda>f.
     case fake_zone f i of Inl e \<Rightarrow> (Inl e, f)
     | Inr z \<Rightarrow> let k = ToLower u (pz_Kind z) in
         if k \<noteq> ''master'' \<and> k \<noteq> ''producer'' then (Inl unprocessable, f)
         else (Inr (), f\<lparr>f_zones := mput i (z\<lparr>pz_NotifiedSerial := pz_Serial z\<rparr>) (f_zones f)\<rparr>))"

definition export_line :: "rrset \<Rightarrow> record_line \<Rightarrow> string" where
  "export_line s r = rs_Name s @ [CHR 0x09] @ itoa_nat (unat (rs_TTL s)) @ [CHR 0x09] @ ''IN'' @ [CHR 0x09] @
     rs_Type s @ [CHR 0x09] @ rec_Content r @ [CHR 0x0A]"

definition export_order :: "rrset list \<Rightarrow> rrset list" where
  "export_order sets = sort_key (\<lambda>s. (rs_Type s \<noteq> ''SOA'', rs_Name s, rs_Type s)) sets"

definition fake_ExportZone :: "string \<Rightarrow> (fake, string) act" where
  "fake_ExportZone i = fake_op ''ExportZone'' i (\<lambda>f.
     case fake_zone f i of Inl e \<Rightarrow> (Inl e, f)
     | Inr z \<Rightarrow> (Inr (concat (map (\<lambda>s. concat (map (export_line s) (filter (\<lambda>r. \<not> rec_Disabled r) (rs_Records s))))
         (export_order (cloneRRsets (pz_RRsets z))))), f))"

section \<open>Supermasters and seeding\<close>

definition fake_ListSupermasters :: "(fake, psuper list) act" where
  "fake_ListSupermasters = fake_op ''ListSupermasters'' '''' (\<lambda>f. (Inr (f_supermasters f), f))"

definition fake_CreateSupermaster :: "psuper \<Rightarrow> (fake, unit) act" where
  "fake_CreateSupermaster s = fake_op ''CreateSupermaster'' (ps_IP s @ ''/'' @ ps_Nameserver s) (\<lambda>f.
     if list_ex (\<lambda>x. ps_IP x = ps_IP s \<and> ps_Nameserver x = ps_Nameserver s) (f_supermasters f)
     then (Inl conflict, f)
     else (Inr (), f\<lparr>f_supermasters := f_supermasters f @ [s]\<rparr>))"

fun remove_super :: "string \<Rightarrow> string \<Rightarrow> psuper list \<Rightarrow> psuper list option" where
  "remove_super ip ns [] = None"
| "remove_super ip ns (x # xs) =
     (if ps_IP x = ip \<and> ps_Nameserver x = ns then Some xs else map_option (Cons x) (remove_super ip ns xs))"

definition fake_DeleteSupermaster :: "string \<Rightarrow> string \<Rightarrow> (fake, unit) act" where
  "fake_DeleteSupermaster ip ns = fake_op ''DeleteSupermaster'' (ip @ ''/'' @ ns) (\<lambda>f.
     case remove_super ip ns (f_supermasters f) of None \<Rightarrow> (Inl notFound, f)
     | Some xs \<Rightarrow> (Inr (), f\<lparr>f_supermasters := xs\<rparr>))"

definition fake_Seed :: "pzone \<Rightarrow> fake \<Rightarrow> fake" where
  "fake_Seed z0 f = (let z = (if pz_ID z0 = [] then z0\<lparr>pz_ID := pz_Name z0\<rparr> else z0); c = clonePZone z
     in f\<lparr>f_zones := mput (pz_ID c) c (f_zones f)\<rparr>)"

section \<open>Record sets as a map\<close>

text \<open>
  The abstract content of a zone: from owner name and type to the TTL and the
  records. A change of a patch is an update of this map.
\<close>

type_synonym zone_content = "string \<times> string \<Rightarrow> (u32 \<times> record_line list) option"

definition lookup_set :: "rrset list \<Rightarrow> string \<Rightarrow> string \<Rightarrow> rrset option" where
  "lookup_set sets n t = List.find (\<lambda>s. same_set s n t) sets"

definition content_of :: "rrset list \<Rightarrow> zone_content" where
  "content_of sets = (\<lambda>(n, t). map_option (\<lambda>s. (rs_TTL s, rs_Records s)) (lookup_set sets n t))"

definition is_replace :: "rrset \<Rightarrow> bool" where
  "is_replace r = (rs_ChangeType r = ChangeReplace \<and> rs_Records r \<noteq> [])"

definition spec_change :: "zone_content \<Rightarrow> rrset \<Rightarrow> zone_content" where
  "spec_change m r = m((rs_Name r, rs_Type r) := (if is_replace r then Some (rs_TTL r, rs_Records r) else None))"

definition sets_ok :: "string \<Rightarrow> rrset list \<Rightarrow> bool" where
  "sets_ok zn sets = (distinct (map (\<lambda>s. (rs_Name s, rs_Type s)) sets) \<and> (\<forall>s \<in> set sets. InZone (rs_Name s) zn))"

lemma cloneRRset_simps [simp]: "rs_Name (cloneRRset r) = rs_Name r" "rs_Type (cloneRRset r) = rs_Type r"
  "rs_TTL (cloneRRset r) = rs_TTL r" "rs_Records (cloneRRset r) = rs_Records r"
  "rs_ChangeType (cloneRRset r) = rs_ChangeType r" "cloneRRset (cloneRRset r) = cloneRRset r"
  by (auto simp: cloneRRset_def split: option.splits list.splits)

lemma same_set_clone [simp]: "same_set (cloneRRset s) n t = same_set s n t"
  by (simp add: same_set_def)

lemma lookup_clone: "lookup_set (cloneRRsets sets) n t = map_option cloneRRset (lookup_set sets n t)"
  by (induction sets) (auto simp: lookup_set_def cloneRRsets_def)

lemma content_clone [simp]: "content_of (cloneRRsets sets) = content_of sets"
  by (rule ext) (auto simp: content_of_def lookup_clone option.map_comp comp_def split: prod.splits)

lemma find_filter_other:
  "\<not> (n = n' \<and> t = t') \<Longrightarrow> List.find (\<lambda>s. same_set s n t) (filter (\<lambda>s. \<not> same_set s n' t') sets) =
     List.find (\<lambda>s. same_set s n t) sets"
  by (induction sets) (auto simp: same_set_def)

lemma find_filter_same: "List.find (\<lambda>s. same_set s n t) (filter (\<lambda>s. \<not> same_set s n t) sets) = None"
  by (induction sets) auto

lemma find_append: "List.find P (xs @ ys) = (case List.find P xs of Some x \<Rightarrow> Some x | None \<Rightarrow> List.find P ys)"
  by (induction xs) auto

text \<open>The change of a set: the kept sets and, for a replacement, the new one.\<close>

lemma patch_one_eq:
  obtains q where "patch_one sets r = filter (\<lambda>s. \<not> same_set s (rs_Name r) (rs_Type r)) sets @
      (if is_replace r then [q] else [])"
    "rs_Name q = rs_Name r" "rs_Type q = rs_Type r" "rs_TTL q = rs_TTL r" "rs_Records q = rs_Records r"
proof (rule that)
  define kept where "kept = filter (\<lambda>s. \<not> same_set s (rs_Name r) (rs_Type r)) sets"
  define r' where "r' = (if is_replace r \<and> rs_Comments r = None
    then r\<lparr>rs_Comments := commentsOf (kept @ drop (length kept) sets) (rs_Name r) (rs_Type r)\<rparr> else r)"
  let ?q = "cloneRRset (r'\<lparr>rs_ChangeType := []\<rparr>)"
  show "patch_one sets r = filter (\<lambda>s. \<not> same_set s (rs_Name r) (rs_Type r)) sets @ (if is_replace r then [?q] else [])"
    unfolding patch_one_def is_replace_def [symmetric] Let_def r'_def kept_def by simp
qed (simp_all split: if_splits)

lemma content_patch_one: "content_of (patch_one sets r) = spec_change (content_of sets) r"
proof -
  obtain q where p: "patch_one sets r = filter (\<lambda>s. \<not> same_set s (rs_Name r) (rs_Type r)) sets @
      (if is_replace r then [q] else [])"
    and q: "rs_Name q = rs_Name r" "rs_Type q = rs_Type r" "rs_TTL q = rs_TTL r" "rs_Records q = rs_Records r"
    by (rule patch_one_eq)
  have same: "same_set q n t \<longleftrightarrow> n = rs_Name r \<and> t = rs_Type r" for n t by (auto simp: same_set_def q)
  have "content_of (patch_one sets r) (n, t) = spec_change (content_of sets) r (n, t)" for n t
  proof (cases "n = rs_Name r \<and> t = rs_Type r")
    case True
    then show ?thesis
      by (auto simp: p q content_of_def lookup_set_def spec_change_def find_append find_filter_same same)
  next
    case False
    then show ?thesis
      using find_filter_other [OF False, of sets]
      by (auto simp: p content_of_def lookup_set_def spec_change_def find_append same split: option.splits)
  qed
  then show ?thesis by auto
qed

lemma content_patch: "content_of (foldl patch_one sets rs) = foldl spec_change (content_of sets) rs"
  by (induction rs arbitrary: sets) (auto simp: content_patch_one)

lemma sets_ok_clone [simp]: "sets_ok zn (cloneRRsets sets) = sets_ok zn sets"
  by (simp add: sets_ok_def cloneRRsets_def comp_def)

lemma sets_ok_patch_one:
  assumes "sets_ok zn sets" "InZone (rs_Name r) zn"
  shows "sets_ok zn (patch_one sets r)"
proof -
  obtain q where p: "patch_one sets r = filter (\<lambda>s. \<not> same_set s (rs_Name r) (rs_Type r)) sets @
      (if is_replace r then [q] else [])"
    and q: "rs_Name q = rs_Name r" "rs_Type q = rs_Type r" "rs_TTL q = rs_TTL r" "rs_Records q = rs_Records r"
    by (rule patch_one_eq)
  show ?thesis using assms by (auto simp: p q sets_ok_def same_set_def distinct_map_filter)
qed

lemma sets_ok_patch:
  "sets_ok zn sets \<Longrightarrow> \<forall>r \<in> set rs. InZone (rs_Name r) zn \<Longrightarrow> sets_ok zn (foldl patch_one sets rs)"
  by (induction rs arbitrary: sets) (auto simp: sets_ok_patch_one)

lemma first_error_None: "first_error c xs = None \<longleftrightarrow> (\<forall>x \<in> set xs. c x = None)"
  by (induction xs) (auto split: option.splits)

lemma patch_check_None: "patch_check zn r = None \<Longrightarrow> InZone (rs_Name r) zn"
  by (auto simp: patch_check_def split: if_splits)

lemma set_replaceRRset: "set (replaceRRset sets r) \<subseteq> insert (cloneRRset r) (set sets)"
  by (induction sets) auto

lemma keys_replaceRRset:
  "map (\<lambda>s. (rs_Name s, rs_Type s)) (replaceRRset sets r) =
     (let ks = map (\<lambda>s. (rs_Name s, rs_Type s)) sets in
      if (rs_Name r, rs_Type r) \<in> set ks then ks else ks @ [(rs_Name r, rs_Type r)])"
  by (induction sets) (auto simp: Let_def same_set_def)

lemma sets_ok_replaceRRset:
  assumes "sets_ok zn sets" "InZone (rs_Name r) zn"
  shows "sets_ok zn (replaceRRset sets r)"
proof -
  have "distinct (map (\<lambda>s. (rs_Name s, rs_Type s)) (replaceRRset sets r))"
    using assms(1) unfolding keys_replaceRRset by (auto simp: Let_def sets_ok_def)
  then show ?thesis using assms set_replaceRRset [of sets r] by (fastforce simp: sets_ok_def)
qed

lemma sets_ok_create:
  "create_sets inp sets rs = Inr out \<Longrightarrow> sets_ok (pz_Name inp) sets \<Longrightarrow> sets_ok (pz_Name inp) out"
  by (induction inp sets rs rule: create_sets.induct) (auto simp: sets_ok_replaceRRset split: if_splits)

lemma sets_ok_initial: "sets_ok (pz_Name inp) (initial_sets inp)"
  by (simp add: sets_ok_def initial_sets_def plain_set_def)

section \<open>The server invariant\<close>

text \<open>
  Zones are stored under their id, and in every zone the record sets have pairwise
  different owner names and types and lie inside the zone.
\<close>

definition fake_ok :: "fake \<Rightarrow> bool" where
  "fake_ok f = (gmap (f_zones f) \<and> keyed pz_ID (f_zones f) \<and>
     (\<forall>z \<in> set (mvals (f_zones f)). sets_ok (pz_Name z) (pz_RRsets z)))"

lemma fake_beginE:
  assumes "fake_begin op i f = (e, f')"
  shows "f_zones f' = f_zones f" "f_supermasters f' = f_supermasters f" "f_Down f' = f_Down f"
    "f_Calls f' = f_Calls f @ [TrimSpace (op @ '' '' @ i)]"
  using assms by (auto simp: fake_begin_def Let_def split: if_splits option.splits)

lemma fake_opE:
  assumes "fake_op op i body f = (r, f')"
  obtains (failed) e where "r = Inl e" "f_zones f' = f_zones f" "f_supermasters f' = f_supermasters f"
  | (ran) f1 where "f_zones f1 = f_zones f" "f_supermasters f1 = f_supermasters f" "body f1 = (r, f')"
proof (cases "fake_begin op i f")
  case (Pair e f1)
  show ?thesis
  proof (cases e)
    case None
    then show ?thesis using assms Pair fake_beginE [OF Pair] ran by (simp add: fake_op_def)
  next
    case (Some x)
    then show ?thesis using assms Pair fake_beginE [OF Pair] failed [of x] by (simp add: fake_op_def)
  qed
qed

lemma fake_ok_cong: "f_zones f' = f_zones f \<Longrightarrow> fake_ok f' = fake_ok f"
  by (simp add: fake_ok_def)

lemma keeps_fake_op:
  assumes "\<And>f r f'. body f = (r, f') \<Longrightarrow> fake_ok f \<Longrightarrow> fake_ok f'"
  shows "keeps fake_ok (fake_op op i body)"
proof (rule keepsI)
  fix f r f' assume run: "fake_op op i body f = (r, f')" and ok: "fake_ok f"
  from run show "fake_ok f'"
  proof (cases rule: fake_opE)
    case (failed e)
    then show ?thesis using ok fake_ok_cong by blast
  next
    case (ran f1)
    then have "fake_ok f1" using ok fake_ok_cong by blast
    with ran(3) show ?thesis by (rule assms)
  qed
qed

lemma fake_ok_write:
  assumes "fake_ok f" "pz_ID z = i" "sets_ok (pz_Name z) (pz_RRsets z)"
  shows "fake_ok (f\<lparr>f_zones := mput i z (f_zones f)\<rparr>)"
  using assms mvals_mput_subset [of i z "f_zones f"] by (auto simp: fake_ok_def)

lemma fake_zone_ok: "fake_zone f i = Inr z \<Longrightarrow> fake_ok f \<Longrightarrow>
    mget (f_zones f) i = Some z \<and> pz_ID z = i \<and> sets_ok (pz_Name z) (pz_RRsets z)"
  by (auto simp: fake_zone_def fake_ok_def dest: keyed_mget mget_mvals split: option.splits)

lemma keeps_fake_CreateZone: "keeps fake_ok (fake_CreateZone inp)"
  unfolding fake_CreateZone_def
  by (rule keeps_fake_op) (auto simp: Let_def intro!: fake_ok_write dest: sets_ok_create [OF _ sets_ok_initial]
      split: if_splits sum.splits)

lemma keeps_fake_UpdateZoneMetadata: "keeps fake_ok (fake_UpdateZoneMetadata i inp)"
  unfolding fake_UpdateZoneMetadata_def
  by (rule keeps_fake_op) (auto intro!: fake_ok_write dest: fake_zone_ok split: sum.splits)

lemma keeps_fake_DeleteZone: "keeps fake_ok (fake_DeleteZone i)"
  unfolding fake_DeleteZone_def
  by (rule keeps_fake_op)
    (use mvals_mdel_subset in \<open>fastforce simp: fake_ok_def split: sum.splits\<close>)

lemma keeps_fake_PatchRRsets: "keeps fake_ok (fake_PatchRRsets i rs)"
  unfolding fake_PatchRRsets_def
proof (rule keeps_fake_op)
  fix f r f'
  assume run: "(case fake_zone f i of Inl e \<Rightarrow> (Inl e, f)
     | Inr z \<Rightarrow> (case first_error (patch_check (pz_Name z)) rs of Some e \<Rightarrow> (Inl e, f)
       | None \<Rightarrow> (Inr (), f\<lparr>f_zones := mput i (z\<lparr>
           pz_RRsets := foldl patch_one (cloneRRsets (pz_RRsets z)) rs,
           pz_Serial := pz_Serial z + 1\<rparr>) (f_zones f)\<rparr>))) = (r, f')" and ok: "fake_ok f"
  show "fake_ok f'"
  proof (cases "fake_zone f i")
    case (Inr z)
    have z: "pz_ID z = i" "sets_ok (pz_Name z) (pz_RRsets z)" using fake_zone_ok [OF Inr ok] by auto
    show ?thesis
    proof (cases "first_error (patch_check (pz_Name z)) rs")
      case None
      then have "\<forall>r \<in> set rs. InZone (rs_Name r) (pz_Name z)"
        using patch_check_None by (auto simp: first_error_None)
      then have "sets_ok (pz_Name z) (foldl patch_one (cloneRRsets (pz_RRsets z)) rs)"
        using z(2) by (intro sets_ok_patch) simp_all
      then show ?thesis using run Inr None z(1) fake_ok_write [OF ok, of _ i] by auto
    qed (use run Inr ok in auto)
  qed (use run ok in auto)
qed

lemma keeps_fake_NotifyZone: "keeps fake_ok (fake_NotifyZone u i)"
  unfolding fake_NotifyZone_def
  by (rule keeps_fake_op) (auto simp: Let_def intro!: fake_ok_write dest: fake_zone_ok split: sum.splits if_splits)

lemma keeps_fake_rest:
  "keeps fake_ok fake_Ping" "keeps fake_ok fake_ListZoneNames" "keeps fake_ok (fake_GetZone i)"
  "keeps fake_ok (fake_ExportZone i)" "keeps fake_ok fake_ListSupermasters"
  "keeps fake_ok (fake_CreateSupermaster s)" "keeps fake_ok (fake_DeleteSupermaster ip ns)"
  unfolding fake_Ping_def fake_ListZoneNames_def fake_GetZone_def fake_ExportZone_def fake_ListSupermasters_def
    fake_CreateSupermaster_def fake_DeleteSupermaster_def
  by (rule keeps_fake_op; auto simp: fake_ok_def split: sum.splits option.splits if_splits)+

lemmas keeps_fake = keeps_fake_CreateZone keeps_fake_UpdateZoneMetadata keeps_fake_DeleteZone keeps_fake_PatchRRsets
  keeps_fake_NotifyZone keeps_fake_rest

section \<open>Properties\<close>

text \<open>
  C4: a patch is atomic and does what PowerDNS documents. If it is refused, no zone
  changes. If it is applied, the content of the zone is the old content with the
  changes applied in order (REPLACE sets exactly the given records, REPLACE with
  no records and DELETE remove the set), the serial grows by one modulo 2^32, and
  no other zone changes.
\<close>

theorem PatchRRsets_refines:
  assumes "fake_PatchRRsets i rs f = (r, f')"
  shows "case r of
      Inl e \<Rightarrow> f_zones f' = f_zones f
    | Inr _ \<Rightarrow> (\<exists>z z'. mget (f_zones f) i = Some z \<and> f_zones f' = mput i z' (f_zones f) \<and>
        content_of (pz_RRsets z') = foldl spec_change (content_of (pz_RRsets z)) rs \<and>
        pz_Serial z' = pz_Serial z + 1 \<and> pz_Name z' = pz_Name z)"
  using assms unfolding fake_PatchRRsets_def
proof (cases rule: fake_opE)
  case (ran f1)
  show ?thesis
  proof (cases "fake_zone f1 i")
    case (Inr z)
    then have z: "mget (f_zones f) i = Some z" using ran(1) by (auto simp: fake_zone_def split: option.splits)
    show ?thesis
    proof (cases "first_error (patch_check (pz_Name z)) rs")
      case None
      let ?z' = "z\<lparr>pz_RRsets := foldl patch_one (cloneRRsets (pz_RRsets z)) rs, pz_Serial := pz_Serial z + 1\<rparr>"
      have "r = Inr ()" "f_zones f' = mput i ?z' (f_zones f)" using ran Inr None by auto
      moreover have "content_of (pz_RRsets ?z') = foldl spec_change (content_of (pz_RRsets z)) rs"
        by (simp add: content_patch)
      ultimately show ?thesis using z by auto
    qed (use ran Inr in auto)
  qed (use ran in auto)
qed auto

theorem PatchRRsets_refines_witness:
  "\<exists>f' z'. fake_PatchRRsets ''a.'' [\<lparr>rs_Name = ''w.a.'', rs_Type = ''A'', rs_TTL = 60, rs_ChangeType = ChangeReplace,
      rs_Records = [\<lparr>rec_Content = ''192.0.2.1'', rec_Disabled = False\<rparr>], rs_Comments = None\<rparr>]
      (fake_Seed \<lparr>pz_ID = '''', pz_Name = ''a.'', pz_Kind = ''Native'', pz_Serial = 7, pz_NotifiedSerial = 0, pz_Masters = [],
         pz_DNSSEC = False, pz_Nameservers = [], pz_Account = '''', pz_RRsets = []\<rparr> NewFake) = (Inr (), f') \<and>
    mget (f_zones f') ''a.'' = Some z' \<and> pz_Serial z' = 8 \<and>
    content_of (pz_RRsets z') (''w.a.'', ''A'') = Some (60, [\<lparr>rec_Content = ''192.0.2.1'', rec_Disabled = False\<rparr>])"
proof -
  define r where "r = \<lparr>rs_Name = ''w.a.'', rs_Type = ''A'', rs_TTL = 60, rs_ChangeType = ChangeReplace,
      rs_Records = [\<lparr>rec_Content = ''192.0.2.1'', rec_Disabled = False\<rparr>], rs_Comments = None\<rparr>"
  define z where "z = \<lparr>pz_ID = ''a.'', pz_Name = ''a.'', pz_Kind = ''Native'', pz_Serial = 7, pz_NotifiedSerial = 0, pz_Masters = [],
         pz_DNSSEC = False, pz_Nameservers = [], pz_Account = '''', pz_RRsets = []\<rparr>"
  define f where "f = fake_Seed \<lparr>pz_ID = '''', pz_Name = ''a.'', pz_Kind = ''Native'', pz_Serial = 7, pz_NotifiedSerial = 0, pz_Masters = [],
         pz_DNSSEC = False, pz_Nameservers = [], pz_Account = '''', pz_RRsets = []\<rparr> NewFake"
  have f: "f_zones f = [(''a.'', z)]"
    by (simp add: f_def z_def fake_Seed_def NewFake_def clonePZone_def cloneRRsets_def)
  have "fst (fake_PatchRRsets ''a.'' [r] f) = Inr ()" unfolding r_def f_def by code_simp
  then obtain f' where run: "fake_PatchRRsets ''a.'' [r] f = (Inr (), f')" by (metis prod.collapse)
  obtain z' where "f_zones f' = mput ''a.'' z' (f_zones f)" "pz_Serial z' = pz_Serial z + 1"
    "content_of (pz_RRsets z') = foldl spec_change (content_of (pz_RRsets z)) [r]"
    using PatchRRsets_refines [OF run] by (auto simp: f)
  then show ?thesis
    using run unfolding f_def r_def [symmetric]
    by (intro exI [of _ f'] exI [of _ z']) (simp add: z_def spec_change_def is_replace_def, simp add: r_def)
qed

text \<open>
  Replacing a record set without naming comments keeps the set's comments only
  if the set is the last one of the zone. With another set after it the comments
  are lost: the kept sets are collected in place and overwrite the entry before
  its comments are read.
\<close>

lemma patch_comments_depend_on_position:
  assumes "same_set a (rs_Name r) (rs_Type r)" and "\<not> same_set b (rs_Name r) (rs_Type r)"
    and "rs_ChangeType r = ChangeReplace" and "rs_Records r \<noteq> []" and "rs_Comments r = None"
    and "rs_Comments a = Some (c # cs)"
  shows "rs_Comments (last (patch_one [b, a] r)) = Some (c # cs) \<and> rs_Comments (last (patch_one [a, b] r)) = None"
  using assms by (simp add: patch_one_def Let_def commentsOf_def cloneRRset_def)

lemma patch_comments_depend_on_position_witness:
  "\<exists>a b r. rs_Comments a = Some [\<lparr>com_Content = ''rack 3'', com_Account = '''', com_ModifiedAt = 0\<rparr>] \<and>
     rs_Comments r = None \<and> rs_Comments (last (patch_one [a, b] r)) = None"
proof -
  define com where "com = \<lparr>com_Content = ''rack 3'', com_Account = '''', com_ModifiedAt = 0\<rparr>"
  define a where "a = (plain_set ''w.a.'' ''A'' [''192.0.2.1''])\<lparr>rs_Comments := Some [com]\<rparr>"
  define b where "b = plain_set ''a.'' ''NS'' [''ns.a.'']"
  define r where "r = (plain_set ''w.a.'' ''A'' [''192.0.2.2''])\<lparr>rs_ChangeType := ChangeReplace\<rparr>"
  have "rs_Comments (last (patch_one [a, b] r)) = None"
    using patch_comments_depend_on_position [of a r b com "[]"]
    by (simp add: a_def b_def r_def plain_set_def same_set_def)
  then show ?thesis by (intro exI [of _ a] exI [of _ b] exI [of _ r]) (simp add: a_def r_def plain_set_def com_def)
qed

end
