(* ===== verification/Memstore.thy ===== *)
theory Memstore
  imports Actions Store_Models Go_Netip "HOL-Library.Product_Lexorder"
begin

text \<open>
  The in-memory repository, \<^verbatim>\<open>internal/memstore/memstore.go\<close>, an implementation
  of the storage contract \<^verbatim>\<open>internal/repo/repo.go\<close>: every operation with its
  injected failure, the unique guards and the cascades. The mutex makes each
  operation one step. Page windows and sort requests belong to the platform's
  \<^verbatim>\<open>listquery\<close> package and are arguments of the listing operations.
\<close>

record mem =
  m_zones :: "zone gomap"
  m_templates :: "template gomap"
  m_supermasters :: "supermaster gomap"
  m_config :: "server_config option"
  m_sync :: "ipam_sync gomap"
  m_challenges :: "challenge gomap"
  m_audit :: "audit_row list"
  m_failNext :: "bool gomap"
  m_Now :: time

definition mem_New :: "time \<Rightarrow> mem" where
  "mem_New now = \<lparr>m_zones = [], m_templates = [], m_supermasters = [], m_config = None, m_sync = [],
     m_challenges = [], m_audit = [], m_failNext = [], m_Now = now\<rparr>"

definition mem_FailNext :: "string \<Rightarrow> mem \<Rightarrow> mem" where
  "mem_FailNext meth m = m\<lparr>m_failNext := mput meth True (m_failNext m)\<rparr>"

definition mem_fail :: "string \<Rightarrow> mem \<Rightarrow> gerr option \<times> mem" where
  "mem_fail meth m =
     (if mget (m_failNext m) meth = Some True
      then (Some (Opaque (''memstore: injected failure in '' @ meth)), m\<lparr>m_failNext := mdel meth (m_failNext m)\<rparr>)
      else (None, m))"

text \<open>The head of every operation: the injected failure, else the body.\<close>

definition mem_op :: "string \<Rightarrow> (mem, 'a) act \<Rightarrow> (mem, 'a) act" where
  "mem_op meth body m = (case mem_fail meth m of (Some e, m') \<Rightarrow> (Inl e, m') | (None, m') \<Rightarrow> body m')"

definition orNow :: "time \<Rightarrow> time \<Rightarrow> time" where
  "orNow t now = (if t = 0 then now else t)"

section \<open>Zones\<close>

definition zone_defaults :: "time \<Rightarrow> zone \<Rightarrow> zone" where
  "zone_defaults now z = (let c = orNow (z_CreatedAt z) now in
     z\<lparr>z_CreatedAt := c, z_UpdatedAt := orNow (z_UpdatedAt z) c,
       z_Kind := (if z_Kind z = [] then KindNative else z_Kind z),
       z_Origin := (if z_Origin z = [] then OriginManual else z_Origin z)\<rparr>)"

definition mem_CreateZone :: "zone \<Rightarrow> (mem, unit) act" where
  "mem_CreateZone z = mem_op ''CreateZone'' (\<lambda>m.
     if mget (m_zones m) (z_ID z) \<noteq> None then (Inl (Sent repo_ErrConflict), m)
     else if list_ex (\<lambda>x. z_Name x = z_Name z \<or> z_PDNSID x = z_PDNSID z) (mvals (m_zones m))
     then (Inl (Sent repo_ErrConflict), m)
     else (Inr (), m\<lparr>m_zones := mput (z_ID z) (zone_defaults (m_Now m) z) (m_zones m)\<rparr>))"

definition mem_zone :: "mem \<Rightarrow> string \<Rightarrow> string \<Rightarrow> zone res" where
  "mem_zone m t i = (case mget (m_zones m) i of
     Some z \<Rightarrow> if z_TenantID z \<noteq> t then Inl (Sent repo_ErrNotFound) else Inr z
   | None \<Rightarrow> Inl (Sent repo_ErrNotFound))"

definition mem_GetZone :: "string \<Rightarrow> string \<Rightarrow> (mem, zone) act" where
  "mem_GetZone t i = mem_op ''GetZone'' (\<lambda>m. (mem_zone m t i, m))"

definition mem_GetZoneByName :: "string \<Rightarrow> string \<Rightarrow> (mem, zone) act" where
  "mem_GetZoneByName t name = mem_op ''GetZoneByName'' (\<lambda>m.
     case List.find (\<lambda>z. z_TenantID z = t \<and> z_Name z = name) (mvals (m_zones m)) of
       Some z \<Rightarrow> (Inr z, m) | None \<Rightarrow> (Inl (Sent repo_ErrNotFound), m))"

definition tenantZones :: "mem \<Rightarrow> string \<Rightarrow> zone list" where
  "tenantZones m t = sort_key z_Name (filter (\<lambda>z. z_TenantID z = t) (mvals (m_zones m)))"

definition zoneKey :: "zone \<Rightarrow> string \<Rightarrow> sort_value" where
  "zoneKey z field = (if field = ''kind'' then KeyStr (z_Kind z)
     else if field = ''updated_at'' then KeyTime (z_UpdatedAt z) else KeyStr (z_Name z))"

definition mem_ListZones ::
  "('q \<Rightarrow> (zone \<Rightarrow> string \<Rightarrow> sort_value) \<Rightarrow> (zone \<Rightarrow> string) \<Rightarrow> zone list \<Rightarrow> zone list) \<Rightarrow>
   (zone list \<Rightarrow> 'q \<Rightarrow> zone list \<times> int \<times> 'q) \<Rightarrow> unicode \<Rightarrow>
   string \<Rightarrow> zone_filter \<Rightarrow> 'q \<Rightarrow> (mem, zone list \<times> int \<times> 'q) act" where
  "mem_ListZones SortSlice Window u t f req = mem_op ''ListZones'' (\<lambda>m.
     let matched = filter (\<lambda>z. Matches u f z) (tenantZones m t)
     in (Inr (Window (SortSlice req zoneKey z_ID matched) req), m))"

definition mem_UpdateZone :: "zone \<Rightarrow> (mem, zone) act" where
  "mem_UpdateZone z = mem_op ''UpdateZone'' (\<lambda>m.
     case mem_zone m (z_TenantID z) (z_ID z) of Inl e \<Rightarrow> (Inl e, m)
     | Inr c \<Rightarrow> let cur = c\<lparr>z_Kind := z_Kind z, z_Masters := z_Masters z, z_DNSSEC := z_DNSSEC z,
           z_Description := z_Description z, z_UpdatedAt := orNow (z_UpdatedAt z) (m_Now m)\<rparr>
         in (Inr cur, m\<lparr>m_zones := mput (z_ID cur) cur (m_zones m)\<rparr>))"

definition mem_DeleteZone :: "string \<Rightarrow> string \<Rightarrow> (mem, unit) act" where
  "mem_DeleteZone t i = mem_op ''DeleteZone'' (\<lambda>m.
     case mem_zone m t i of Inl e \<Rightarrow> (Inl e, m)
     | Inr _ \<Rightarrow> (Inr (), m\<lparr>m_zones := mdel i (m_zones m),
         m_challenges := filter (\<lambda>(k, c). \<not> (c_TenantID c = t \<and> c_ZoneID c = i)) (m_challenges m)\<rparr>))"

definition Overlaps :: "string \<Rightarrow> string \<Rightarrow> bool" where
  "Overlaps a b = (a = b \<or> suffix (''.'' @ b) a \<or> suffix (''.'' @ a) b)"

definition mem_ZoneConflict :: "unicode \<Rightarrow> string \<Rightarrow> string \<Rightarrow> (mem, bool) act" where
  "mem_ZoneConflict u t name = mem_op ''ZoneConflict'' (\<lambda>m.
     (Inr (list_ex (\<lambda>z. z_TenantID z \<noteq> t \<and> Overlaps (ToLower u name) (z_Name z)) (mvals (m_zones m))), m))"

definition mem_AllZoneNames :: "(mem, string list) act" where
  "mem_AllZoneNames = mem_op ''AllZoneNames'' (\<lambda>m. (Inr (sort (map z_Name (mvals (m_zones m)))), m))"

definition mem_ZonesForTenant :: "string \<Rightarrow> (mem, zone list) act" where
  "mem_ZonesForTenant t = mem_op ''ZonesForTenant'' (\<lambda>m. (Inr (tenantZones m t), m))"

section \<open>Templates\<close>

definition templateNameTaken :: "unicode \<Rightarrow> mem \<Rightarrow> template \<Rightarrow> bool" where
  "templateNameTaken u m t = list_ex (\<lambda>x. t_TenantID x = t_TenantID t \<and> t_ID x \<noteq> t_ID t \<and>
     EqualFold u (t_Name x) (t_Name t)) (mvals (m_templates m))"

definition mem_CreateTemplate :: "unicode \<Rightarrow> template \<Rightarrow> (mem, unit) act" where
  "mem_CreateTemplate u t = mem_op ''CreateTemplate'' (\<lambda>m.
     if mget (m_templates m) (t_ID t) \<noteq> None \<or> templateNameTaken u m t then (Inl (Sent repo_ErrConflict), m)
     else let c = orNow (t_CreatedAt t) (m_Now m)
       in (Inr (), m\<lparr>m_templates :=
         mput (t_ID t) (t\<lparr>t_CreatedAt := c, t_UpdatedAt := orNow (t_UpdatedAt t) c\<rparr>) (m_templates m)\<rparr>))"

definition mem_template :: "mem \<Rightarrow> string \<Rightarrow> string \<Rightarrow> template res" where
  "mem_template m tn i = (case mget (m_templates m) i of
     Some t \<Rightarrow> if t_TenantID t \<noteq> tn then Inl (Sent repo_ErrNotFound) else Inr t
   | None \<Rightarrow> Inl (Sent repo_ErrNotFound))"

definition mem_GetTemplate :: "string \<Rightarrow> string \<Rightarrow> (mem, template) act" where
  "mem_GetTemplate t i = mem_op ''GetTemplate'' (\<lambda>m. (mem_template m t i, m))"

definition tenantTemplates :: "unicode \<Rightarrow> mem \<Rightarrow> string \<Rightarrow> template list" where
  "tenantTemplates u m tn = sort_key (\<lambda>t. (ToLower u (t_Name t), t_ID t))
     (filter (\<lambda>t. t_TenantID t = tn) (mvals (m_templates m)))"

definition mem_ListTemplates ::
  "('q \<Rightarrow> (template \<Rightarrow> string \<Rightarrow> sort_value) \<Rightarrow> (template \<Rightarrow> string) \<Rightarrow> template list \<Rightarrow> template list) \<Rightarrow>
   (template list \<Rightarrow> 'q \<Rightarrow> template list \<times> int \<times> 'q) \<Rightarrow> unicode \<Rightarrow>
   string \<Rightarrow> 'q \<Rightarrow> (mem, template list \<times> int \<times> 'q) act" where
  "mem_ListTemplates SortSlice Window u tn req = mem_op ''ListTemplates'' (\<lambda>m.
     (Inr (Window (SortSlice req (\<lambda>t _. KeyStr (t_Name t)) t_ID (tenantTemplates u m tn)) req), m))"

definition mem_UpdateTemplate :: "unicode \<Rightarrow> template \<Rightarrow> (mem, template) act" where
  "mem_UpdateTemplate u t = mem_op ''UpdateTemplate'' (\<lambda>m.
     case mem_template m (t_TenantID t) (t_ID t) of Inl e \<Rightarrow> (Inl e, m)
     | Inr c \<Rightarrow>
         if templateNameTaken u m t then (Inl (Sent repo_ErrConflict), m)
         else let cur = c\<lparr>t_Name := t_Name t, t_Description := t_Description t, t_Records := t_Records t,
             t_UpdatedAt := orNow (t_UpdatedAt t) (m_Now m)\<rparr>
           in (Inr cur, m\<lparr>m_templates := mput (t_ID cur) cur (m_templates m)\<rparr>))"

definition mem_DeleteTemplate :: "string \<Rightarrow> string \<Rightarrow> (mem, unit) act" where
  "mem_DeleteTemplate tn i = mem_op ''DeleteTemplate'' (\<lambda>m.
     case mem_template m tn i of Inl e \<Rightarrow> (Inl e, m)
     | Inr _ \<Rightarrow> (Inr (), m\<lparr>m_templates := mdel i (m_templates m)\<rparr>))"

section \<open>Supermasters\<close>

definition canonIP :: "string \<Rightarrow> string" where
  "canonIP s = (case ParseAddr s of None \<Rightarrow> [] | Some a \<Rightarrow> addr_String (Unmap a))"

definition mem_CreateSupermaster :: "supermaster \<Rightarrow> (mem, unit) act" where
  "mem_CreateSupermaster s = mem_op ''CreateSupermaster'' (\<lambda>m. let ip = canonIP (sm_IP s) in
     if ip = [] then (Inl (Sent repo_ErrConflict), m)
     else if mget (m_supermasters m) (sm_ID s) \<noteq> None then (Inl (Sent repo_ErrConflict), m)
     else if list_ex (\<lambda>x. sm_IP x = ip \<and> sm_Nameserver x = sm_Nameserver s) (mvals (m_supermasters m))
     then (Inl (Sent repo_ErrConflict), m)
     else (Inr (), m\<lparr>m_supermasters := mput (sm_ID s)
       (s\<lparr>sm_IP := ip, sm_CreatedAt := orNow (sm_CreatedAt s) (m_Now m)\<rparr>) (m_supermasters m)\<rparr>))"

definition mem_supermaster :: "mem \<Rightarrow> string \<Rightarrow> string \<Rightarrow> supermaster res" where
  "mem_supermaster m t i = (case mget (m_supermasters m) i of
     Some s \<Rightarrow> if sm_TenantID s \<noteq> t then Inl (Sent repo_ErrNotFound) else Inr s
   | None \<Rightarrow> Inl (Sent repo_ErrNotFound))"

definition mem_GetSupermaster :: "string \<Rightarrow> string \<Rightarrow> (mem, supermaster) act" where
  "mem_GetSupermaster t i = mem_op ''GetSupermaster'' (\<lambda>m. (mem_supermaster m t i, m))"

text \<open>
  \<open>Addr.Compare\<close> orders by bit length, then by value, then by zone. The sort calls
  \<open>MustParseAddr\<close> on both sides of every comparison: with two or more rows, a row
  whose address does not parse is a panic (\<open>None\<close>).
\<close>

fun addr_key :: "addr \<Rightarrow> nat \<times> nat list \<times> string" where
  "addr_key NoAddr = (0, [], [])"
| "addr_key (V4 a b c d) = (32, [unat a, unat b, unat c, unat d], [])"
| "addr_key (V6 g z) = (128, map unat g, z)"

definition tenantSupermasters :: "mem \<Rightarrow> string \<Rightarrow> supermaster list option" where
  "tenantSupermasters m t = (let out = filter (\<lambda>s. sm_TenantID s = t) (mvals (m_supermasters m)) in
     if length out \<ge> 2 \<and> list_ex (\<lambda>s. ParseAddr (sm_IP s) = None) out then None
     else Some (sort_key (\<lambda>s. (addr_key (the (ParseAddr (sm_IP s))), sm_Nameserver s)) out))"

definition hex2 :: "nat \<Rightarrow> string" where
  "hex2 n = [hex_digit (n div 16), hex_digit (n mod 16)]"

definition supermasterKey :: "supermaster \<Rightarrow> string \<Rightarrow> sort_value" where
  "supermasterKey s field = (if field = ''nameserver'' then KeyStr (sm_Nameserver s)
     else case ParseAddr (sm_IP s) of None \<Rightarrow> KeyNil
       | Some a \<Rightarrow> KeyStr ((if Is4 a then ''4'' else ''6'') @ concat (map (\<lambda>b. hex2 (unat b)) (As16 a))))"

definition mem_ListSupermasters ::
  "('q \<Rightarrow> (supermaster \<Rightarrow> string \<Rightarrow> sort_value) \<Rightarrow> (supermaster \<Rightarrow> string) \<Rightarrow> supermaster list \<Rightarrow> supermaster list) \<Rightarrow>
   (supermaster list \<Rightarrow> 'q \<Rightarrow> supermaster list \<times> int \<times> 'q) \<Rightarrow>
   string \<Rightarrow> 'q \<Rightarrow> (mem, (supermaster list \<times> int \<times> 'q) option) act" where
  "mem_ListSupermasters SortSlice Window t req = mem_op ''ListSupermasters'' (\<lambda>m.
     (Inr (map_option (\<lambda>all. Window (SortSlice req supermasterKey sm_ID all) req) (tenantSupermasters m t)), m))"

definition mem_DeleteSupermaster :: "string \<Rightarrow> string \<Rightarrow> (mem, unit) act" where
  "mem_DeleteSupermaster t i = mem_op ''DeleteSupermaster'' (\<lambda>m.
     case mem_supermaster m t i of Inl e \<Rightarrow> (Inl e, m)
     | Inr _ \<Rightarrow> (Inr (), m\<lparr>m_supermasters := mdel i (m_supermasters m)\<rparr>))"

section \<open>Server configuration\<close>

definition jsonOr :: "string \<Rightarrow> string" where
  "jsonOr raw = (if raw = [] then ''{}'' else raw)"

definition mem_GetServerConfig :: "(mem, server_config) act" where
  "mem_GetServerConfig = mem_op ''GetServerConfig'' (\<lambda>m. case m_config m of
     None \<Rightarrow> (Inl (Sent repo_ErrNotFound), m)
   | Some c \<Rightarrow> (Inr (c\<lparr>sc_Recursor := jsonOr (sc_Recursor c), sc_Authoritative := jsonOr (sc_Authoritative c)\<rparr>), m))"

definition mem_SaveServerConfig :: "server_config \<Rightarrow> (mem, unit) act" where
  "mem_SaveServerConfig c = mem_op ''SaveServerConfig'' (\<lambda>m.
     let next = \<lparr>sc_Recursor = jsonOr (sc_Recursor c), sc_Authoritative = jsonOr (sc_Authoritative c),
           sc_RecursorHash = (case m_config m of None \<Rightarrow> [] | Some p \<Rightarrow> sc_RecursorHash p),
           sc_AuthHash = (case m_config m of None \<Rightarrow> [] | Some p \<Rightarrow> sc_AuthHash p),
           sc_UpdatedBy = sc_UpdatedBy c, sc_UpdatedAt = orNow (sc_UpdatedAt c) (m_Now m)\<rparr>
     in (Inr (), m\<lparr>m_config := Some next\<rparr>))"

definition mem_SetConfigHashes :: "string \<Rightarrow> string \<Rightarrow> time \<Rightarrow> (mem, unit) act" where
  "mem_SetConfigHashes rh ah at = mem_op ''SetConfigHashes'' (\<lambda>m.
     let cur = (case m_config m of Some c \<Rightarrow> c
         | None \<Rightarrow> \<lparr>sc_Recursor = jsonOr [], sc_Authoritative = jsonOr [], sc_RecursorHash = [], sc_AuthHash = [],
             sc_UpdatedBy = [], sc_UpdatedAt = orNow at (m_Now m)\<rparr>)
     in (Inr (), m\<lparr>m_config := Some (cur\<lparr>sc_RecursorHash := rh, sc_AuthHash := ah\<rparr>)\<rparr>))"

section \<open>IPAM sync state\<close>

definition syncKey :: "string \<Rightarrow> string \<Rightarrow> string" where
  "syncKey t i = t @ ''|'' @ i"

definition mem_GetIPAMSync :: "string \<Rightarrow> string \<Rightarrow> (mem, ipam_sync) act" where
  "mem_GetIPAMSync t i = mem_op ''GetIPAMSync'' (\<lambda>m. case mget (m_sync m) (syncKey t i) of
     None \<Rightarrow> (Inl (Sent repo_ErrNotFound), m) | Some s \<Rightarrow> (Inr s, m))"

definition mem_UpsertIPAMSync :: "ipam_sync \<Rightarrow> (mem, unit) act" where
  "mem_UpsertIPAMSync s = mem_op ''UpsertIPAMSync'' (\<lambda>m. let ip = canonIP (is_Address s) in
     if ip = [] \<or> is_IPAddressID s = [] then (Inl (Sent repo_ErrConflict), m)
     else (Inr (), m\<lparr>m_sync := mput (syncKey (is_TenantID s) (is_IPAddressID s))
       (s\<lparr>is_Address := ip, is_LastEvent := (if is_LastEvent s = [] then SyncCreated else is_LastEvent s),
          is_UpdatedAt := orNow (is_UpdatedAt s) (m_Now m)\<rparr>) (m_sync m)\<rparr>))"

definition mem_DeleteIPAMSync :: "string \<Rightarrow> string \<Rightarrow> (mem, unit) act" where
  "mem_DeleteIPAMSync t i = mem_op ''DeleteIPAMSync'' (\<lambda>m. case mget (m_sync m) (syncKey t i) of
     None \<Rightarrow> (Inl (Sent repo_ErrNotFound), m)
   | Some _ \<Rightarrow> (Inr (), m\<lparr>m_sync := mdel (syncKey t i) (m_sync m)\<rparr>))"

definition clear_sync :: "string \<Rightarrow> string \<Rightarrow> ipam_sync \<Rightarrow> ipam_sync" where
  "clear_sync t zid s0 =
     (if is_TenantID s0 \<noteq> t then s0
      else let s = (if is_ForwardZoneID s0 = zid
             then s0\<lparr>is_ForwardZoneID := [], is_ForwardName := [], is_ForwardType := []\<rparr> else s0)
        in if is_ReverseZoneID s = zid then s\<lparr>is_ReverseZoneID := [], is_ReverseName := []\<rparr> else s)"

definition mem_ClearSyncZone :: "string \<Rightarrow> string \<Rightarrow> (mem, unit) act" where
  "mem_ClearSyncZone t zid = mem_op ''ClearSyncZone'' (\<lambda>m.
     (Inr (), m\<lparr>m_sync := map (\<lambda>(k, s). (k, clear_sync t zid s)) (m_sync m)\<rparr>))"

section \<open>Challenges\<close>

definition mem_InsertChallenge :: "challenge \<Rightarrow> (mem, unit) act" where
  "mem_InsertChallenge c = mem_op ''InsertChallenge'' (\<lambda>m.
     case mem_zone m (c_TenantID c) (c_ZoneID c) of Inl _ \<Rightarrow> (Inl (Sent repo_ErrNotFound), m)
     | Inr _ \<Rightarrow>
         if mget (m_challenges m) (c_ID c) \<noteq> None then (Inl (Sent repo_ErrConflict), m)
         else if list_ex (\<lambda>x. c_TenantID x = c_TenantID c \<and> c_FQDN x = c_FQDN c \<and> c_Value x = c_Value c)
             (mvals (m_challenges m)) then (Inl (Sent repo_ErrConflict), m)
         else (Inr (), m\<lparr>m_challenges := mput (c_ID c)
           (c\<lparr>c_CreatedAt := orNow (c_CreatedAt c) (m_Now m)\<rparr>) (m_challenges m)\<rparr>))"

definition mem_DeleteChallenge :: "string \<Rightarrow> string \<Rightarrow> string \<Rightarrow> (mem, unit) act" where
  "mem_DeleteChallenge t fqdn v = mem_op ''DeleteChallenge'' (\<lambda>m.
     case List.find (\<lambda>(k, c). c_TenantID c = t \<and> c_FQDN c = fqdn \<and> c_Value c = v) (m_challenges m) of
       None \<Rightarrow> (Inl (Sent repo_ErrNotFound), m)
     | Some (k, _) \<Rightarrow> (Inr (), m\<lparr>m_challenges := mdel k (m_challenges m)\<rparr>))"

definition mem_ChallengesOlderThan :: "time \<Rightarrow> int \<Rightarrow> (mem, challenge list) act" where
  "mem_ChallengesOlderThan before limit = mem_op ''ChallengesOlderThan'' (\<lambda>m.
     let out = sort_key (\<lambda>c. (c_CreatedAt c, c_ID c)) (filter (\<lambda>c. c_CreatedAt c < before) (mvals (m_challenges m)))
     in (Inr (if limit > 0 \<and> int (length out) > limit then take (nat limit) out else out), m))"

section \<open>Backup and audit\<close>

definition mem_AllTemplates :: "unicode \<Rightarrow> string \<Rightarrow> (mem, template list) act" where
  "mem_AllTemplates u t = mem_op ''AllTemplates'' (\<lambda>m. (Inr (tenantTemplates u m t), m))"

definition mem_AllSupermasters :: "string \<Rightarrow> (mem, supermaster list option) act" where
  "mem_AllSupermasters t = mem_op ''AllSupermasters'' (\<lambda>m. (Inr (tenantSupermasters m t), m))"

definition mem_TenantIDs :: "(mem, string list) act" where
  "mem_TenantIDs = mem_op ''TenantIDs'' (\<lambda>m. (Inr (sort (remdups
     (map z_TenantID (mvals (m_zones m)) @ map t_TenantID (mvals (m_templates m)) @
      map sm_TenantID (mvals (m_supermasters m))))), m))"

definition mem_AppendAudit :: "audit_row \<Rightarrow> (mem, unit) act" where
  "mem_AppendAudit row = mem_op ''AppendAudit'' (\<lambda>m. (Inr (), m\<lparr>m_audit := m_audit m @ [row]\<rparr>))"

section \<open>The store invariant\<close>

text \<open>
  What the schema guarantees and the guards of the in-memory store mirror: maps
  are keyed by the ids of their rows, zone names and PowerDNS ids are globally
  unique, template names are unique per tenant up to case, supermasters by
  address and nameserver, challenges by tenant, name and value, and every
  challenge belongs to a zone of its tenant.
\<close>

definition zones_ok :: "zone gomap \<Rightarrow> bool" where
  "zones_ok zs = (gmap zs \<and> keyed z_ID zs \<and> distinct (map z_Name (mvals zs)) \<and> distinct (map z_PDNSID (mvals zs)))"

definition templates_ok :: "unicode \<Rightarrow> template gomap \<Rightarrow> bool" where
  "templates_ok u ts = (gmap ts \<and> keyed t_ID ts \<and> (\<forall>x \<in> set (mvals ts). \<forall>y \<in> set (mvals ts).
     t_TenantID x = t_TenantID y \<and> EqualFold u (t_Name x) (t_Name y) \<longrightarrow> t_ID x = t_ID y))"

definition supermasters_ok :: "supermaster gomap \<Rightarrow> bool" where
  "supermasters_ok ss = (gmap ss \<and> keyed sm_ID ss \<and> distinct (map (\<lambda>s. (sm_IP s, sm_Nameserver s)) (mvals ss)))"

definition sync_ok :: "ipam_sync gomap \<Rightarrow> bool" where
  "sync_ok ss = (gmap ss \<and> keyed (\<lambda>s. syncKey (is_TenantID s) (is_IPAddressID s)) ss)"

definition challenges_ok :: "zone gomap \<Rightarrow> challenge gomap \<Rightarrow> bool" where
  "challenges_ok zs cs = (gmap cs \<and> keyed c_ID cs \<and>
     distinct (map (\<lambda>c. (c_TenantID c, c_FQDN c, c_Value c)) (mvals cs)) \<and>
     (\<forall>c \<in> set (mvals cs). \<exists>z. mget zs (c_ZoneID c) = Some z \<and> z_TenantID z = c_TenantID c))"

definition mem_ok :: "unicode \<Rightarrow> mem \<Rightarrow> bool" where
  "mem_ok u m = (zones_ok (m_zones m) \<and> templates_ok u (m_templates m) \<and> supermasters_ok (m_supermasters m) \<and>
     sync_ok (m_sync m) \<and> challenges_ok (m_zones m) (m_challenges m))"

lemma EqualFold_sym: "EqualFold u s t = EqualFold u t s"
  unfolding EqualFold_def by (auto dest: sym)

section \<open>Every operation preserves it\<close>

lemma keeps_mem_op:
  assumes "keeps I body" and "\<And>m f. I m \<Longrightarrow> I (m\<lparr>m_failNext := f\<rparr>)"
  shows "keeps I (mem_op meth body)"
  using assms by (auto simp: keeps_def mem_op_def mem_fail_def)

lemma mem_ok_frame [simp]: "mem_ok u (m\<lparr>m_failNext := f\<rparr>) = mem_ok u m"
  "mem_ok u (m\<lparr>m_audit := a\<rparr>) = mem_ok u m" "mem_ok u (m\<lparr>m_Now := t\<rparr>) = mem_ok u m"
  "mem_ok u (m\<lparr>m_config := c\<rparr>) = mem_ok u m"
  by (simp_all add: mem_ok_def)

lemma keeps_ok_op: "keeps (mem_ok u) body \<Longrightarrow> keeps (mem_ok u) (mem_op meth body)"
  by (rule keeps_mem_op) simp_all

lemma zone_defaults_simps [simp]:
  "z_ID (zone_defaults n z) = z_ID z" "z_TenantID (zone_defaults n z) = z_TenantID z"
  "z_Name (zone_defaults n z) = z_Name z" "z_PDNSID (zone_defaults n z) = z_PDNSID z"
  by (simp_all add: zone_defaults_def Let_def)

lemma zones_ok_insert:
  assumes "zones_ok zs" "mget zs (z_ID z) = None"
    "\<not> list_ex (\<lambda>x. z_Name x = z_Name z \<or> z_PDNSID x = z_PDNSID z) (mvals zs)"
  shows "zones_ok (mput (z_ID z) z zs)"
  using assms by (auto simp: zones_ok_def mvals_mput_new list_ex_iff)

lemma zones_ok_change:
  assumes "zones_ok zs" "mget zs (z_ID z) = Some x" "z_Name z = z_Name x" "z_PDNSID z = z_PDNSID x"
  shows "zones_ok (mput (z_ID z) z zs)"
  using assms by (auto simp: zones_ok_def map_vals_mput_old)

lemma zones_ok_mdel: "zones_ok zs \<Longrightarrow> zones_ok (mdel k zs)"
  by (auto simp: zones_ok_def distinct_vals_mdel)

lemma challenges_ok_zone:
  assumes "challenges_ok zs cs" "\<And>k x. mget zs k = Some x \<Longrightarrow> \<exists>y. mget zs' k = Some y \<and> z_TenantID y = z_TenantID x"
  shows "challenges_ok zs' cs"
  using assms unfolding challenges_ok_def by metis

lemma mem_zone_Inr: "mem_zone m t i = Inr z \<longleftrightarrow> mget (m_zones m) i = Some z \<and> z_TenantID z = t"
  by (auto simp: mem_zone_def split: option.splits)

lemma keeps_CreateZone: "keeps (mem_ok u) (mem_CreateZone z)"
proof -
  have "challenges_ok (mput (z_ID z) (zone_defaults n z) zs) cs" if "challenges_ok zs cs" "mget zs (z_ID z) = None" for n zs cs
    using that(1) by (rule challenges_ok_zone) (use that(2) in auto)
  moreover have "zones_ok (mput (z_ID z) (zone_defaults n z) zs)" if "zones_ok zs" "mget zs (z_ID z) = None"
    "\<not> list_ex (\<lambda>x. z_Name x = z_Name z \<or> z_PDNSID x = z_PDNSID z) (mvals zs)" for n zs
    using zones_ok_insert [of zs "zone_defaults n z"] that by simp
  ultimately show ?thesis
    unfolding mem_CreateZone_def by (intro keeps_ok_op keepsI) (auto simp: mem_ok_def split: if_splits)
qed

lemma keeps_UpdateZone: "keeps (mem_ok u) (mem_UpdateZone z)"
  unfolding mem_UpdateZone_def
proof (intro keeps_ok_op keepsI)
  fix m r m'
  assume run: "(case mem_zone m (z_TenantID z) (z_ID z) of Inl e \<Rightarrow> (Inl e, m)
     | Inr c \<Rightarrow> let cur = c\<lparr>z_Kind := z_Kind z, z_Masters := z_Masters z, z_DNSSEC := z_DNSSEC z,
           z_Description := z_Description z, z_UpdatedAt := orNow (z_UpdatedAt z) (m_Now m)\<rparr>
         in (Inr cur, m\<lparr>m_zones := mput (z_ID cur) cur (m_zones m)\<rparr>)) = (r, m')" and ok: "mem_ok u m"
  show "mem_ok u m'"
  proof (cases "mem_zone m (z_TenantID z) (z_ID z)")
    case (Inr c)
    define cur where "cur = c\<lparr>z_Kind := z_Kind z, z_Masters := z_Masters z, z_DNSSEC := z_DNSSEC z,
           z_Description := z_Description z, z_UpdatedAt := orNow (z_UpdatedAt z) (m_Now m)\<rparr>"
    have m': "m' = m\<lparr>m_zones := mput (z_ID cur) cur (m_zones m)\<rparr>" using run Inr by (auto simp: cur_def Let_def)
    have c: "mget (m_zones m) (z_ID z) = Some c" using Inr by (simp add: mem_zone_Inr)
    have "z_ID c = z_ID z" using ok c keyed_mget by (metis mem_ok_def zones_ok_def)
    then have old: "mget (m_zones m) (z_ID cur) = Some c" using c by (simp add: cur_def)
    have "zones_ok (mput (z_ID cur) cur (m_zones m))"
      using ok old by (intro zones_ok_change [of _ _ c]) (auto simp: mem_ok_def cur_def)
    moreover have "challenges_ok (mput (z_ID cur) cur (m_zones m)) (m_challenges m)"
      by (rule challenges_ok_zone [of "m_zones m"]) (use ok old in \<open>auto simp: mem_ok_def cur_def\<close>)
    ultimately show ?thesis using ok by (simp add: m' mem_ok_def)
  qed (use run ok in auto)
qed

lemma keeps_DeleteZone: "keeps (mem_ok u) (mem_DeleteZone t i)"
  unfolding mem_DeleteZone_def
proof (intro keeps_ok_op keepsI)
  fix m r m'
  assume run: "(case mem_zone m t i of Inl e \<Rightarrow> (Inl e, m)
     | Inr _ \<Rightarrow> (Inr (), m\<lparr>m_zones := mdel i (m_zones m),
         m_challenges := filter (\<lambda>(k, c). \<not> (c_TenantID c = t \<and> c_ZoneID c = i)) (m_challenges m)\<rparr>)) = (r, m')"
    and ok: "mem_ok u m"
  show "mem_ok u m'"
  proof (cases "mem_zone m t i")
    case (Inr z)
    let ?cs = "filter (\<lambda>(k, c). \<not> (c_TenantID c = t \<and> c_ZoneID c = i)) (m_challenges m)"
    have z: "mget (m_zones m) i = Some z" "z_TenantID z = t" using Inr by (simp_all add: mem_zone_Inr)
    have "challenges_ok (mdel i (m_zones m)) ?cs"
      unfolding challenges_ok_def
    proof (intro conjI ballI)
      fix c assume "c \<in> set (mvals ?cs)"
      then have c: "c \<in> set (mvals (m_challenges m))" "\<not> (c_TenantID c = t \<and> c_ZoneID c = i)" by (auto simp: mvals_def)
      then obtain y where "mget (m_zones m) (c_ZoneID c) = Some y" "z_TenantID y = c_TenantID c"
        using ok by (auto simp: mem_ok_def challenges_ok_def)
      then show "\<exists>y. mget (mdel i (m_zones m)) (c_ZoneID c) = Some y \<and> z_TenantID y = c_TenantID c" using c z by auto
    qed (use ok in \<open>auto simp: mem_ok_def challenges_ok_def distinct_vals_filter\<close>)
    then show ?thesis using run Inr ok by (auto simp: mem_ok_def zones_ok_mdel)
  qed (use run ok in auto)
qed

lemma mem_template_Inr: "mem_template m t i = Inr x \<longleftrightarrow> mget (m_templates m) i = Some x \<and> t_TenantID x = t"
  by (auto simp: mem_template_def split: option.splits)

lemma mem_supermaster_Inr: "mem_supermaster m t i = Inr x \<longleftrightarrow> mget (m_supermasters m) i = Some x \<and> sm_TenantID x = t"
  by (auto simp: mem_supermaster_def split: option.splits)

text \<open>Writing a template row whose name no other row of the tenant has.\<close>

lemma templates_ok_write:
  assumes ok: "templates_ok u ts" and free: "\<And>x. x \<in> set (mvals ts) \<Longrightarrow> t_TenantID x = t_TenantID t \<Longrightarrow>
    EqualFold u (t_Name x) (t_Name t) \<Longrightarrow> t_ID x = t_ID t"
  shows "templates_ok u (mput (t_ID t) t ts)"
proof -
  have "t_ID x = t_ID y" if "x \<in> set (mvals (mput (t_ID t) t ts))" "y \<in> set (mvals (mput (t_ID t) t ts))"
    "t_TenantID x = t_TenantID y" "EqualFold u (t_Name x) (t_Name y)" for x y
  proof -
    have "x = t \<or> x \<in> set (mvals ts)" "y = t \<or> y \<in> set (mvals ts)"
      using that(1,2) mvals_mput_subset [of "t_ID t" t ts] by auto
    then consider "x = t" "y = t" | "x = t" "y \<in> set (mvals ts)" | "y = t" "x \<in> set (mvals ts)"
      | "x \<in> set (mvals ts)" "y \<in> set (mvals ts)" by blast
    then show ?thesis
    proof cases
      case 2
      then show ?thesis using free [of y] that(3,4) EqualFold_sym by metis
    next
      case 3
      then show ?thesis using free [of x] that(3,4) by metis
    next
      case 4
      then show ?thesis using ok that(3,4) by (simp add: templates_ok_def)
    qed simp
  qed
  then show ?thesis using ok by (auto simp: templates_ok_def)
qed

lemma not_taken:
  "\<not> templateNameTaken u m t \<Longrightarrow> x \<in> set (mvals (m_templates m)) \<Longrightarrow> t_TenantID x = t_TenantID t \<Longrightarrow>
    EqualFold u (t_Name x) (t_Name t) \<Longrightarrow> t_ID x = t_ID t"
  by (auto simp: templateNameTaken_def list_ex_iff)

lemma keeps_CreateTemplate: "keeps (mem_ok u) (mem_CreateTemplate u t)"
  unfolding mem_CreateTemplate_def
proof (intro keeps_ok_op keepsI)
  fix m r m'
  assume run: "(if mget (m_templates m) (t_ID t) \<noteq> None \<or> templateNameTaken u m t then (Inl (Sent repo_ErrConflict), m)
     else let c = orNow (t_CreatedAt t) (m_Now m)
       in (Inr (), m\<lparr>m_templates :=
         mput (t_ID t) (t\<lparr>t_CreatedAt := c, t_UpdatedAt := orNow (t_UpdatedAt t) c\<rparr>) (m_templates m)\<rparr>)) = (r, m')"
    and ok: "mem_ok u m"
  show "mem_ok u m'"
  proof (cases "mget (m_templates m) (t_ID t) \<noteq> None \<or> templateNameTaken u m t")
    case False
    define t' where "t' = t\<lparr>t_CreatedAt := orNow (t_CreatedAt t) (m_Now m),
      t_UpdatedAt := orNow (t_UpdatedAt t) (orNow (t_CreatedAt t) (m_Now m))\<rparr>"
    have "templates_ok u (mput (t_ID t') t' (m_templates m))"
      by (rule templates_ok_write) (use ok not_taken False in \<open>auto simp: mem_ok_def t'_def\<close>)
    moreover have "m' = m\<lparr>m_templates := mput (t_ID t') t' (m_templates m)\<rparr>"
      using run False by (auto simp: Let_def t'_def)
    ultimately show ?thesis using ok by (simp add: mem_ok_def)
  qed (use run ok in auto)
qed

lemma keeps_UpdateTemplate: "keeps (mem_ok u) (mem_UpdateTemplate u t)"
  unfolding mem_UpdateTemplate_def
proof (intro keeps_ok_op keepsI)
  fix m r m'
  assume run: "(case mem_template m (t_TenantID t) (t_ID t) of Inl e \<Rightarrow> (Inl e, m)
     | Inr c \<Rightarrow>
         if templateNameTaken u m t then (Inl (Sent repo_ErrConflict), m)
         else let cur = c\<lparr>t_Name := t_Name t, t_Description := t_Description t, t_Records := t_Records t,
             t_UpdatedAt := orNow (t_UpdatedAt t) (m_Now m)\<rparr>
           in (Inr cur, m\<lparr>m_templates := mput (t_ID cur) cur (m_templates m)\<rparr>)) = (r, m')"
    and ok: "mem_ok u m"
  show "mem_ok u m'"
  proof (cases "isl (mem_template m (t_TenantID t) (t_ID t)) \<or> templateNameTaken u m t")
    case False
    then obtain c where c: "mem_template m (t_TenantID t) (t_ID t) = Inr c" by (auto simp: isl_def) (metis obj_sumE)
    define cur where "cur = c\<lparr>t_Name := t_Name t, t_Description := t_Description t, t_Records := t_Records t,
             t_UpdatedAt := orNow (t_UpdatedAt t) (m_Now m)\<rparr>"
    have old: "mget (m_templates m) (t_ID t) = Some c" "t_TenantID c = t_TenantID t"
      using c by (simp_all add: mem_template_Inr)
    then have "t_ID c = t_ID t" using ok keyed_mget by (metis mem_ok_def templates_ok_def)
    then have "templates_ok u (mput (t_ID cur) cur (m_templates m))"
      using ok not_taken False old by (intro templates_ok_write) (auto simp: mem_ok_def cur_def)
    moreover have "m' = m\<lparr>m_templates := mput (t_ID cur) cur (m_templates m)\<rparr>"
      using run False c by (auto simp: Let_def cur_def)
    ultimately show ?thesis using ok by (simp add: mem_ok_def)
  qed (use run ok in \<open>auto split: sum.splits\<close>)
qed

lemma templates_ok_mdel: "templates_ok u ts \<Longrightarrow> templates_ok u (mdel k ts)"
  using mvals_mdel_subset [of k ts] by (fastforce simp: templates_ok_def)

lemma keeps_DeleteTemplate: "keeps (mem_ok u) (mem_DeleteTemplate t i)"
  unfolding mem_DeleteTemplate_def
  by (intro keeps_ok_op keepsI) (auto simp: mem_ok_def templates_ok_mdel split: sum.splits)

lemma keeps_CreateSupermaster: "keeps (mem_ok u) (mem_CreateSupermaster s)"
  unfolding mem_CreateSupermaster_def
  by (intro keeps_ok_op keepsI)
    (auto simp: mem_ok_def supermasters_ok_def Let_def mvals_mput_new list_ex_iff split: if_splits)

lemma keeps_DeleteSupermaster: "keeps (mem_ok u) (mem_DeleteSupermaster t i)"
  unfolding mem_DeleteSupermaster_def
  by (intro keeps_ok_op keepsI) (auto simp: mem_ok_def supermasters_ok_def distinct_vals_mdel split: sum.splits)

lemma keeps_config:
  "keeps (mem_ok u) (mem_SaveServerConfig c)" "keeps (mem_ok u) (mem_SetConfigHashes rh ah at)"
  unfolding mem_SaveServerConfig_def mem_SetConfigHashes_def
  by (intro keeps_ok_op keepsI; auto simp: Let_def)+

lemma keeps_sync:
  "keeps (mem_ok u) (mem_UpsertIPAMSync s)" "keeps (mem_ok u) (mem_DeleteIPAMSync t i)"
  unfolding mem_UpsertIPAMSync_def mem_DeleteIPAMSync_def
  by (intro keeps_ok_op keepsI; auto simp: mem_ok_def sync_ok_def Let_def split: if_splits option.splits)+

lemma clear_sync_simps [simp]: "is_TenantID (clear_sync t z s) = is_TenantID s"
  "is_IPAddressID (clear_sync t z s) = is_IPAddressID s"
  by (simp_all add: clear_sync_def Let_def)

lemma keeps_ClearSyncZone: "keeps (mem_ok u) (mem_ClearSyncZone t z)"
proof -
  have "sync_ok (map (\<lambda>(k, s). (k, clear_sync t z s)) ss)" if "sync_ok ss" for ss
    using that by (fastforce simp: sync_ok_def gmap_def keyed_def comp_def case_prod_beta)
  then show ?thesis
    unfolding mem_ClearSyncZone_def by (intro keeps_ok_op keepsI) (auto simp: mem_ok_def)
qed

lemma keeps_InsertChallenge: "keeps (mem_ok u) (mem_InsertChallenge c)"
  unfolding mem_InsertChallenge_def
  by (intro keeps_ok_op keepsI)
    (auto simp: mem_ok_def challenges_ok_def mvals_mput_new list_ex_iff mem_zone_Inr split: if_splits sum.splits)

lemma keeps_DeleteChallenge: "keeps (mem_ok u) (mem_DeleteChallenge t f v)"
proof -
  have "challenges_ok zs (mdel k cs)" if "challenges_ok zs cs" for zs k cs
    using that mvals_mdel_subset [of k cs] by (fastforce simp: challenges_ok_def distinct_vals_mdel)
  then show ?thesis
    unfolding mem_DeleteChallenge_def by (intro keeps_ok_op keepsI) (auto simp: mem_ok_def split: option.splits)
qed

lemma keeps_AppendAudit: "keeps (mem_ok u) (mem_AppendAudit r)"
  unfolding mem_AppendAudit_def by (intro keeps_ok_op keepsI) auto

text \<open>An operation that only reads changes nothing but the armed failures.\<close>

definition reads :: "(mem, 'a) act \<Rightarrow> bool" where
  "reads a = (\<forall>m. \<exists>f. snd (a m) = m\<lparr>m_failNext := f\<rparr>)"

lemma reads_mem_op: "(\<And>m. snd (body m) = m) \<Longrightarrow> reads (mem_op meth body)"
  unfolding reads_def mem_op_def mem_fail_def
  by (auto split: prod.splits) (metis mem.surjective mem.update_convs(8) snd_conv)+

lemma keeps_reads: "reads a \<Longrightarrow> keeps (mem_ok u) a"
  unfolding reads_def keeps_def by (metis mem_ok_frame(1))

lemma mem_reads:
  "reads (mem_GetZone t i)" "reads (mem_GetZoneByName t n)" "reads (mem_ListZones ss wi u t fl q)"
  "reads (mem_ZoneConflict u t n)" "reads mem_AllZoneNames" "reads (mem_ZonesForTenant t)"
  "reads (mem_GetTemplate t i)" "reads (mem_ListTemplates ss2 wi2 u t q)" "reads (mem_GetSupermaster t i)"
  "reads (mem_ListSupermasters ss3 wi3 t q)" "reads mem_GetServerConfig" "reads (mem_GetIPAMSync t i)"
  "reads (mem_ChallengesOlderThan b l)" "reads (mem_AllTemplates u t)" "reads (mem_AllSupermasters t)"
  "reads mem_TenantIDs"
  unfolding mem_GetZone_def mem_GetZoneByName_def mem_ListZones_def mem_ZoneConflict_def mem_AllZoneNames_def
    mem_ZonesForTenant_def mem_GetTemplate_def mem_ListTemplates_def mem_GetSupermaster_def mem_ListSupermasters_def
    mem_GetServerConfig_def mem_GetIPAMSync_def mem_ChallengesOlderThan_def mem_AllTemplates_def mem_AllSupermasters_def
    mem_TenantIDs_def
  by (intro reads_mem_op; auto simp: Let_def split: option.splits)+

section \<open>Steps\<close>

text \<open>
  \<open>tenant_step t\<close> is one call of an operation in the scope of tenant \<open>t\<close>; a read or
  a failed call may consume an armed failure. \<open>mem_step\<close> adds the platform scope:
  configuration, audit, the clock and the arming of failures.
\<close>

inductive tenant_step :: "unicode \<Rightarrow> string \<Rightarrow> mem \<Rightarrow> mem \<Rightarrow> bool" for u t m where
  ts_CreateZone: "z_TenantID z = t \<Longrightarrow> tenant_step u t m (snd (mem_CreateZone z m))"
| ts_UpdateZone: "z_TenantID z = t \<Longrightarrow> tenant_step u t m (snd (mem_UpdateZone z m))"
| ts_DeleteZone: "tenant_step u t m (snd (mem_DeleteZone t i m))"
| ts_CreateTemplate: "t_TenantID x = t \<Longrightarrow> tenant_step u t m (snd (mem_CreateTemplate u x m))"
| ts_UpdateTemplate: "t_TenantID x = t \<Longrightarrow> tenant_step u t m (snd (mem_UpdateTemplate u x m))"
| ts_DeleteTemplate: "tenant_step u t m (snd (mem_DeleteTemplate t i m))"
| ts_CreateSupermaster: "sm_TenantID s = t \<Longrightarrow> tenant_step u t m (snd (mem_CreateSupermaster s m))"
| ts_DeleteSupermaster: "tenant_step u t m (snd (mem_DeleteSupermaster t i m))"
| ts_UpsertIPAMSync: "is_TenantID y = t \<Longrightarrow> tenant_step u t m (snd (mem_UpsertIPAMSync y m))"
| ts_DeleteIPAMSync: "tenant_step u t m (snd (mem_DeleteIPAMSync t i m))"
| ts_ClearSyncZone: "tenant_step u t m (snd (mem_ClearSyncZone t i m))"
| ts_InsertChallenge: "c_TenantID c = t \<Longrightarrow> tenant_step u t m (snd (mem_InsertChallenge c m))"
| ts_DeleteChallenge: "tenant_step u t m (snd (mem_DeleteChallenge t f v m))"
| ts_read: "tenant_step u t m (m\<lparr>m_failNext := g\<rparr>)"

inductive mem_step :: "unicode \<Rightarrow> mem \<Rightarrow> mem \<Rightarrow> bool" for u m where
  ms_tenant: "tenant_step u t m m' \<Longrightarrow> mem_step u m m'"
| ms_SaveServerConfig: "mem_step u m (snd (mem_SaveServerConfig c m))"
| ms_SetConfigHashes: "mem_step u m (snd (mem_SetConfigHashes rh ah at m))"
| ms_AppendAudit: "mem_step u m (snd (mem_AppendAudit row m))"
| ms_FailNext: "mem_step u m (mem_FailNext meth m)"
| ms_tick: "mem_step u m (m\<lparr>m_Now := now\<rparr>)"

lemmas mem_keeps = keeps_CreateZone keeps_UpdateZone keeps_DeleteZone keeps_CreateTemplate keeps_UpdateTemplate
  keeps_DeleteTemplate keeps_CreateSupermaster keeps_DeleteSupermaster keeps_sync keeps_ClearSyncZone
  keeps_InsertChallenge keeps_DeleteChallenge keeps_config keeps_AppendAudit

lemma tenant_step_ok: "tenant_step u t m m' \<Longrightarrow> mem_ok u m \<Longrightarrow> mem_ok u m'"
  by (induction rule: tenant_step.induct) (simp_all add: mem_keeps [THEN keepsD])

lemma mem_step_ok: "mem_step u m m' \<Longrightarrow> mem_ok u m \<Longrightarrow> mem_ok u m'"
  by (induction rule: mem_step.induct)
    (simp_all add: mem_keeps [THEN keepsD] tenant_step_ok mem_FailNext_def)

lemma mem_ok_New: "mem_ok u (mem_New now)"
  by (simp add: mem_ok_def mem_New_def zones_ok_def templates_ok_def supermasters_ok_def sync_ok_def challenges_ok_def mvals_def)

section \<open>Isolation\<close>

lemma clear_sync_other: "is_TenantID s \<noteq> t \<Longrightarrow> clear_sync t z s = s"
  by (simp add: clear_sync_def)

text \<open>The rows of every other tenant.\<close>

definition others :: "('v \<Rightarrow> string) \<Rightarrow> string \<Rightarrow> 'v gomap \<Rightarrow> 'v gomap" where
  "others f t m = filter (\<lambda>(k, v). f v \<noteq> t) m"

lemma others_mput:
  assumes "f v = t" and "\<forall>x. mget m k = Some x \<longrightarrow> f x = t"
  shows "others f t (mput k v m) = others f t m"
  unfolding others_def using assms filter_mput_irrelevant [of "\<lambda>v. f v \<noteq> t" v m k] by auto

lemma others_mdel:
  assumes "gmap m" and "\<forall>x. mget m k = Some x \<longrightarrow> f x = t"
  shows "others f t (mdel k m) = others f t m"
  unfolding others_def using assms filter_mdel_irrelevant [of m k "\<lambda>v. f v \<noteq> t"] by auto

definition foreign :: "string \<Rightarrow> mem \<Rightarrow>
    zone gomap \<times> template gomap \<times> supermaster gomap \<times> ipam_sync gomap \<times> challenge gomap" where
  "foreign t m = (others z_TenantID t (m_zones m), others t_TenantID t (m_templates m),
     others sm_TenantID t (m_supermasters m), others is_TenantID t (m_sync m), others c_TenantID t (m_challenges m))"

lemma foreign_failNext [simp]: "foreign t (m\<lparr>m_failNext := f\<rparr>) = foreign t m"
  by (simp add: foreign_def)

lemma foreign_op:
  assumes "\<And>r m'. body m = (r, m') \<Longrightarrow> foreign t m' = foreign t m"
  shows "foreign t (snd (mem_op meth body m)) = foreign t m"
proof (cases "mem_fail meth m")
  case (Pair e m1)
  then show ?thesis
    using assms [of "fst (body m)" "snd (body m)"] by (auto simp: mem_op_def mem_fail_def split: if_splits)
qed

lemma foreign_zone_ops:
  assumes "mem_ok u m"
  shows "z_TenantID z = t \<Longrightarrow> foreign t (snd (mem_CreateZone z m)) = foreign t m"
    and "z_TenantID z = t \<Longrightarrow> foreign t (snd (mem_UpdateZone z m)) = foreign t m"
    and "foreign t (snd (mem_DeleteZone t i m)) = foreign t m"
proof -
  have ok: "gmap (m_zones m)" "keyed z_ID (m_zones m)" using assms by (auto simp: mem_ok_def zones_ok_def)
  show "z_TenantID z = t \<Longrightarrow> foreign t (snd (mem_CreateZone z m)) = foreign t m"
    unfolding mem_CreateZone_def
    by (rule foreign_op) (auto simp: foreign_def others_mput split: if_splits)
  show "z_TenantID z = t \<Longrightarrow> foreign t (snd (mem_UpdateZone z m)) = foreign t m"
    unfolding mem_UpdateZone_def
    by (rule foreign_op, auto simp: foreign_def mem_zone_Inr Let_def intro!: others_mput split: sum.splits)
      (metis keyed_mget [OF ok(2)] option.inject)
  have "others c_TenantID t (filter (\<lambda>(k, c). \<not> (c_TenantID c = t \<and> c_ZoneID c = i)) cs) = others c_TenantID t cs" for cs
    by (auto simp: others_def intro!: filter_cong)
  then show "foreign t (snd (mem_DeleteZone t i m)) = foreign t m"
    unfolding mem_DeleteZone_def
    by (intro foreign_op) (auto simp: foreign_def mem_zone_Inr others_mdel [OF ok(1)] split: sum.splits)
qed

lemma foreign_template_ops:
  assumes "mem_ok u m"
  shows "t_TenantID x = t \<Longrightarrow> foreign t (snd (mem_CreateTemplate u x m)) = foreign t m"
    and "t_TenantID x = t \<Longrightarrow> foreign t (snd (mem_UpdateTemplate u x m)) = foreign t m"
    and "foreign t (snd (mem_DeleteTemplate t i m)) = foreign t m"
proof -
  have ok: "gmap (m_templates m)" "keyed t_ID (m_templates m)" using assms by (auto simp: mem_ok_def templates_ok_def)
  show "t_TenantID x = t \<Longrightarrow> foreign t (snd (mem_CreateTemplate u x m)) = foreign t m"
    unfolding mem_CreateTemplate_def
    by (rule foreign_op) (auto simp: foreign_def Let_def others_mput split: if_splits)
  show "t_TenantID x = t \<Longrightarrow> foreign t (snd (mem_UpdateTemplate u x m)) = foreign t m"
    unfolding mem_UpdateTemplate_def
    by (rule foreign_op, auto simp: foreign_def mem_template_Inr Let_def intro!: others_mput split: sum.splits if_splits)
      (metis keyed_mget [OF ok(2)] option.inject)
  show "foreign t (snd (mem_DeleteTemplate t i m)) = foreign t m"
    unfolding mem_DeleteTemplate_def
    by (rule foreign_op) (auto simp: foreign_def mem_template_Inr others_mdel [OF ok(1)] split: sum.splits)
qed

lemma foreign_supermaster_ops:
  assumes "mem_ok u m"
  shows "sm_TenantID s = t \<Longrightarrow> foreign t (snd (mem_CreateSupermaster s m)) = foreign t m"
    and "foreign t (snd (mem_DeleteSupermaster t i m)) = foreign t m"
proof -
  have ok: "gmap (m_supermasters m)" using assms by (auto simp: mem_ok_def supermasters_ok_def)
  show "sm_TenantID s = t \<Longrightarrow> foreign t (snd (mem_CreateSupermaster s m)) = foreign t m"
    unfolding mem_CreateSupermaster_def
    by (rule foreign_op) (auto simp: foreign_def Let_def others_mput split: if_splits)
  show "foreign t (snd (mem_DeleteSupermaster t i m)) = foreign t m"
    unfolding mem_DeleteSupermaster_def
    by (rule foreign_op) (auto simp: foreign_def mem_supermaster_Inr others_mdel [OF ok] split: sum.splits)
qed

text \<open>The key of a sync row is unambiguous when tenant ids hold no vertical bar.\<close>

lemma syncKey_inj: "syncKey t i = syncKey t' i' \<Longrightarrow> CHR ''|'' \<notin> set t \<Longrightarrow> CHR ''|'' \<notin> set t' \<Longrightarrow> t = t' \<and> i = i'"
proof (induction t arbitrary: t')
  case Nil
  then show ?case by (cases t') (auto simp: syncKey_def)
next
  case (Cons c t)
  then show ?case by (cases t') (auto simp: syncKey_def)
qed

definition plain_tenants :: "mem \<Rightarrow> bool" where
  "plain_tenants m = list_all (\<lambda>y. CHR ''|'' \<notin> set (is_TenantID y)) (mvals (m_sync m))"

lemma sync_row_own:
  assumes "mem_ok u m" "plain_tenants m" "CHR ''|'' \<notin> set t" "mget (m_sync m) (syncKey t i) = Some y"
  shows "is_TenantID y = t"
proof -
  have "syncKey t i = syncKey (is_TenantID y) (is_IPAddressID y)"
    using assms(1,4) keyed_mget by (metis (mono_tags, lifting) mem_ok_def sync_ok_def)
  moreover have "CHR ''|'' \<notin> set (is_TenantID y)"
    using assms(2) mget_mvals [OF assms(4)] by (auto simp: plain_tenants_def list_all_iff)
  ultimately show ?thesis using syncKey_inj assms(3) by blast
qed

lemma foreign_sync_ops:
  assumes "mem_ok u m" "plain_tenants m" "CHR ''|'' \<notin> set t"
  shows "is_TenantID y = t \<Longrightarrow> foreign t (snd (mem_UpsertIPAMSync y m)) = foreign t m"
    and "foreign t (snd (mem_DeleteIPAMSync t i m)) = foreign t m"
    and "foreign t (snd (mem_ClearSyncZone t i m)) = foreign t m"
proof -
  have ok: "gmap (m_sync m)" using assms by (auto simp: mem_ok_def sync_ok_def)
  note own = sync_row_own [OF assms]
  show "is_TenantID y = t \<Longrightarrow> foreign t (snd (mem_UpsertIPAMSync y m)) = foreign t m"
    unfolding mem_UpsertIPAMSync_def
    by (rule foreign_op, auto simp: foreign_def Let_def intro!: others_mput split: if_splits) (metis own)+
  show "foreign t (snd (mem_DeleteIPAMSync t i m)) = foreign t m"
    unfolding mem_DeleteIPAMSync_def
    by (rule foreign_op) (auto simp: foreign_def intro!: others_mdel [OF ok] dest: own split: option.splits)
  have "others is_TenantID t (map (\<lambda>(k, s). (k, clear_sync t i s)) ss) = others is_TenantID t ss" for ss
    by (induction ss) (auto simp: others_def clear_sync_other)
  then show "foreign t (snd (mem_ClearSyncZone t i m)) = foreign t m"
    unfolding mem_ClearSyncZone_def by (intro foreign_op) (auto simp: foreign_def)
qed

lemma foreign_challenge_ops:
  assumes "mem_ok u m"
  shows "c_TenantID c = t \<Longrightarrow> foreign t (snd (mem_InsertChallenge c m)) = foreign t m"
    and "foreign t (snd (mem_DeleteChallenge t f v m)) = foreign t m"
proof -
  have ok: "gmap (m_challenges m)" using assms by (auto simp: mem_ok_def challenges_ok_def)
  show "c_TenantID c = t \<Longrightarrow> foreign t (snd (mem_InsertChallenge c m)) = foreign t m"
    unfolding mem_InsertChallenge_def
    by (rule foreign_op) (auto simp: foreign_def others_mput split: if_splits sum.splits)
  show "foreign t (snd (mem_DeleteChallenge t f v m)) = foreign t m"
    unfolding mem_DeleteChallenge_def
  proof (rule foreign_op)
    fix r m'
    assume run: "(case List.find (\<lambda>(k, c). c_TenantID c = t \<and> c_FQDN c = f \<and> c_Value c = v) (m_challenges m) of
       None \<Rightarrow> (Inl (Sent repo_ErrNotFound), m)
     | Some (k, _) \<Rightarrow> (Inr (), m\<lparr>m_challenges := mdel k (m_challenges m)\<rparr>)) = (r, m')"
    show "foreign t m' = foreign t m"
    proof (cases "List.find (\<lambda>(k, c). c_TenantID c = t \<and> c_FQDN c = f \<and> c_Value c = v) (m_challenges m)")
      case (Some p)
      obtain k x where p: "p = (k, x)" by (cases p)
      have "(k, x) \<in> set (m_challenges m)" "c_TenantID x = t"
        using find_SomeD [OF Some] by (auto simp: p)
      then have "mget (m_challenges m) k = Some x" using ok by (simp add: gmap_def)
      then show ?thesis
        using run Some \<open>c_TenantID x = t\<close> by (auto simp: p foreign_def others_mdel [OF ok])
    qed (use run in auto)
  qed
qed

section \<open>Properties\<close>

text \<open>A zone row for evaluating the store on concrete inputs.\<close>

definition sample_zone :: "string \<Rightarrow> string \<Rightarrow> string \<Rightarrow> zone" where
  "sample_zone t i n = \<lparr>z_ID = i, z_TenantID = t, z_Name = n, z_PDNSID = n, z_Kind = KindNative, z_Masters = [],
     z_DNSSEC = False, z_Description = [], z_TemplateID = [], z_Origin = OriginManual, z_Nameservers = [],
     z_CreatedBy = [], z_CreatedAt = 1, z_UpdatedAt = 1\<rparr>"

text \<open>
  C3: whatever sequence of operations runs on an empty store, with failures
  injected anywhere, the unique guards and references of the schema hold: no two
  zones share a name or a PowerDNS id across tenants, no two templates of a
  tenant share a name up to case, supermasters and challenges are unique, and
  every challenge row belongs to a zone of its tenant.
\<close>

theorem mem_invariant:
  assumes "(mem_step u)\<^sup>*\<^sup>* (mem_New now) m"
  shows "mem_ok u m"
  using assms by (induction rule: rtranclp_induct) (auto intro: mem_ok_New mem_step_ok)

theorem mem_invariant_witness:
  "mem_ok sample_unicode (snd (mem_CreateZone (sample_zone ''t2'' ''z2'' ''example.com.'')
     (snd (mem_CreateZone (sample_zone ''t1'' ''z1'' ''example.com.'') (mem_New 5)))))"
proof -
  define m1 where "m1 = snd (mem_CreateZone (sample_zone ''t1'' ''z1'' ''example.com.'') (mem_New 5))"
  have "mem_step sample_unicode (mem_New 5) m1"
    unfolding m1_def by (rule ms_tenant [OF ts_CreateZone, OF refl])
  moreover have "mem_step sample_unicode m1 (snd (mem_CreateZone (sample_zone ''t2'' ''z2'' ''example.com.'') m1))"
    by (rule ms_tenant [OF ts_CreateZone, OF refl])
  ultimately have "(mem_step sample_unicode)\<^sup>*\<^sup>* (mem_New 5) (snd (mem_CreateZone (sample_zone ''t2'' ''z2'' ''example.com.'') m1))"
    by auto
  then show ?thesis unfolding m1_def by (rule mem_invariant)
qed

text \<open>
  C25: tenant isolation of the store. An operation in the scope of one tenant,
  successful or not, leaves every row of every other tenant exactly as it was:
  zones, templates, supermasters, sync states and challenges.
\<close>

theorem tenant_isolation:
  assumes "mem_ok u m" and "plain_tenants m" and "CHR ''|'' \<notin> set t" and "tenant_step u t m m'"
  shows "foreign t m' = foreign t m"
  using assms(4,3)
  by (cases rule: tenant_step.cases)
    (auto intro: foreign_zone_ops [OF assms(1)] foreign_template_ops [OF assms(1)] foreign_supermaster_ops [OF assms(1)]
      foreign_sync_ops [OF assms(1,2)] foreign_challenge_ops [OF assms(1)])

theorem tenant_isolation_witness:
  "foreign ''t1'' (snd (mem_DeleteZone ''t1'' ''z1'' (snd (mem_CreateZone (sample_zone ''t2'' ''z1'' ''example.com.'') (mem_New 5))))) =
   foreign ''t1'' (snd (mem_CreateZone (sample_zone ''t2'' ''z1'' ''example.com.'') (mem_New 5)))"
proof (rule tenant_isolation)
  define m1 where "m1 = snd (mem_CreateZone (sample_zone ''t2'' ''z1'' ''example.com.'') (mem_New 5))"
  show "mem_ok sample_unicode (snd (mem_CreateZone (sample_zone ''t2'' ''z1'' ''example.com.'') (mem_New 5)))"
    by (rule keepsD [OF keeps_CreateZone mem_ok_New])
  show "plain_tenants (snd (mem_CreateZone (sample_zone ''t2'' ''z1'' ''example.com.'') (mem_New 5)))" by code_simp
qed (simp_all add: ts_DeleteZone)

end
