(* ===== verification/Zone_Contract.thy ===== *)
theory Zone_Contract
  imports Zones Pdns_Fake Memstore
begin

text \<open>
  The contracts the zone and record services rely on, and what the services
  guarantee for every storage and every PowerDNS server that keep them.
  \<open>zone_store\<close> and \<open>zone_server\<close> state the laws of the two providers over an
  abstract state each: the stored zones by id, and the served zones by PowerDNS
  id. \<open>zone_env\<close> adds that no provider touches the state of another one.
\<close>

section \<open>Storage\<close>

text \<open>The stored row of a new zone: the store may only set the times.\<close>

definition stored_as :: "zone \<Rightarrow> zone \<Rightarrow> bool" where
  "stored_as z z' = (\<exists>c t. z' = z\<lparr>z_CreatedAt := c, z_UpdatedAt := t\<rparr>)"

text \<open>The row after an update: only kind, primaries, DNSSEC, description and the time are written.\<close>

definition merged :: "zone \<Rightarrow> zone \<Rightarrow> zone \<Rightarrow> bool" where
  "merged cur z z' = (\<exists>t. z' = cur\<lparr>z_Kind := z_Kind z, z_Masters := z_Masters z, z_DNSSEC := z_DNSSEC z,
     z_Description := z_Description z, z_UpdatedAt := t\<rparr>)"

section \<open>Well-formed zones\<close>

text \<open>What every stored zone satisfies.\<close>

definition zone_wf :: "zone \<Rightarrow> bool" where
  "zone_wf z = (canonical False (z_Name z) \<and> z_PDNSID z = z_Name z \<and> z_TenantID z \<noteq> [] \<and> ValidKind (z_Kind z) \<and>
     (NeedsMasters (z_Kind z) \<longleftrightarrow> z_Masters z \<noteq> []) \<and> distinct (z_Masters z) \<and> length (z_Masters z) \<le> MaxMasters \<and>
     ValidOrigin (z_Origin z) \<and> RuneCount (z_Description z) \<le> MaxDescription \<and>
     distinct (z_Nameservers z) \<and> length (z_Nameservers z) \<le> MaxNameservers)"

lemma kindMasters_ok:
  assumes "kindMasters k ms = Inr m"
  shows "ValidKind k" "NeedsMasters k \<longleftrightarrow> m \<noteq> []" "distinct m" "length m \<le> MaxMasters"
  using assms masters_loop_ok [of "[]" ms m] by (auto simp: kindMasters_def Masters_def split: if_splits sum.splits)

lemma nameservers_loop_ok:
  "nameservers_loop L out inp = Inr ns \<Longrightarrow> distinct out \<Longrightarrow> distinct ns \<and> length ns \<le> length out + length inp"
  by (induction L out inp rule: nameservers_loop.induct) (force split: sum.splits if_splits)+

lemma nameservers_ok: "nameservers L k inp = Inr ns \<Longrightarrow> distinct ns \<and> length ns \<le> MaxNameservers"
  using nameservers_loop_ok [of L "[]" inp ns] by (auto simp: nameservers_def split: if_splits)

lemma checkDescription_None: "checkDescription d = None \<longleftrightarrow> RuneCount d \<le> MaxDescription"
  by (simp add: checkDescription_def)

lemma prepare_checks_ok:
  assumes "prepare_checks L s inp z0 = Inr z" and "z_Origin z0 = OriginManual"
  shows "z_Name z = z_Name z0" "z_PDNSID z = z_PDNSID z0" "z_TenantID z = z_TenantID z0" "z_ID z = z_ID z0"
    "z_TemplateID z = z_TemplateID z0" "z_CreatedBy z = z_CreatedBy z0"
    "canonical False (z_Name z0) \<Longrightarrow> z_PDNSID z0 = z_Name z0 \<Longrightarrow> z_TenantID z0 \<noteq> [] \<Longrightarrow> zone_wf z"
  using assms
  by (auto simp: prepare_checks_def Let_def zone_wf_def ValidOrigin_def checkDescription_None
      dest: kindMasters_ok nameservers_ok split: sum.splits option.splits if_splits)

lemma zones_next_form:
  assumes "zones_next L prev inp = Inr next"
  obtains k x ms b d where "next = prev\<lparr>z_Kind := k, z_Masters := ms, z_DNSSEC := b, z_Description := d\<rparr>"
    "kindMasters k x = Inr ms" "d = z_Description prev \<or> RuneCount d \<le> MaxDescription"
proof -
  define n0 where "n0 = (case ui_Kind inp of None \<Rightarrow> prev | Some k \<Rightarrow> prev\<lparr>z_Kind := lower L (TrimSpace k)\<rparr>)"
  define x where "x = (case ui_Masters inp of Some ms \<Rightarrow> ms | None \<Rightarrow> if \<not> NeedsMasters (z_Kind n0) then [] else z_Masters prev)"
  obtain ms where ms: "kindMasters (z_Kind n0) x = Inr ms"
    using assms unfolding zones_next_def Let_def n0_def [symmetric] x_def [symmetric] by (auto split: sum.splits)
  define b where "b = (case ui_DNSSEC inp of None \<Rightarrow> z_DNSSEC prev | Some b \<Rightarrow> b)"
  define n2 where "n2 = (case ui_DNSSEC inp of None \<Rightarrow> n0\<lparr>z_Masters := ms\<rparr> | Some b \<Rightarrow> n0\<lparr>z_Masters := ms, z_DNSSEC := b\<rparr>)"
  have n0: "n0 = prev\<lparr>z_Kind := z_Kind n0\<rparr>" by (simp add: n0_def split: option.split)
  have n2: "n2 = prev\<lparr>z_Kind := z_Kind n0, z_Masters := ms, z_DNSSEC := b\<rparr>"
    by (simp add: n2_def b_def n0_def split: option.split)
  have "next = n2 \<or> (\<exists>d. RuneCount d \<le> MaxDescription \<and> next = n2\<lparr>z_Description := d\<rparr>)"
    using assms ms unfolding zones_next_def Let_def n0_def [symmetric] x_def [symmetric] n2_def
    by (auto simp: checkDescription_None split: option.splits)
  moreover have "n2 = n2\<lparr>z_Description := z_Description prev\<rparr>" by (simp add: n2)
  ultimately obtain d where "d = z_Description prev \<or> RuneCount d \<le> MaxDescription" "next = n2\<lparr>z_Description := d\<rparr>" by metis
  then show ?thesis using that [where k = "z_Kind n0" and x = x and ms = ms and b = b] ms n2 by simp
qed

lemma zones_next_ok:
  assumes "zones_next L prev inp = Inr next"
  shows "z_Name next = z_Name prev" "z_PDNSID next = z_PDNSID prev" "z_TenantID next = z_TenantID prev" "z_ID next = z_ID prev"
    "zone_wf prev \<Longrightarrow> zone_wf next"
  by (rule zones_next_form [OF assms]; auto simp: zone_wf_def dest: kindMasters_ok)+

lemma zone_wf_cong:
  "zone_wf z \<Longrightarrow> stored_as z z' \<Longrightarrow> zone_wf z'"
  "zone_wf cur \<Longrightarrow> zone_wf z \<Longrightarrow> merged cur z z' \<Longrightarrow> zone_wf z'"
  by (auto simp: stored_as_def merged_def zone_wf_def)

lemma PDNSKind_nonempty: "ValidKind k \<Longrightarrow> PDNSKind k \<noteq> []"
  by (auto simp: PDNSKind_def ValidKind_def Kinds_def kind_consts)

lemma ValidKind_nonempty: "ValidKind k \<Longrightarrow> k \<noteq> []"
  by (auto simp: ValidKind_def Kinds_def kind_consts)

lemma lower_canonical: "canonical us z \<Longrightarrow> ToLower u z = z"
  using plain_name_chars(1) [OF canonical_plain] by (intro ToLower_id) (auto simp: list_all_iff is_ascii_def)

section \<open>The storage contract\<close>

locale zone_store =
  fixes S :: "'w repo" and u :: unicode and zs :: "'w \<Rightarrow> string \<Rightarrow> zone option" and inv :: "'w \<Rightarrow> bool"
  assumes keyed_rows: "inv w \<Longrightarrow> zs w i = Some z \<Longrightarrow> z_ID z = i"
    and unique_rows: "inv w \<Longrightarrow> zs w i = Some y \<Longrightarrow> zs w j = Some z \<Longrightarrow> z_PDNSID y = z_PDNSID z \<Longrightarrow> i = j"
    and store_inv: "keeps inv (r_CreateZone S z)" "keeps inv (r_GetZone S t i)" "keeps inv (r_GetZoneByName S t n)"
      "keeps inv (r_UpdateZone S z)" "keeps inv (r_DeleteZone S t i)" "keeps inv (r_ZoneConflict S t n)"
      "keeps inv (r_ZonesForTenant S t)" "keeps inv (r_ClearSyncZone S t i)"
    and store_pure: "zs (snd (r_GetZone S t i w)) = zs w" "zs (snd (r_GetZoneByName S t n w)) = zs w"
      "zs (snd (r_ZoneConflict S t n w)) = zs w" "zs (snd (r_ZonesForTenant S t w)) = zs w"
      "zs (snd (r_ClearSyncZone S t i w)) = zs w"
    and create_failed: "inv w \<Longrightarrow> r_CreateZone S z w = (Inl e, w') \<Longrightarrow> zs w' = zs w"
    and create_done: "inv w \<Longrightarrow> r_CreateZone S z w = (Inr x, w') \<Longrightarrow> z_Kind z \<noteq> [] \<Longrightarrow> z_Origin z \<noteq> [] \<Longrightarrow>
      zs w (z_ID z) = None \<and> (\<exists>z'. zs w' = (zs w)(z_ID z \<mapsto> z') \<and> stored_as z z')"
    and get_done: "inv w \<Longrightarrow> r_GetZone S t i w = (Inr z, w') \<Longrightarrow> zs w i = Some z \<and> z_TenantID z = t"
    and by_name_done: "inv w \<Longrightarrow> r_GetZoneByName S t n w = (Inr z, w') \<Longrightarrow>
      z_TenantID z = t \<and> z_Name z = n \<and> zs w (z_ID z) = Some z"
    and by_name_absent: "inv w \<Longrightarrow> r_GetZoneByName S t n w = (Inl e, w') \<Longrightarrow> errIs e repo_ErrNotFound \<Longrightarrow>
      zs w i = Some z \<Longrightarrow> z_TenantID z = t \<Longrightarrow> z_Name z \<noteq> n"
    and conflict_done: "inv w \<Longrightarrow> r_ZoneConflict S t n w = (Inr b, w') \<Longrightarrow>
      b = (\<exists>i z. zs w i = Some z \<and> z_TenantID z \<noteq> t \<and> Overlaps (ToLower u n) (z_Name z))"
    and update_failed: "inv w \<Longrightarrow> r_UpdateZone S z w = (Inl e, w') \<Longrightarrow> zs w' = zs w"
    and update_done: "inv w \<Longrightarrow> r_UpdateZone S z w = (Inr z', w') \<Longrightarrow>
      \<exists>cur. zs w (z_ID z) = Some cur \<and> z_TenantID cur = z_TenantID z \<and> merged cur z z' \<and> zs w' = (zs w)(z_ID z \<mapsto> z')"
    and delete_failed: "inv w \<Longrightarrow> r_DeleteZone S t i w = (Inl e, w') \<Longrightarrow> zs w' = zs w"
    and delete_done: "inv w \<Longrightarrow> r_DeleteZone S t i w = (Inr x, w') \<Longrightarrow>
      (\<exists>z. zs w i = Some z \<and> z_TenantID z = t) \<and> zs w' = (zs w)(i := None)"

section \<open>PowerDNS\<close>

text \<open>The metadata of a served zone that the module manages.\<close>

definition agrees :: "zone \<Rightarrow> pzone \<Rightarrow> bool" where
  "agrees z p = (pz_Name p = z_Name z \<and> pz_Kind p = PDNSKind (z_Kind z) \<and> pz_Masters p = z_Masters z \<and>
     pz_DNSSEC p = z_DNSSEC z \<and> pz_Account p = z_TenantID z)"

definition with_meta :: "pzone \<Rightarrow> pzone \<Rightarrow> pzone" where
  "with_meta p m = p\<lparr>pz_Kind := pz_Kind m, pz_Masters := pz_Masters m, pz_DNSSEC := pz_DNSSEC m, pz_Account := pz_Account m\<rparr>"

locale zone_server =
  fixes P :: "'w pdns_client" and ps :: "'w \<Rightarrow> string \<Rightarrow> pzone option" and inv :: "'w \<Rightarrow> bool"
  assumes server_pure: "ps (snd (p_GetZone P i w)) = ps w" "ps (snd (p_ExportZone P i w)) = ps w"
    and server_get: "p_GetZone P i w = (Inr z, w') \<Longrightarrow> \<exists>p. ps w i = Some p \<and> z = clonePZone p"
    and server_absent: "inv w \<Longrightarrow> p_GetZone P i w = (Inl e, w') \<Longrightarrow> errIs e pdns_ErrNotFound \<Longrightarrow> ps w i = None"
    and server_create: "p_CreateZone P m w = (Inr c, w') \<Longrightarrow> pz_Kind m \<noteq> [] \<Longrightarrow>
      pz_ID c = pz_Name m \<and> ps w (pz_Name m) = None \<and> (\<exists>p. ps w' = (ps w)(pz_Name m \<mapsto> p) \<and> pz_Name p = pz_Name m \<and>
        pz_Kind p = pz_Kind m \<and> pz_Masters p = pz_Masters m \<and> pz_DNSSEC p = pz_DNSSEC m \<and> pz_Account p = pz_Account m)"
    and server_create_failed: "p_CreateZone P m w = (Inl e, w') \<Longrightarrow> ps w' = ps w"
    and server_update: "p_UpdateZoneMetadata P i m w = (Inr x, w') \<Longrightarrow> pz_Kind m \<noteq> [] \<Longrightarrow> pz_Account m \<noteq> [] \<Longrightarrow>
      \<exists>p. ps w i = Some p \<and> ps w' = (ps w)(i \<mapsto> with_meta p m)"
    and server_update_failed: "p_UpdateZoneMetadata P i m w = (Inl e, w') \<Longrightarrow> ps w' = ps w"
    and server_delete: "p_DeleteZone P i w = (Inr x, w') \<Longrightarrow> ps w' = (ps w)(i := None)"
    and server_delete_failed: "inv w \<Longrightarrow> p_DeleteZone P i w = (Inl e, w') \<Longrightarrow> ps w' = ps w \<and> (errIs e pdns_ErrNotFound \<longrightarrow> ps w i = None)"
    and server_notify: "p_NotifyZone P i w = (r, w') \<Longrightarrow>
      ps w' = ps w \<or> (\<exists>p n. ps w i = Some p \<and> ps w' = (ps w)(i \<mapsto> p\<lparr>pz_NotifiedSerial := n\<rparr>))"

section \<open>The environment of the services\<close>

locale zone_env =
  zone_store "d_Store D" "x_unicode (d_Ext D)" zs inv + zone_server "d_PDNS D" ps inv
  for D :: "'w deps" and zs inv ps +
  assumes store_frame: "ps (snd (r_CreateZone (d_Store D) z w)) = ps w" "ps (snd (r_GetZone (d_Store D) t i w)) = ps w"
      "ps (snd (r_GetZoneByName (d_Store D) t n w)) = ps w" "ps (snd (r_UpdateZone (d_Store D) z w)) = ps w"
      "ps (snd (r_DeleteZone (d_Store D) t i w)) = ps w" "ps (snd (r_ZoneConflict (d_Store D) t n w)) = ps w"
      "ps (snd (r_ZonesForTenant (d_Store D) t w)) = ps w" "ps (snd (r_ClearSyncZone (d_Store D) t i w)) = ps w"
    and server_frame: "zs (snd (p_GetZone (d_PDNS D) i w)) = zs w" "zs (snd (p_CreateZone (d_PDNS D) m w)) = zs w"
      "zs (snd (p_UpdateZoneMetadata (d_PDNS D) i m w)) = zs w" "zs (snd (p_DeleteZone (d_PDNS D) i w)) = zs w"
      "zs (snd (p_NotifyZone (d_PDNS D) i w)) = zs w" "zs (snd (p_ExportZone (d_PDNS D) i w)) = zs w"
    and server_inv: "keeps inv (p_GetZone (d_PDNS D) i)" "keeps inv (p_CreateZone (d_PDNS D) m)"
      "keeps inv (p_UpdateZoneMetadata (d_PDNS D) i m)" "keeps inv (p_DeleteZone (d_PDNS D) i)"
      "keeps inv (p_NotifyZone (d_PDNS D) i)" "keeps inv (p_ExportZone (d_PDNS D) i)"
    and other_frame: "zs (snd (d_NewID D w)) = zs w" "ps (snd (d_NewID D w)) = ps w" "inv w \<Longrightarrow> inv (snd (d_NewID D w))"
      "zs (audit_Emit (d_Audit D) e w) = zs w" "ps (audit_Emit (d_Audit D) e w) = ps w" "inv w \<Longrightarrow> inv (audit_Emit (d_Audit D) e w)"
      "zs (EmitZone (d_Events D) ty z k w) = zs w" "ps (EmitZone (d_Events D) ty z k w) = ps w"
      "inv w \<Longrightarrow> inv (EmitZone (d_Events D) ty z k w)"
      "zs (syncForward D n w) = zs w" "ps (syncForward D n w) = ps w" "inv w \<Longrightarrow> inv (syncForward D n w)"
      "zs (removeForward D n w) = zs w" "ps (removeForward D n w) = ps w" "inv w \<Longrightarrow> inv (removeForward D n w)"
    and template_frame: "d_Templates D = Some expand \<Longrightarrow> zs (snd (expand t i n w)) = zs w"
      "d_Templates D = Some expand \<Longrightarrow> ps (snd (expand t i n w)) = ps w"
      "d_Templates D = Some expand \<Longrightarrow> keeps inv (expand t i n)"
begin

lemma run_frame:
  "r_CreateZone (d_Store D) z w = (r, w') \<Longrightarrow> ps w' = ps w"
  "r_GetZone (d_Store D) t i w = (g, w') \<Longrightarrow> zs w' = zs w \<and> ps w' = ps w"
  "r_GetZoneByName (d_Store D) t n w = (g, w') \<Longrightarrow> zs w' = zs w \<and> ps w' = ps w"
  "r_ZoneConflict (d_Store D) t n w = (b, w') \<Longrightarrow> zs w' = zs w \<and> ps w' = ps w"
  "r_ZonesForTenant (d_Store D) t w = (l, w') \<Longrightarrow> zs w' = zs w \<and> ps w' = ps w"
  "r_ClearSyncZone (d_Store D) t i w = (r, w') \<Longrightarrow> zs w' = zs w \<and> ps w' = ps w"
  "r_UpdateZone (d_Store D) z w = (g, w') \<Longrightarrow> ps w' = ps w"
  "r_DeleteZone (d_Store D) t i w = (r, w') \<Longrightarrow> ps w' = ps w"
  "p_GetZone (d_PDNS D) i w = (p, w') \<Longrightarrow> zs w' = zs w \<and> ps w' = ps w"
  "p_CreateZone (d_PDNS D) m w = (p, w') \<Longrightarrow> zs w' = zs w"
  "p_UpdateZoneMetadata (d_PDNS D) i m w = (r, w') \<Longrightarrow> zs w' = zs w"
  "p_DeleteZone (d_PDNS D) i w = (r, w') \<Longrightarrow> zs w' = zs w"
  "p_NotifyZone (d_PDNS D) i w = (r, w') \<Longrightarrow> zs w' = zs w"
  "p_ExportZone (d_PDNS D) i w = (x, w') \<Longrightarrow> zs w' = zs w \<and> ps w' = ps w"
  "d_NewID D w = (j, w') \<Longrightarrow> zs w' = zs w \<and> ps w' = ps w"
  using store_frame store_pure server_frame server_pure other_frame(1,2) by (metis snd_conv)+

lemma run_inv:
  "inv w \<Longrightarrow> r_CreateZone (d_Store D) z w = (r, w') \<Longrightarrow> inv w'"
  "inv w \<Longrightarrow> r_GetZone (d_Store D) t i w = (g, w') \<Longrightarrow> inv w'"
  "inv w \<Longrightarrow> r_GetZoneByName (d_Store D) t n w = (g, w') \<Longrightarrow> inv w'"
  "inv w \<Longrightarrow> r_ZoneConflict (d_Store D) t n w = (b, w') \<Longrightarrow> inv w'"
  "inv w \<Longrightarrow> r_ClearSyncZone (d_Store D) t i w = (r, w') \<Longrightarrow> inv w'"
  "inv w \<Longrightarrow> r_UpdateZone (d_Store D) z w = (g, w') \<Longrightarrow> inv w'"
  "inv w \<Longrightarrow> r_DeleteZone (d_Store D) t i w = (r, w') \<Longrightarrow> inv w'"
  "inv w \<Longrightarrow> p_GetZone (d_PDNS D) i w = (p, w') \<Longrightarrow> inv w'"
  "inv w \<Longrightarrow> p_CreateZone (d_PDNS D) m w = (p, w') \<Longrightarrow> inv w'"
  "inv w \<Longrightarrow> p_UpdateZoneMetadata (d_PDNS D) i m w = (r, w') \<Longrightarrow> inv w'"
  "inv w \<Longrightarrow> p_DeleteZone (d_PDNS D) i w = (r, w') \<Longrightarrow> inv w'"
  using store_inv server_inv by (meson keepsE)+


subsection \<open>Create\<close>

lemma prepare_outcome:
  assumes laws: "fqdn_law (d_Ext D)" "split_law (d_Ext D)" and "inv w" and "s_TenantID s \<noteq> []" and "zones_prepare D s inp w = (r, w')"
  shows "inv w'" "zs w' = zs w" "ps w' = ps w"
    "r = Inr z \<Longrightarrow> zone_wf z \<and> z_TenantID z = s_TenantID s \<and> ZoneName (d_Ext D) (ci_Name inp) = Inr (z_Name z)"
proof -
  obtain i w1 where i: "d_NewID D w = (i, w1)" by fastforce
  note f = run_frame(15) [OF i] other_frame(3) [OF assms(3)]
  show "inv w'" "zs w' = zs w" "ps w' = ps w"
    using assms i f by (auto simp: zones_prepare_def split: sum.splits)
  assume r: "r = Inr z"
  then obtain name where n: "ZoneName (d_Ext D) (ci_Name inp) = Inr name"
    and p: "prepare_checks (d_Ext D) s inp (prepare_zone (d_Ext D) s inp name i) = Inr z"
    using assms(5) i by (auto simp: zones_prepare_def split: sum.splits)
  have "canonical False name" by (rule canonicalZone_canonical [OF laws ZoneName_canonicalZone [OF n]])
  then show "zone_wf z \<and> z_TenantID z = s_TenantID s \<and> ZoneName (d_Ext D) (ci_Name inp) = Inr (z_Name z)"
    using prepare_checks_ok [OF p] assms(4) n by (simp add: prepare_zone_def)
qed

lemma initial_outcome:
  assumes "inv w" and "zones_initial D z rs w = (r, w')"
  shows "inv w'" "zs w' = zs w" "ps w' = ps w"
proof -
  have tf: "inv w1 \<and> zs w1 = zs w \<and> ps w1 = ps w" if "d_Templates D = Some expand" "expand t i n w = (x, w1)" for expand t i n x w1
    using template_frame [OF that(1)] that(2) assms(1) by (metis keepsD snd_conv)
  have "inv w' \<and> zs w' = zs w \<and> ps w' = ps w"
    if "and_then (expand t i n) (\<lambda>tpl. ret (rs @ tpl)) w = (r, w')" "d_Templates D = Some expand" for expand t i n
    using that(1) by (cases rule: and_thenE) (auto dest: tf [OF that(2)])
  then show "inv w'" "zs w' = zs w" "ps w' = ps w"
    using assms by (auto simp: zones_initial_def split: if_splits option.splits)
qed

lemma ownership_outcome:
  assumes "inv w" and "zones_ownership D z w = (r, w')"
  shows "inv w'" "zs w' = zs w" "ps w' = ps w"
    "r = Inr x \<Longrightarrow> ps w (z_Name z) = None \<and> (\<forall>i y. zs w i = Some y \<longrightarrow>
       (if z_TenantID y = z_TenantID z then z_Name y \<noteq> z_Name z
        else \<not> Overlaps (ToLower (x_unicode (d_Ext D)) (z_Name z)) (z_Name y)))"
proof -
  have "inv w' \<and> zs w' = zs w \<and> ps w' = ps w \<and> (r = Inr x \<longrightarrow> ps w (z_Name z) = None \<and> (\<forall>i y. zs w i = Some y \<longrightarrow>
       (if z_TenantID y = z_TenantID z then z_Name y \<noteq> z_Name z
        else \<not> Overlaps (ToLower (x_unicode (d_Ext D)) (z_Name z)) (z_Name y))))"
    using assms(2) unfolding zones_ownership_def
  proof (elim on_resultE)
    fix r1 w1
    assume n: "r_GetZoneByName (d_Store D) (z_TenantID z) (z_Name z) w = (r1, w1)"
      and k: "(case r1 of Inr _ \<Rightarrow> fail_with (Sent zones_ErrDuplicate)
        | Inl e \<Rightarrow> if \<not> errIs e repo_ErrNotFound then fail_with e
         else and_then (r_ZoneConflict (d_Store D) (z_TenantID z) (z_Name z)) (\<lambda>taken.
           if taken then fail_with (Sent zones_ErrDuplicate)
           else on_result (p_GetZone (d_PDNS D) (z_Name z)) (\<lambda>r. case r of
             Inr _ \<Rightarrow> fail_with (Sent zones_ErrDuplicate)
           | Inl e \<Rightarrow> if \<not> errIs e pdns_ErrNotFound then fail_with (mapPDNS e) else ret ()))) w1 = (r, w')"
    have f1: "zs w1 = zs w" "ps w1 = ps w" "inv w1" using run_frame(3) [OF n] run_inv(3) [OF assms(1) n] by auto
    show ?thesis
    proof (cases "\<exists>e. r1 = Inl e \<and> errIs e repo_ErrNotFound")
      case True
      then obtain e where e: "r1 = Inl e" "errIs e repo_ErrNotFound" by blast
      obtain c w2 where c: "r_ZoneConflict (d_Store D) (z_TenantID z) (z_Name z) w1 = (c, w2)" by fastforce
      have f2: "zs w2 = zs w" "ps w2 = ps w" "inv w2" using run_frame(4) [OF c] run_inv(4) [OF f1(3) c] f1 by auto
      obtain g w3 where g: "p_GetZone (d_PDNS D) (z_Name z) w2 = (g, w3)" by fastforce
      have f3: "zs w3 = zs w" "ps w3 = ps w" "inv w3" using run_frame(9) [OF g] run_inv(8) [OF f2(3) g] f2 by auto
      have free: "\<not> Overlaps (ToLower (x_unicode (d_Ext D)) (z_Name z)) (z_Name y)"
        if "c = Inr False" "zs w i = Some y" "z_TenantID y \<noteq> z_TenantID z" for i y
        using conflict_done [OF f1(3) c [unfolded that(1)]] that(2,3) f1(1) by metis
      have new: "z_Name y \<noteq> z_Name z" if "zs w i = Some y" "z_TenantID y = z_TenantID z" for i y
        using by_name_absent [OF assms(1) n [unfolded e(1)] e(2) that] .
      have gone: "ps w (z_Name z) = None" if "g = Inl e'" "errIs e' pdns_ErrNotFound" for e'
        using server_absent [OF f2(3) g [unfolded that(1)] that(2)] f2(2) by simp
      show ?thesis
        using k e c g f2 f3 free new gone
        by (auto simp: and_then_def on_result_def split: sum.splits if_splits)
    qed (use k f1 in \<open>auto split: sum.splits if_splits\<close>)
  qed
  then show "inv w'" "zs w' = zs w" "ps w' = ps w"
    "r = Inr x \<Longrightarrow> ps w (z_Name z) = None \<and> (\<forall>i y. zs w i = Some y \<longrightarrow>
       (if z_TenantID y = z_TenantID z then z_Name y \<noteq> z_Name z
        else \<not> Overlaps (ToLower (x_unicode (d_Ext D)) (z_Name z)) (z_Name y)))" by blast+
qed

lemma provision_outcome:
  assumes "inv w" and wf: "zone_wf z" and "zones_provision D z rs w = (r, w')"
  shows "inv w'" "zs w' = zs w" "r = Inl e \<Longrightarrow> ps w' = ps w"
    "r = Inr c \<Longrightarrow> pz_ID c = z_Name z \<and> ps w (z_Name z) = None \<and> (\<exists>p. ps w' = (ps w)(z_Name z \<mapsto> p) \<and> agrees z p)"
proof -
  obtain rs' ns where m: "mergeApexNS (d_Ext D) (z_Name z) rs (z_Nameservers z) = (rs', ns)" by fastforce
  define q where "q = \<lparr>pz_ID = [], pz_Name = z_Name z, pz_Kind = PDNSKind (z_Kind z), pz_Serial = 0,
         pz_NotifiedSerial = 0, pz_Masters = z_Masters z, pz_DNSSEC = z_DNSSEC z, pz_Nameservers = ns,
         pz_Account = z_TenantID z, pz_RRsets = rs'\<rparr>"
  obtain cr w1 where c: "p_CreateZone (d_PDNS D) q w = (cr, w1)" by fastforce
  have w1: "w' = w1" and r: "r = (case cr of Inr x \<Rightarrow> Inr x
      | Inl e \<Rightarrow> Inl (if errIs e pdns_ErrConflict then Sent zones_ErrDuplicate else mapPDNS e))"
    using assms(3) c m by (auto simp: zones_provision_def on_result_def q_def [symmetric] split: sum.splits if_splits)
  show "inv w'" "zs w' = zs w" using run_inv(9) [OF assms(1) c] run_frame(10) [OF c] w1 by auto
  show "r = Inl e \<Longrightarrow> ps w' = ps w" using c r w1 server_create_failed by (auto split: sum.splits)
  have "PDNSKind (z_Kind z) \<noteq> []" using wf PDNSKind_nonempty by (simp add: zone_wf_def)
  then show "r = Inr c \<Longrightarrow> pz_ID c = z_Name z \<and> ps w (z_Name z) = None \<and> (\<exists>p. ps w' = (ps w)(z_Name z \<mapsto> p) \<and> agrees z p)"
    using server_create [of q w c w'] c r w1 by (auto simp: q_def agrees_def split: sum.splits)
qed

text \<open>
  The local insert: on failure the served zone is removed again, or stays when the
  compensating delete fails too.
\<close>

lemma commit_outcome:
  assumes "inv w" and wf: "zone_wf z" and c: "pz_ID c = z_Name z" and run: "zones_commit D z c w = (r, w')"
  shows "inv w'"
    "r = Inl (y, e) \<Longrightarrow> zs w' = zs w \<and> (ps w' = (ps w)(z_Name z := None) \<or>
       ps w' = ps w \<and> (\<exists>w1 e'. p_DeleteZone (d_PDNS D) (z_Name z) w1 = (Inl e', w') \<and> inv w1 \<and> ps w1 = ps w \<and> zs w1 = zs w))"
    "r = Inr z' \<Longrightarrow> ps w' = ps w \<and> stored_as z z' \<and> zs w (z_ID z) = None \<and> (\<exists>row. stored_as z row \<and> zs w' = (zs w)(z_ID z \<mapsto> row))"
proof -
  have id: "z_PDNSID z = z_Name z" "z_Name z \<noteq> []" using wf plain_name_chars(2) [OF canonical_plain] by (auto simp: zone_wf_def)
  define z1 where "z1 = z\<lparr>z_PDNSID := z_Name z, z_CreatedAt := d_Now D w, z_UpdatedAt := d_Now D w\<rparr>"
  have z1: "z1 = z\<lparr>z_CreatedAt := d_Now D w, z_UpdatedAt := d_Now D w\<rparr>" using id(1) by (cases z) (simp add: z1_def)
  have run': "on_result (r_CreateZone (d_Store D) z1) (\<lambda>r. case r of
          Inr _ \<Rightarrow> ret z1
        | Inl e \<Rightarrow> on_result (p_DeleteZone (d_PDNS D) (z_Name z)) (\<lambda>_.
            fail_with (z1, if errIs e repo_ErrConflict then Sent zones_ErrDuplicate else e))) w = (r, w')"
    using run id c by (simp add: zones_commit_def Let_def z1_def [symmetric])
  obtain cr w1 where cr: "r_CreateZone (d_Store D) z1 w = (cr, w1)" by fastforce
  have f1: "inv w1" "ps w1 = ps w" using run_inv(1) [OF assms(1) cr] run_frame(1) [OF cr] by auto
  have ne: "z_Kind z1 \<noteq> []" "z_Origin z1 \<noteq> []" "z_ID z1 = z_ID z" "stored_as z z1"
    using wf ValidKind_nonempty by (auto simp: zone_wf_def z1 stored_as_def ValidOrigin_def origin_consts)
  have st: "stored_as z1 row \<Longrightarrow> stored_as z row" for row by (auto simp: stored_as_def z1)
  have "inv w' \<and> (r = Inl (y, e) \<longrightarrow> zs w' = zs w \<and> (ps w' = (ps w)(z_Name z := None) \<or>
       ps w' = ps w \<and> (\<exists>w1 e'. p_DeleteZone (d_PDNS D) (z_Name z) w1 = (Inl e', w') \<and> inv w1 \<and> ps w1 = ps w \<and> zs w1 = zs w))) \<and>
    (r = Inr z' \<longrightarrow> ps w' = ps w \<and> stored_as z z' \<and> zs w (z_ID z) = None \<and> (\<exists>row. stored_as z row \<and> zs w' = (zs w)(z_ID z \<mapsto> row)))"
  proof (cases cr)
    case (Inl ce)
    obtain dr w2 where d: "p_DeleteZone (d_PDNS D) (z_Name z) w1 = (dr, w2)" by fastforce
    have e: "w' = w2" "\<exists>p. r = Inl p" using run' cr Inl d by (auto simp: on_result_def)
    have z: "zs w1 = zs w" using create_failed assms(1) cr Inl by simp
    have "ps w2 = (ps w)(z_Name z := None) \<or> ps w2 = ps w \<and> (\<exists>e'. dr = Inl e')"
      using server_delete [of "z_Name z" w1 _ w2] server_delete_failed [OF f1(1), of "z_Name z" _ w2] d f1(2) by (cases dr) auto
    then show ?thesis using e d z f1 run_inv(11) [OF f1(1) d] run_frame(12) [OF d] by auto
  next
    case (Inr x)
    have "w' = w1" "r = Inr z1" using run' cr Inr by (auto simp: on_result_def)
    then show ?thesis using create_done [OF assms(1) cr [unfolded Inr] ne(1,2)] f1 ne(3,4) st by auto
  qed
  then show "inv w'"
    "r = Inl (y, e) \<Longrightarrow> zs w' = zs w \<and> (ps w' = (ps w)(z_Name z := None) \<or>
       ps w' = ps w \<and> (\<exists>w1 e'. p_DeleteZone (d_PDNS D) (z_Name z) w1 = (Inl e', w') \<and> inv w1 \<and> ps w1 = ps w \<and> zs w1 = zs w))"
    "r = Inr z' \<Longrightarrow> ps w' = ps w \<and> stored_as z z' \<and> zs w (z_ID z) = None \<and> (\<exists>row. stored_as z row \<and> zs w' = (zs w)(z_ID z \<mapsto> row))"
    by blast+
qed

end

context zone_env
begin

text \<open>No zone of another tenant overlaps the name, no zone of the tenant has it.\<close>

definition separate :: "zone \<Rightarrow> 'w \<Rightarrow> bool" where
  "separate z w = (\<forall>i y. zs w i = Some y \<longrightarrow>
     (if z_TenantID y = z_TenantID z then z_Name y \<noteq> z_Name z else \<not> Overlaps (z_Name z) (z_Name y)))"

definition created :: "zone \<Rightarrow> 'w \<Rightarrow> 'w \<Rightarrow> bool" where
  "created z w w' = (zone_wf z \<and> separate z w \<and> zs w (z_ID z) = None \<and> ps w (z_Name z) = None \<and>
     (\<exists>row. stored_as z row \<and> zs w' = (zs w)(z_ID z \<mapsto> row)) \<and> (\<exists>p. agrees z p \<and> ps w' = (ps w)(z_Name z \<mapsto> p)))"

text \<open>Nothing changed, or the served zone of a failed insert could not be removed again.\<close>

definition rolled_back :: "'w \<Rightarrow> 'w \<Rightarrow> bool" where
  "rolled_back w w' = (zs w' = zs w \<and> (ps w' = ps w \<or>
     (\<exists>n p w1 w2 e. ps w n = None \<and> ps w' = (ps w)(n \<mapsto> p) \<and> p_DeleteZone (d_PDNS D) n w1 = (Inl e, w2) \<and> inv w1 \<and> ps w1 = ps w')))"

text \<open>A step that changes neither the stored nor the served zones.\<close>

definition still :: "'w \<Rightarrow> 'w \<Rightarrow> bool" where
  "still w w' = (inv w' \<and> zs w' = zs w \<and> ps w' = ps w)"

lemma still_trans: "still w w1 \<Longrightarrow> still w1 w' \<Longrightarrow> still w w'"
  by (simp add: still_def)

lemma still_step [consumes 2]:
  assumes "and_then (map_err h m) f w = (r, w')" and "\<forall>x w1. m w = (x, w1) \<longrightarrow> still w w1"
  obtains (failed) e where "r = Inl e" "still w w'" | (went) x w1 where "m w = (Inr x, w1)" "still w w1" "f x w1 = (r, w')"
  using assms(1)
proof (cases rule: and_thenE)
  case (err e)
  then show ?thesis using failed assms(2) by (auto elim!: map_errE)
next
  case (ok x w1)
  then show ?thesis using went assms(2) by (auto simp: map_err_Inr)
qed

lemma zones_create_steps [consumes 5]:
  assumes laws: "fqdn_law (d_Ext D)" "split_law (d_Ext D)" and inv: "inv w" and t: "s_TenantID s \<noteq> []" and run: "zones_create D s inp w = (r, w')"
  obtains (early) e where "r = Inl e" "still w w'"
  | (served) z c w1 p where "zone_wf z" "z_TenantID z = s_TenantID s" "ZoneName (d_Ext D) (ci_Name inp) = Inr (z_Name z)"
      "separate z w" "ps w (z_Name z) = None" "inv w1" "zs w1 = zs w" "ps w1 = (ps w)(z_Name z \<mapsto> p)" "agrees z p"
      "pz_ID c = z_Name z" "zones_commit D z c w1 = (r, w')"
proof -
  have prep: "still w w1" if "zones_prepare D s inp w = (x, w1)" for x w1
    using prepare_outcome(1-3) [OF laws inv t that] by (simp add: still_def)
  from run show ?thesis unfolding zones_create_def
  proof (cases rule: and_thenE)
    case (err e)
    then show ?thesis using early prep by blast
  next
    case (ok z w1)
    have z: "zone_wf z" "z_TenantID z = s_TenantID s" "ZoneName (d_Ext D) (ci_Name inp) = Inr (z_Name z)"
      and w1: "still w w1"
      using prepare_outcome(4) [OF laws inv t ok(1)] prep [OF ok(1)] by auto
    have low: "lower (d_Ext D) (z_Name z) = z_Name z" using z(1) lower_canonical unfolding zone_wf_def by blast
    have init: "\<forall>x v. zones_initial D z (ci_RRsets inp) w1 = (x, v) \<longrightarrow> still w1 v"
      using initial_outcome [of w1 z "ci_RRsets inp"] w1 by (auto simp: still_def)
    from ok(2) init show ?thesis
    proof (cases rule: still_step)
      case (failed e)
      then show ?thesis using early still_trans [OF w1] by blast
    next
      case (went rs w2)
      then have w2: "still w w2" using still_trans [OF w1] by blast
      then have i2: "inv w2" by (simp add: still_def)
      have own: "\<forall>x v. zones_ownership D z w2 = (x, v) \<longrightarrow> still w2 v"
        using ownership_outcome(1-3) [OF i2, of z] by (auto simp: still_def)
      from went(3) own show ?thesis
      proof (cases rule: still_step)
        case (failed e)
        then show ?thesis using early still_trans [OF w2] by blast
      next
        case (went x w3)
        then have w3: "still w w3" using still_trans [OF w2] by blast
        have sep: "separate z w" "ps w (z_Name z) = None"
          using ownership_outcome(4) [OF i2 went(1) refl, unfolded low] w2 by (simp_all add: separate_def still_def)
        have i3: "inv w3" using w3 by (simp add: still_def)
        from went(3) show ?thesis
        proof (cases rule: and_thenE)
          case (err e)
          then obtain e' where "zones_provision D z rs w3 = (Inl e', w')" by (auto elim: map_errE)
          then have "still w3 w'" using provision_outcome(1-3) [OF i3 z(1)] by (auto simp: still_def)
          then show ?thesis using early err(2) still_trans [OF w3] by blast
        next
          case (ok c w4)
          then have "zones_provision D z rs w3 = (Inr c, w4)" by (simp add: map_err_Inr)
          from provision_outcome(1,2,4) [OF i3 z(1) this] served [OF z sep, of w4] ok(2) w3
          show ?thesis by (auto simp: still_def)
        qed
      qed
    qed
  qed
qed

lemma zones_create_outcome:
  assumes laws: "fqdn_law (d_Ext D)" "split_law (d_Ext D)" and inv: "inv w" and t: "s_TenantID s \<noteq> []" and run: "zones_create D s inp w = (r, w')"
  shows "inv w'" "r = Inl ze \<Longrightarrow> rolled_back w w'"
    "r = Inr z \<Longrightarrow> created z w w' \<and> z_TenantID z = s_TenantID s \<and> ZoneName (d_Ext D) (ci_Name inp) = Inr (z_Name z)"
proof -
  have "inv w' \<and> (r = Inl ze \<longrightarrow> rolled_back w w') \<and>
    (r = Inr z \<longrightarrow> created z w w' \<and> z_TenantID z = s_TenantID s \<and> ZoneName (d_Ext D) (ci_Name inp) = Inr (z_Name z))"
    using laws inv t run
  proof (cases rule: zones_create_steps)
    case (early e)
    then show ?thesis by (simp add: still_def rolled_back_def)
  next
    case (served z0 c w1 q)
    note cm = commit_outcome [OF served(6,1,10,11)]
    have "rolled_back w w'" if "r = Inl ze"
    proof -
      have "(ps w1)(z_Name z0 := None) = ps w" using served(5,8) by auto
      then have "zs w' = zs w \<and> (ps w' = ps w \<or> ps w' = ps w1 \<and>
          (\<exists>v e. p_DeleteZone (d_PDNS D) (z_Name z0) v = (Inl e, w') \<and> inv v \<and> ps v = ps w'))"
        using cm(2) [of "fst ze" "snd ze"] that served(7) by auto
      then show ?thesis using served(5,8) unfolding rolled_back_def by metis
    qed
    moreover have "created z w w' \<and> z_TenantID z = s_TenantID s \<and> ZoneName (d_Ext D) (ci_Name inp) = Inr (z_Name z)" if "r = Inr z"
    proof -
      note d = cm(3) [OF that]
      obtain row where row: "stored_as z0 row" "zs w' = (zs w)(z_ID z0 \<mapsto> row)" using d served(7) by auto
      have s: "stored_as z row" using d row(1) by (auto simp: stored_as_def) blast
      have "zone_wf z" using d served(1) zone_wf_cong(1) by blast
      moreover have "separate z w" "z_Name z = z_Name z0" "z_TenantID z = z_TenantID z0" "z_ID z = z_ID z0" "agrees z q"
        using d served(4,9) by (auto simp: stored_as_def separate_def agrees_def)
      ultimately show ?thesis using d served row s unfolding created_def by auto
    qed
    ultimately show ?thesis using cm(1) by blast
  qed
  then show "inv w'" "r = Inl ze \<Longrightarrow> rolled_back w w'"
    "r = Inr z \<Longrightarrow> created z w w' \<and> z_TenantID z = s_TenantID s \<and> ZoneName (d_Ext D) (ci_Name inp) = Inr (z_Name z)" by blast+
qed


lemma guard_tenant: "zones_guard D s perm = None \<Longrightarrow> s_TenantID s \<noteq> []"
  by (auto simp: zones_guard_def)

lemma zones_audit_frame [simp]:
  "zs (zones_audit D s t i n out e w) = zs w" "ps (zones_audit D s t i n out e w) = ps w"
  "inv w \<Longrightarrow> inv (zones_audit D s t i n out e w)"
  by (simp_all add: zones_audit_def other_frame)

lemmas effects_frame [simp] = other_frame(4-15)

lemma zones_Create_outcome:
  assumes laws: "fqdn_law (d_Ext D)" "split_law (d_Ext D)" and inv: "inv w" and run: "zones_Create D s inp w = (r, w')"
  shows "inv w'" "r = Inl e \<Longrightarrow> rolled_back w w'"
    "r = Inr z \<Longrightarrow> created z w w' \<and> z_TenantID z = s_TenantID s \<and> ZoneName (d_Ext D) (ci_Name inp) = Inr (z_Name z)"
proof -
  have "inv w' \<and> (r = Inl e \<longrightarrow> rolled_back w w') \<and>
    (r = Inr z \<longrightarrow> created z w w' \<and> z_TenantID z = s_TenantID s \<and> ZoneName (d_Ext D) (ci_Name inp) = Inr (z_Name z))"
    using run unfolding zones_Create_def
  proof (cases rule: checkE)
    case passed
    obtain c w1 where c: "zones_create D s inp w = (c, w1)" by fastforce
    note o = zones_create_outcome [OF laws inv guard_tenant [OF passed(1)] c]
    have same: "zs w' = zs w1" "ps w' = ps w1" "inv w'" "r = Inl e \<Longrightarrow> \<exists>z. c = Inl (z, e)" "r = Inr z \<Longrightarrow> c = Inr z"
      using passed(2) c o(1) by (auto simp: on_result_def split: sum.splits)
    then have "rolled_back w w' = rolled_back w w1" "created z w w' = created z w w1"
      by (simp_all add: rolled_back_def created_def)
    then show ?thesis using same(3-5) o(2,3) by auto
  qed (use inv in \<open>simp add: rolled_back_def\<close>)
  then show "inv w'" "r = Inl e \<Longrightarrow> rolled_back w w'"
    "r = Inr z \<Longrightarrow> created z w w' \<and> z_TenantID z = s_TenantID s \<and> ZoneName (d_Ext D) (ci_Name inp) = Inr (z_Name z)" by blast+
qed

subsection \<open>Update\<close>

lemma owned_outcome:
  assumes "inv w" and "zones_owned D s i w = (r, w')"
  shows "still w w'" "r = Inr z \<Longrightarrow> zs w i = Some z \<and> z_TenantID z = s_TenantID s \<and> z_ID z = i"
proof -
  obtain g w1 where g: "r_GetZone (d_Store D) (s_TenantID s) i w = (g, w1)" by fastforce
  have w': "w' = w1" and r: "r = Inr z \<Longrightarrow> g = Inr z"
    using assms(2) g by (auto simp: zones_owned_def on_result_def split: sum.splits if_splits)
  show "still w w'" using run_frame(2) [OF g] run_inv(2) [OF assms(1) g] w' by (simp add: still_def)
  show "r = Inr z \<Longrightarrow> zs w i = Some z \<and> z_TenantID z = s_TenantID s \<and> z_ID z = i"
    using get_done [OF assms(1)] g r keyed_rows [OF assms(1)] by blast
qed

lemma agrees_meta: "agrees z p \<Longrightarrow> with_meta (with_meta p m) (metadata z) = p"
  by (simp add: with_meta_def metadata_def agrees_def)

lemma merged_agrees:
  assumes "agrees prev p" and "z_Name next = z_Name prev" "z_TenantID next = z_TenantID prev" and "merged prev next z'"
  shows "agrees z' (with_meta p (metadata next))" "\<not> metaChanged prev next \<Longrightarrow> agrees z' p"
  using assms by (auto simp: agrees_def with_meta_def metadata_def merged_def metaChanged_def)

text \<open>
  The outcome of an update of an owned zone \<open>prev\<close>: saved with the served metadata
  following, or refused with the stored zone unchanged and the served metadata
  unchanged, restored, or (when the restoring call fails too) left at the new value.
\<close>

definition updated :: "zone \<Rightarrow> zone \<Rightarrow> zone \<Rightarrow> 'w \<Rightarrow> 'w \<Rightarrow> bool" where
  "updated prev next z' w w' = (merged prev next z' \<and> zs w' = (zs w)(z_ID prev \<mapsto> z') \<and>
     (if metaChanged prev next
      then \<exists>p. ps w (z_PDNSID prev) = Some p \<and> ps w' = (ps w)(z_PDNSID prev \<mapsto> with_meta p (metadata next))
      else ps w' = ps w))"

definition not_updated :: "zone \<Rightarrow> 'w \<Rightarrow> 'w \<Rightarrow> bool" where
  "not_updated prev w w' = (zs w' = zs w \<and> (ps w' = ps w \<or> (\<exists>p next. ps w (z_PDNSID prev) = Some p \<and>
     (ps w' = (ps w)(z_PDNSID prev \<mapsto> with_meta (with_meta p (metadata next)) (metadata prev)) \<or>
      ps w' = (ps w)(z_PDNSID prev \<mapsto> with_meta p (metadata next)) \<and>
      (\<exists>w1 w2 e. p_UpdateZoneMetadata (d_PDNS D) (z_PDNSID prev) (metadata prev) w1 = (Inl e, w2) \<and> inv w1 \<and> ps w1 = ps w')))))"

text \<open>The write of the row failed: the served metadata is put back, unless that call fails too.\<close>

definition unsaved :: "zone \<Rightarrow> zone \<Rightarrow> 'w \<Rightarrow> 'w \<Rightarrow> bool" where
  "unsaved prev next w w' = (zs w' = zs w \<and> (if metaChanged prev next
       then (\<exists>p. ps w (z_PDNSID prev) = Some p \<and> ps w' = (ps w)(z_PDNSID prev \<mapsto> with_meta p (metadata prev))) \<or>
         ps w' = ps w \<and> (\<exists>w1 w2 e. p_UpdateZoneMetadata (d_PDNS D) (z_PDNSID prev) (metadata prev) w1 = (Inl e, w2) \<and> inv w1 \<and> ps w1 = ps w)
       else ps w' = ps w))"

lemma save_outcome:
  assumes inv: "inv w" and own: "zs w (z_ID prev) = Some prev" and wf: "zone_wf prev"
    and n: "z_ID next = z_ID prev" and run: "zones_save D prev next w = (r, w')"
  shows "inv w'" "r = Inr z' \<Longrightarrow> merged prev next z' \<and> zs w' = (zs w)(z_ID prev \<mapsto> z') \<and> ps w' = ps w"
    "r = Inl e \<Longrightarrow> unsaved prev next w w'"
proof -
  define x where "x = next\<lparr>z_UpdatedAt := d_Now D w\<rparr>"
  obtain g w1 where g: "r_UpdateZone (d_Store D) x w = (g, w1)" by fastforce
  have f1: "inv w1" "ps w1 = ps w" using run_inv(6) [OF inv g] run_frame(7) [OF g] by auto
  have k: "pz_Kind (metadata prev) \<noteq> []" "pz_Account (metadata prev) \<noteq> []"
    using wf PDNSKind_nonempty by (auto simp: metadata_def zone_wf_def)
  obtain m w2 where m: "p_UpdateZoneMetadata (d_PDNS D) (z_PDNSID prev) (metadata prev) w1 = (m, w2)" by fastforce
  have "inv w' \<and> (r = Inr z' \<longrightarrow> merged prev next z' \<and> zs w' = (zs w)(z_ID prev \<mapsto> z') \<and> ps w' = ps w) \<and>
    (r = Inl e \<longrightarrow> unsaved prev next w w')"
  proof (cases g)
    case (Inl ge)
    have z: "zs w1 = zs w" using update_failed inv g Inl by blast
    show ?thesis
    proof (cases "metaChanged prev next")
      case True
      have w': "w' = w2" "\<exists>e. r = Inl e" using run g Inl True m by (auto simp: zones_save_def x_def [symmetric] on_result_def)
      have zw: "zs w2 = zs w" "inv w2" using run_frame(11) [OF m] run_inv(10) [OF f1(1) m] z by auto
      show ?thesis
      proof (cases m)
        case (Inl e2)
        have "ps w2 = ps w" using server_update_failed m Inl f1(2) by auto
        then show ?thesis using w' zw True m Inl f1 by (auto simp: unsaved_def)
      next
        case (Inr y)
        then show ?thesis using w' zw True server_update [OF m [unfolded Inr] k] f1(2) by (auto simp: unsaved_def)
      qed
    next
      case False
      then have "w' = w1" "\<exists>e. r = Inl e" using run g Inl by (auto simp: zones_save_def x_def [symmetric] on_result_def)
      then show ?thesis using False f1 z by (auto simp: unsaved_def)
    qed
  next
    case (Inr y)
    have w': "w' = w1" "r = Inr y" using run g Inr by (auto simp: zones_save_def x_def [symmetric] on_result_def)
    obtain cur where cur: "zs w (z_ID x) = Some cur" "merged cur x y" "zs w1 = (zs w)(z_ID x \<mapsto> y)"
      using update_done [OF inv g [unfolded Inr]] by blast
    have "cur = prev" "z_ID x = z_ID prev" using cur(1) own n by (auto simp: x_def)
    moreover have "merged prev next y" using cur(2) calculation by (auto simp: merged_def x_def)
    ultimately show ?thesis using w' cur(3) f1 by auto
  qed
  then show "inv w'" "r = Inr z' \<Longrightarrow> merged prev next z' \<and> zs w' = (zs w)(z_ID prev \<mapsto> z') \<and> ps w' = ps w"
    "r = Inl e \<Longrightarrow> unsaved prev next w w'" by blast+
qed


lemma update_outcome:
  assumes inv: "inv w" and own: "zs w (z_ID prev) = Some prev" and wf: "zone_wf prev" and run: "zones_update D prev inp w = (r, w')"
  shows "inv w'" "r = Inl e \<Longrightarrow> not_updated prev w w'"
    "r = Inr z' \<Longrightarrow> \<exists>nx. zones_next (d_Ext D) prev inp = Inr nx \<and> updated prev nx z' w w'"
proof -
  have "inv w' \<and> (r = Inl e \<longrightarrow> not_updated prev w w') \<and>
    (r = Inr z' \<longrightarrow> (\<exists>nx. zones_next (d_Ext D) prev inp = Inr nx \<and> updated prev nx z' w w'))"
  proof (cases "zones_next (d_Ext D) prev inp")
    case (Inl x)
    then show ?thesis using run inv by (auto simp: zones_update_def and_then_def lift_res_def not_updated_def)
  next
    case (Inr nx)
    note n = zones_next_ok [OF Inr]
    show ?thesis
    proof (cases "metaChanged prev nx")
      case False
      then have s: "zones_save D prev nx w = (r, w')"
        using run Inr by (simp add: zones_update_def and_then_def lift_res_def)
      show ?thesis using save_outcome [OF inv own wf n(4) s] False Inr
        by (auto simp: updated_def not_updated_def unsaved_def)
    next
      case True
      obtain m w1 where m: "p_UpdateZoneMetadata (d_PDNS D) (z_PDNSID prev) (metadata nx) w = (m, w1)" by fastforce
      have f1: "zs w1 = zs w" "inv w1" using run_frame(11) [OF m] run_inv(10) [OF inv m] by auto
      show ?thesis
      proof (cases m)
        case (Inl x)
        then have "r = Inl (mapPDNS x)" "w' = w1"
          using run Inr True m by (auto simp: zones_update_def and_then_def lift_res_def map_err_def Inr)
        then show ?thesis using server_update_failed m Inl f1 by (auto simp: not_updated_def)
      next
        case (Inr y)
        have s: "zones_save D prev nx w1 = (r, w')"
          using run \<open>zones_next _ _ _ = _\<close> True m Inr by (simp add: zones_update_def and_then_def lift_res_def map_err_def)
        have k: "pz_Kind (metadata nx) \<noteq> []" "pz_Account (metadata nx) \<noteq> []"
          using n(5) [OF wf] PDNSKind_nonempty by (auto simp: metadata_def zone_wf_def)
        obtain p where p: "ps w (z_PDNSID prev) = Some p" "ps w1 = (ps w)(z_PDNSID prev \<mapsto> with_meta p (metadata nx))"
          using server_update [OF m [unfolded Inr] k] by blast
        have own1: "zs w1 (z_ID prev) = Some prev" using own f1(1) by simp
        note sv = save_outcome [OF f1(2) own1 wf n(4) s]
        have "not_updated prev w w'" if "r = Inl e"
        proof -
          have "zs w' = zs w \<and> (ps w' = (ps w)(z_PDNSID prev \<mapsto> with_meta (with_meta p (metadata nx)) (metadata prev)) \<or>
              ps w' = (ps w)(z_PDNSID prev \<mapsto> with_meta p (metadata nx)) \<and>
              (\<exists>w1 w2 e. p_UpdateZoneMetadata (d_PDNS D) (z_PDNSID prev) (metadata prev) w1 = (Inl e, w2) \<and> inv w1 \<and> ps w1 = ps w'))"
            using sv(3) [OF that] True f1(1) p by (auto simp: unsaved_def) blast
          then show ?thesis unfolding not_updated_def using p(1) by blast
        qed
        moreover have "updated prev nx z' w w'" if "r = Inr z'"
          using sv(2) [OF that] True f1(1) p unfolding updated_def by auto
        ultimately show ?thesis using sv(1) \<open>zones_next _ _ _ = _\<close> by blast
      qed
    qed
  qed
  then show "inv w'" "r = Inl e \<Longrightarrow> not_updated prev w w'"
    "r = Inr z' \<Longrightarrow> \<exists>nx. zones_next (d_Ext D) prev inp = Inr nx \<and> updated prev nx z' w w'" by blast+
qed

subsection \<open>Delete\<close>

definition not_deleted :: "zone \<Rightarrow> 'w \<Rightarrow> 'w \<Rightarrow> bool" where
  "not_deleted z w w' = (zs w' = zs w \<and> (ps w' = ps w \<or> ps w' = (ps w)(z_PDNSID z := None)))"

lemma delete_outcome:
  assumes inv: "inv w" and run: "zones_delete D z w = (r, w')"
  shows "inv w'" "r = Inl e \<Longrightarrow> not_deleted z w w'"
    "r = Inr x \<Longrightarrow> zs w' = (zs w)(z_ID z := None) \<and> ps w' = (ps w)(z_PDNSID z := None)"
proof -
  obtain d w1 where d: "p_DeleteZone (d_PDNS D) (z_PDNSID z) w = (d, w1)" by fastforce
  have f1: "zs w1 = zs w" "inv w1" using run_frame(12) [OF d] run_inv(11) [OF inv d] by auto
  define go where "go = effect (removeForward D (z_Name z)) (and_then (r_ClearSyncZone (d_Store D) (z_TenantID z) (z_ID z)) (\<lambda>_.
    r_DeleteZone (d_Store D) (z_TenantID z) (z_ID z)))"
  have g: "inv v' \<and> ps v' = ps v \<and> (case q of Inl _ \<Rightarrow> zs v' = zs v | Inr _ \<Rightarrow> zs v' = (zs v)(z_ID z := None))"
    if "inv v" "go v = (q, v')" for v q v'
  proof -
    let ?v = "removeForward D (z_Name z) v"
    have v: "inv ?v" "zs ?v = zs v" "ps ?v = ps v" using that(1) by simp_all
    obtain c v1 where c: "r_ClearSyncZone (d_Store D) (z_TenantID z) (z_ID z) ?v = (c, v1)" by fastforce
    obtain e v2 where e: "r_DeleteZone (d_Store D) (z_TenantID z) (z_ID z) v1 = (e, v2)" by fastforce
    have v1: "inv v1" "zs v1 = zs v" "ps v1 = ps v" using run_frame(6) [OF c] run_inv(5) [OF v(1) c] v by auto
    have v2: "inv v2" "ps v2 = ps v" using run_frame(8) [OF e] run_inv(7) [OF v1(1) e] v1 by auto
    have "case e of Inl _ \<Rightarrow> zs v2 = zs v | Inr _ \<Rightarrow> zs v2 = (zs v)(z_ID z := None)"
      using delete_failed [OF v1(1)] delete_done [OF v1(1)] e v1(2) by (cases e) auto
    then show ?thesis using that(2) c e v1 v2 by (cases c) (auto simp: go_def and_then_def)
  qed
  have "inv w' \<and> (r = Inl e \<longrightarrow> not_deleted z w w') \<and>
    (r = Inr x \<longrightarrow> zs w' = (zs w)(z_ID z := None) \<and> ps w' = (ps w)(z_PDNSID z := None))"
  proof (cases "\<exists>x. d = Inl x \<and> \<not> errIs x pdns_ErrNotFound")
    case True
    then show ?thesis using run d f1 server_delete_failed [OF inv]
      by (auto simp: zones_delete_def on_result_def Let_def not_deleted_def)
  next
    case False
    then have "ps w1 = (ps w)(z_PDNSID z := None)"
      using d server_delete [of "z_PDNSID z" w _ w1] server_delete_failed [OF inv, of "z_PDNSID z" _ w1] by (cases d) (auto simp: fun_upd_idem)
    moreover have "go w1 = (r, w')"
      using run d False by (auto simp: zones_delete_def on_result_def Let_def go_def split: sum.splits)
    ultimately show ?thesis using g [OF f1(2)] f1(1) by (cases r) (fastforce simp: not_deleted_def)+
  qed
  then show "inv w'" "r = Inl e \<Longrightarrow> not_deleted z w w'"
    "r = Inr x \<Longrightarrow> zs w' = (zs w)(z_ID z := None) \<and> ps w' = (ps w)(z_PDNSID z := None)" by blast+
qed

end

context zone_env
begin

subsection \<open>The service operations\<close>

text \<open>Zones of different tenants are disjoint name spaces, and every stored zone is well formed.\<close>

definition disjoint :: "'w \<Rightarrow> bool" where
  "disjoint w = (\<forall>i j y z. zs w i = Some y \<and> zs w j = Some z \<and> z_TenantID y \<noteq> z_TenantID z \<longrightarrow> \<not> Overlaps (z_Name y) (z_Name z))"

definition well :: "'w \<Rightarrow> bool" where
  "well w = (\<forall>i z. zs w i = Some z \<longrightarrow> zone_wf z)"

text \<open>Every stored zone is served with the stored metadata.\<close>

definition synced :: "'w \<Rightarrow> bool" where
  "synced w = (\<forall>i z. zs w i = Some z \<longrightarrow> (\<exists>p. ps w (z_PDNSID z) = Some p \<and> agrees z p))"

definition zones_sound :: "'w \<Rightarrow> bool" where
  "zones_sound w = (inv w \<and> disjoint w \<and> well w)"

lemma zones_Update_outcome:
  assumes inv: "inv w" and wf: "well w" and run: "zones_Update D s i inp w = (r, w')"
  shows "inv w'"
    "r = Inl e \<Longrightarrow> still w w' \<or> (\<exists>prev. zs w i = Some prev \<and> z_TenantID prev = s_TenantID s \<and> not_updated prev w w')"
    "r = Inr z' \<Longrightarrow> \<exists>prev nx. zs w i = Some prev \<and> z_TenantID prev = s_TenantID s \<and>
       zones_next (d_Ext D) prev inp = Inr nx \<and> updated prev nx z' w w'"
proof -
  have "inv w' \<and> (r = Inl e \<longrightarrow> still w w' \<or> (\<exists>prev. zs w i = Some prev \<and> z_TenantID prev = s_TenantID s \<and> not_updated prev w w')) \<and>
    (r = Inr z' \<longrightarrow> (\<exists>prev nx. zs w i = Some prev \<and> z_TenantID prev = s_TenantID s \<and>
       zones_next (d_Ext D) prev inp = Inr nx \<and> updated prev nx z' w w'))"
    using run unfolding zones_Update_def
  proof (cases rule: checkE)
    case passed
    from passed(2) show ?thesis
    proof (cases rule: and_thenE)
      case (err x)
      then show ?thesis using owned_outcome(1) [OF inv err(1)] by (simp add: still_def)
    next
      case (ok prev w1)
      have o: "zs w i = Some prev" "z_TenantID prev = s_TenantID s" "z_ID prev = i" and w1: "inv w1" "zs w1 = zs w" "ps w1 = ps w"
        using owned_outcome [OF inv ok(1)] by (auto simp: still_def)
      obtain u w2 where u: "zones_update D prev inp w1 = (u, w2)" by fastforce
      have same: "zs w' = zs w2" "ps w' = ps w2" "inv w2 \<Longrightarrow> inv w'" "r = u"
        using ok(2) u by (auto simp: on_result_def split: sum.splits)
      have own1: "zs w1 (z_ID prev) = Some prev" using o w1 by simp
      have "zone_wf prev" using wf o(1) by (simp add: well_def)
      note up = update_outcome [OF w1(1) own1 this u]
      have "not_updated prev w w'" if "r = Inl e"
        using up(2) that same(1,2,4) w1 by (simp add: not_updated_def)
      moreover have "\<exists>nx. zones_next (d_Ext D) prev inp = Inr nx \<and> updated prev nx z' w w'" if "r = Inr z'"
      proof -
        have "updated prev nx z' w w' = updated prev nx z' w1 w2" for nx unfolding updated_def same(1,2) w1(2,3) ..
        then show ?thesis using up(3) that same(4) by simp
      qed
      ultimately show ?thesis using up(1) same(3) o(1,2) by blast
    qed
  qed (use inv in \<open>simp add: still_def\<close>)
  then show "inv w'"
    "r = Inl e \<Longrightarrow> still w w' \<or> (\<exists>prev. zs w i = Some prev \<and> z_TenantID prev = s_TenantID s \<and> not_updated prev w w')"
    "r = Inr z' \<Longrightarrow> \<exists>prev nx. zs w i = Some prev \<and> z_TenantID prev = s_TenantID s \<and>
       zones_next (d_Ext D) prev inp = Inr nx \<and> updated prev nx z' w w'" by blast+
qed

lemma zones_Delete_outcome:
  assumes inv: "inv w" and run: "zones_Delete D s i w = (r, w')"
  shows "inv w'"
    "r = Inl e \<Longrightarrow> still w w' \<or> (\<exists>z. zs w i = Some z \<and> z_TenantID z = s_TenantID s \<and> not_deleted z w w')"
    "r = Inr x \<Longrightarrow> \<exists>z. zs w i = Some z \<and> z_TenantID z = s_TenantID s \<and>
       zs w' = (zs w)(i := None) \<and> ps w' = (ps w)(z_PDNSID z := None)"
proof -
  have "inv w' \<and> (r = Inl e \<longrightarrow> still w w' \<or> (\<exists>z. zs w i = Some z \<and> z_TenantID z = s_TenantID s \<and> not_deleted z w w')) \<and>
    (r = Inr x \<longrightarrow> (\<exists>z. zs w i = Some z \<and> z_TenantID z = s_TenantID s \<and>
       zs w' = (zs w)(i := None) \<and> ps w' = (ps w)(z_PDNSID z := None)))"
    using run unfolding zones_Delete_def
  proof (cases rule: checkE)
    case passed
    from passed(2) show ?thesis
    proof (cases rule: and_thenE)
      case (err x)
      then show ?thesis using owned_outcome(1) [OF inv err(1)] by (simp add: still_def)
    next
      case (ok z w1)
      have o: "zs w i = Some z" "z_TenantID z = s_TenantID s" "z_ID z = i" and w1: "inv w1" "zs w1 = zs w" "ps w1 = ps w"
        using owned_outcome [OF inv ok(1)] by (auto simp: still_def)
      obtain u w2 where u: "zones_delete D z w1 = (u, w2)" by fastforce
      have same: "zs w' = zs w2" "ps w' = ps w2" "inv w2 \<Longrightarrow> inv w'" "r = Inl e \<Longrightarrow> u = Inl e" "r = Inr x \<Longrightarrow> u = Inr ()"
        using ok(2) u by (auto simp: on_result_def split: sum.splits)
      note up = delete_outcome [OF w1(1) u]
      have "not_deleted z w w'" if "r = Inl e"
        using up(2) [OF same(4) [OF that]] same(1,2) w1 by (simp add: not_deleted_def)
      moreover have "zs w' = (zs w)(i := None) \<and> ps w' = (ps w)(z_PDNSID z := None)" if "r = Inr x"
        using up(3) [OF same(5) [OF that]] same(1,2) w1 o(3) by simp
      ultimately show ?thesis using up(1) same(3) o(1,2) by blast
    qed
  qed (use inv in \<open>simp add: still_def\<close>)
  then show "inv w'"
    "r = Inl e \<Longrightarrow> still w w' \<or> (\<exists>z. zs w i = Some z \<and> z_TenantID z = s_TenantID s \<and> not_deleted z w w')"
    "r = Inr x \<Longrightarrow> \<exists>z. zs w i = Some z \<and> z_TenantID z = s_TenantID s \<and>
       zs w' = (zs w)(i := None) \<and> ps w' = (ps w)(z_PDNSID z := None)" by blast+
qed

subsection \<open>Invariants of the zone lifecycle\<close>

lemma Overlaps_sym: "Overlaps a b = Overlaps b a"
  by (auto simp: Overlaps_def)

lemma created_sound:
  assumes "zones_sound w" "inv w'" "created z w w'"
  shows "zones_sound w'"
proof -
  obtain row where row: "stored_as z row" "zs w' = (zs w)(z_ID z \<mapsto> row)" using assms(3) unfolding created_def by blast
  have r: "z_TenantID row = z_TenantID z" "z_Name row = z_Name z" "zone_wf row"
    using row(1) zone_wf_cong(1) assms(3) by (auto simp: stored_as_def created_def)
  have sep: "\<not> Overlaps (z_Name row) (z_Name y)" "\<not> Overlaps (z_Name y) (z_Name row)"
    if "zs w i = Some y" "z_TenantID y \<noteq> z_TenantID row" for i y
    using assms(3) that r Overlaps_sym [of "z_Name y"] unfolding created_def separate_def by metis+
  show ?thesis
    using assms(1,2) r(3) sep unfolding zones_sound_def disjoint_def well_def row(2)
    by (auto split: if_splits)
qed

lemma row_change_sound:
  assumes s: "zones_sound w" and "inv w'" and own: "zs w i = Some prev" and z': "zs w' = (zs w)(i \<mapsto> z')"
    and "z_TenantID z' = z_TenantID prev" "z_Name z' = z_Name prev" "zone_wf z'"
  shows "zones_sound w'"
  using assms unfolding zones_sound_def disjoint_def well_def z' by (auto split: if_splits)

lemma sound_cong: "zones_sound w \<Longrightarrow> inv w' \<Longrightarrow> zs w' = zs w \<Longrightarrow> zones_sound w'"
  unfolding zones_sound_def disjoint_def well_def by metis

lemma keeps_zones_Create:
  assumes laws: "fqdn_law (d_Ext D)" "split_law (d_Ext D)"
  shows "keeps zones_sound (zones_Create D s inp)"
proof (rule keepsI)
  fix w r w' assume run: "zones_Create D s inp w = (r, w')" and w: "zones_sound w"
  then have "inv w" by (simp add: zones_sound_def)
  note o = zones_Create_outcome [OF laws this run]
  show "zones_sound w'"
  proof (cases r)
    case (Inl e)
    then show ?thesis using o(1) o(2) sound_cong [OF w] by (auto simp: rolled_back_def)
  next
    case (Inr z)
    then show ?thesis using o(1,3) created_sound [OF w] by blast
  qed
qed

lemma keeps_zones_Update: "keeps zones_sound (zones_Update D s i inp)"
proof (rule keepsI)
  fix w r w' assume run: "zones_Update D s i inp w = (r, w')" and w: "zones_sound w"
  then have inv: "inv w" and wf: "well w" by (auto simp: zones_sound_def)
  note o = zones_Update_outcome [OF inv wf run]
  show "zones_sound w'"
  proof (cases r)
    case (Inl e)
    then show ?thesis using o(1,2) sound_cong [OF w] by (auto simp: still_def not_updated_def)
  next
    case (Inr z')
    then obtain prev nx where p: "zs w i = Some prev" "zones_next (d_Ext D) prev inp = Inr nx" "updated prev nx z' w w'"
      using o(3) by blast
    have m: "merged prev nx z'" "zs w' = (zs w)(i \<mapsto> z')" using p keyed_rows [OF inv p(1)] by (auto simp: updated_def)
    have "zone_wf prev" using wf p(1) by (simp add: well_def)
    then have "zone_wf z'" using zone_wf_cong(2) [OF _ zones_next_ok(5) [OF p(2)] m(1)] by blast
    then show ?thesis using row_change_sound [OF w o(1) p(1) m(2)] m(1) by (simp add: merged_def) (elim exE, simp)
  qed
qed

lemma keeps_zones_Delete: "keeps zones_sound (zones_Delete D s i)"
proof (rule keepsI)
  fix w r w' assume run: "zones_Delete D s i w = (r, w')" and w: "zones_sound w"
  then have "inv w" by (simp add: zones_sound_def)
  note o = zones_Delete_outcome [OF this run]
  show "zones_sound w'"
  proof (cases r)
    case (Inl e)
    then show ?thesis using o(1,2) sound_cong [OF w] by (auto simp: still_def not_deleted_def)
  next
    case (Inr x)
    then have "zs w' = (zs w)(i := None)" using o(3) by blast
    then show ?thesis using o(1) w by (auto simp: zones_sound_def disjoint_def well_def split: if_splits)
  qed
qed

end

context zone_env
begin

lemma synced_other:
  assumes "synced w" "zs w i = Some z" "ps w' = (ps w)(n := q)" "z_PDNSID z \<noteq> n"
  shows "\<exists>p. ps w' (z_PDNSID z) = Some p \<and> agrees z p"
  using assms by (simp add: synced_def)

lemma synced_created:
  assumes s: "synced w" and c: "created z w w'"
  shows "synced w'"
proof -
  obtain row p where row: "stored_as z row" "zs w' = (zs w)(z_ID z \<mapsto> row)" and p: "agrees z p" "ps w' = (ps w)(z_Name z \<mapsto> p)"
    and new: "ps w (z_Name z) = None" and wf: "zone_wf z" using c unfolding created_def by blast
  have "agrees row p" "z_PDNSID row = z_Name z" using row(1) p(1) wf by (auto simp: stored_as_def agrees_def zone_wf_def)
  moreover have "z_PDNSID y \<noteq> z_Name z" if "zs w i = Some y" for i y using s that new by (fastforce simp: synced_def)
  ultimately show ?thesis
    using row(2) p(2) synced_other [OF s _ p(2)] unfolding synced_def row(2) by (auto split: if_splits)
qed

lemma synced_rolled_back:
  assumes s: "synced w" and "rolled_back w w'"
  shows "synced w'"
proof -
  have z: "zs w' = zs w" and p: "ps w' = ps w \<or> (\<exists>n p. ps w n = None \<and> ps w' = (ps w)(n \<mapsto> p))"
    using assms(2) unfolding rolled_back_def by blast+
  from p show ?thesis
  proof (elim disjE exE conjE)
    fix n p assume n: "ps w n = None" and p: "ps w' = (ps w)(n \<mapsto> p)"
    have "z_PDNSID y \<noteq> n" if "zs w i = Some y" for i y using s that n by (fastforce simp: synced_def)
    then show ?thesis using synced_other [OF s _ p] z by (simp add: synced_def)
  qed (use s z in \<open>simp add: synced_def\<close>)
qed

lemma synced_Create:
  assumes laws: "fqdn_law (d_Ext D)" "split_law (d_Ext D)" and "inv w" "synced w" and run: "zones_Create D s inp w = (r, w')"
  shows "synced w'"
  using zones_Create_outcome(2,3) [OF laws assms(3) run] synced_created [OF assms(4)] synced_rolled_back [OF assms(4)]
  by (cases r) auto

lemma synced_updated:
  assumes i: "inv w" and s: "synced w" and own: "zs w (z_ID prev) = Some prev" and nx: "zones_next (d_Ext D) prev inp = Inr nx"
    and u: "updated prev nx z' w w'"
  shows "synced w'"
proof -
  have z: "merged prev nx z'" "zs w' = (zs w)(z_ID prev \<mapsto> z')" using u by (auto simp: updated_def)
  have id: "z_PDNSID z' = z_PDNSID prev" using z(1) by (auto simp: merged_def)
  obtain p where p: "ps w (z_PDNSID prev) = Some p" "agrees prev p" using s own by (auto simp: synced_def)
  have other: "z_PDNSID y \<noteq> z_PDNSID prev" if "zs w j = Some y" "j \<noteq> z_ID prev" for j y
    using unique_rows [OF i that(1) own] that(2) by blast
  have ps': "ps w' = (ps w)(z_PDNSID prev \<mapsto> (if metaChanged prev nx then with_meta p (metadata nx) else p))"
    using u p(1) unfolding updated_def by (auto simp: fun_upd_idem split: if_splits)
  moreover have "agrees z' (if metaChanged prev nx then with_meta p (metadata nx) else p)"
    using merged_agrees [OF p(2) _ _ z(1)] zones_next_ok(1,3) [OF nx] by simp
  ultimately show ?thesis
    using synced_other [OF s _ ps'] other id unfolding synced_def z(2) by (auto split: if_splits)
qed

lemma not_updated_synced:
  assumes s: "synced w" and own: "zs w i = Some prev" and n: "not_updated prev w w'"
  shows "zs w' = zs w" "ps w' = ps w \<or> (\<exists>w1 w2 e. p_UpdateZoneMetadata (d_PDNS D) (z_PDNSID prev) (metadata prev) w1 = (Inl e, w2) \<and> inv w1 \<and> ps w1 = ps w')"
proof -
  obtain p where p: "ps w (z_PDNSID prev) = Some p" "agrees prev p" using s own by (auto simp: synced_def)
  show "zs w' = zs w" using n by (simp add: not_updated_def)
  show "ps w' = ps w \<or> (\<exists>w1 w2 e. p_UpdateZoneMetadata (d_PDNS D) (z_PDNSID prev) (metadata prev) w1 = (Inl e, w2) \<and> inv w1 \<and> ps w1 = ps w')"
    using n p agrees_meta [OF p(2)] unfolding not_updated_def by (auto simp: fun_upd_idem)
qed

lemma synced_deleted:
  assumes i: "inv w" and s: "synced w" and own: "zs w j = Some z"
    and "zs w' = (zs w)(j := None)" "ps w' = (ps w)(z_PDNSID z := None)"
  shows "synced w'"
  using assms(4) synced_other [OF s _ assms(5)] unique_rows [OF i _ own] unfolding synced_def by (fastforce split: if_splits)

subsection \<open>Reads\<close>

lemma still_refl: "inv w \<Longrightarrow> still w w"
  by (simp add: still_def)

lemma read_outcomes:
  assumes inv: "inv w"
  shows "zones_Owned D s i w = (a, w') \<Longrightarrow> still w w'"
    and "zones_Get D s i w = (b, w') \<Longrightarrow> still w w'"
    and "zones_ByName D s n w = (c, w') \<Longrightarrow> still w w'"
    and "zones_FindForName D s n w = (c, w') \<Longrightarrow> still w w'"
    and "zones_Export D s i w = (d, w') \<Longrightarrow> still w w'"
proof -
  have o: "zones_Owned D s i w = (a, w') \<Longrightarrow> still w w'" for a w'
    unfolding zones_Owned_def using owned_outcome(1) [OF inv] inv by (auto elim!: checkE simp: still_refl)
  then show "zones_Owned D s i w = (a, w') \<Longrightarrow> still w w'" .
  have g: "p_GetZone (d_PDNS D) j v = (x, v') \<Longrightarrow> still w v \<Longrightarrow> still w v'" for j v x v'
    using run_frame(9) run_inv(8) by (fastforce simp: still_def)
  show "zones_Get D s i w = (b, w') \<Longrightarrow> still w w'"
    unfolding zones_Get_def by (auto elim!: and_thenE on_resultE dest!: o intro: g split: sum.splits)
  have b: "r_GetZoneByName (d_Store D) t n w = (x, v') \<Longrightarrow> still w v'" for t n x v'
    using run_frame(3) run_inv(3) [OF inv] by (fastforce simp: still_def)
  show "zones_ByName D s n w = (c, w') \<Longrightarrow> still w w'"
    unfolding zones_ByName_def using inv
    by (auto elim!: checkE on_resultE dest!: b simp: still_refl split: sum.splits option.splits if_splits)
  have l: "r_ZonesForTenant (d_Store D) t w = (x, v') \<Longrightarrow> still w v'" for t x v'
    using run_frame(5) keepsE [OF store_inv(7) _ inv] by (fastforce simp: still_def)
  show "zones_FindForName D s n w = (c, w') \<Longrightarrow> still w w'"
    unfolding zones_FindForName_def using inv
    by (auto elim!: checkE and_thenE dest!: l simp: still_refl split: sum.splits option.splits)
  have x: "p_ExportZone (d_PDNS D) j v = (x, v') \<Longrightarrow> still w v \<Longrightarrow> still w v'" for j v x v'
    using run_frame(14) keepsE [OF server_inv(6)] by (fastforce simp: still_def)
  have a: "still w v \<Longrightarrow> still w (zones_audit D s t j m out e v)" for v t j m out e by (simp add: still_def)
  assume "zones_Export D s i w = (d, w')"
  then show "still w w'" unfolding zones_Export_def
  proof (cases rule: checkE)
    case passed
    from passed(2) show ?thesis
    proof (cases rule: and_thenE)
      case (ok z v)
      obtain r0 v' where e: "p_ExportZone (d_PDNS D) (z_PDNSID z) v = (r0, v')" by fastforce
      show ?thesis
        using ok(2) e a [OF x [OF e owned_outcome(1) [OF inv ok(1)]]]
        by (auto simp: on_result_def Let_def split: sum.splits if_splits)
    qed (use owned_outcome(1) [OF inv] in blast)
  qed (use inv in \<open>simp add: still_refl\<close>)
qed

lemma keeps_zones_Notify: "keeps zones_sound (zones_Notify D s i)"
proof (rule keepsI)
  fix w r w' assume run: "zones_Notify D s i w = (r, w')" and w: "zones_sound w"
  then have inv: "inv w" by (simp add: zones_sound_def)
  have "inv v' \<and> zs v' = zs v" if "p_NotifyZone (d_PDNS D) j v = (x, v')" "inv v" for j v x v'
    using run_frame(13) [OF that(1)] keepsE [OF server_inv(5) that(1,2)] by simp
  then have "inv w' \<and> zs w' = zs w"
    using run owned_outcome(1) [OF inv] inv unfolding zones_Notify_def
    by (auto simp: still_def elim!: checkE and_thenE on_resultE map_errE split: sum.splits if_splits)
  then show "zones_sound w'" using sound_cong [OF w] by blast
qed

lemma keeps_still: "(\<And>w r w'. inv w \<Longrightarrow> m w = (r, w') \<Longrightarrow> still w w') \<Longrightarrow> keeps zones_sound m"
  by (rule keepsI) (meson sound_cong still_def zones_sound_def)

lemma keeps_zones_reads:
  "keeps zones_sound (zones_Owned D s i)" "keeps zones_sound (zones_Get D s i)" "keeps zones_sound (zones_ByName D s n)"
  "keeps zones_sound (zones_FindForName D s n)" "keeps zones_sound (zones_Export D s i)"
  by (rule keeps_still, erule (1) read_outcomes)+

end

end
