(* ===== verification/Validate_Records.thy ===== *)
theory Validate_Records
  imports Validate_Names Pdns_Types
begin

text \<open>
  Validation of record content and record sets,
  \<^verbatim>\<open>internal/validate/content.go\<close> and \<^verbatim>\<open>internal/validate/recordset.go\<close>.
  A \<open>RecordError\<close> carries the field it names; its text is not modelled.
\<close>

section \<open>Types and scanning\<close>

definition MaxContent :: nat where "MaxContent = 4096"

definition EditableTypes :: "string list" where
  "EditableTypes = [''A'', ''AAAA'', ''CNAME'', ''MX'', ''NS'', ''PTR'', ''SRV'', ''TXT'', ''CAA'',
     ''DS'', ''DNSKEY'', ''TLSA'', ''SSHFP'', ''SPF'', ''NAPTR'']"

definition Editable :: "ext \<Rightarrow> string \<Rightarrow> bool" where
  "Editable L t = (let t' = upper L t in list_ex (\<lambda>e. e = t') EditableTypes)"

definition editableType :: "ext \<Rightarrow> string \<Rightarrow> string res" where
  "editableType L s = (let t = upper L (TrimSpace s) in
     if t = ''SOA'' then Inl (RecordError ''type'')
     else if \<not> Editable L t then Inl (RecordError ''type'')
     else Inr t)"

definition directives :: "string list" where
  "directives = [''$include'', ''$origin'', ''$ttl'', ''$generate'']"

definition hasDirective :: "ext \<Rightarrow> string \<Rightarrow> bool" where
  "hasDirective L s = (let l = lower L s in list_ex (\<lambda>d. Contains l d) directives)"

definition hasControl :: "string \<Rightarrow> bool" where
  "hasControl s = list_ex (\<lambda>c. byte c < 0x20 \<or> byte c = 0x7F) s"

definition quotedType :: "string \<Rightarrow> bool" where
  "quotedType t = (t = ''TXT'' \<or> t = ''SPF'' \<or> t = ''CAA'' \<or> t = ''NAPTR'')"

definition forbidden_char :: "char \<Rightarrow> bool" where
  "forbidden_char c = (c = CHR 0x22 \<or> c = CHR '';'' \<or> c = CHR ''('' \<or> c = CHR '')'' \<or> c = CHR 0x5C
     \<or> c = CHR ''@'' \<or> c = CHR ''$'')"

text \<open>The loop of \<open>scan\<close>: inside a quoted string, after an escape.\<close>

fun scan_loop :: "bool \<Rightarrow> bool \<Rightarrow> bool \<Rightarrow> string \<Rightarrow> gerr option" where
  "scan_loop quoted inQ esc [] = (if inQ then Some (RecordError ''content'') else None)"
| "scan_loop quoted inQ esc (c # v) =
     (if inQ then
        (if esc then scan_loop quoted True False v
         else if c = CHR 0x5C then scan_loop quoted True True v
         else if c = CHR 0x22 then scan_loop quoted False False v
         else scan_loop quoted True False v)
      else if c = CHR 0x22 \<and> quoted then scan_loop quoted True esc v
      else if forbidden_char c then Some (RecordError ''content'')
      else if byte c \<ge> 0x80 then Some (RecordError ''content'')
      else scan_loop quoted False esc v)"

definition scan :: "string \<Rightarrow> bool \<Rightarrow> gerr option" where
  "scan v quoted = (if hasControl v then Some (RecordError ''content'') else scan_loop quoted False False v)"

definition txtQuoter :: "string \<Rightarrow> string" where
  "txtQuoter s = concat (map (\<lambda>c. if c = CHR 0x5C then [CHR 0x5C, CHR 0x5C]
     else if c = CHR 0x22 then [CHR 0x5C, CHR 0x22] else [c]) s)"

section \<open>Per-type rules\<close>

definition target :: "ext \<Rightarrow> string \<Rightarrow> bool \<Rightarrow> gerr option" where
  "target L name allowRoot =
     (if name = ''.'' then (if allowRoot then None else Some (RecordError ''content''))
      else if list_all (\<lambda>l. labelOK (lower L l) True) (x_SplitDomainName L name) then None
      else Some (RecordError ''content''))"

definition hexOK :: "string \<Rightarrow> bool" where
  "hexOK s = (even (length s) \<and> list_all is_hex s \<and> s \<noteq> [])"

text \<open>\<open>base64.StdEncoding.DecodeString\<close> succeeds with at least one byte.\<close>

definition is_b64 :: "char \<Rightarrow> bool" where
  "is_b64 c = (is_lower c \<or> is_upper c \<or> is_digit c \<or> c = CHR ''+'' \<or> c = CHR ''/'')"

definition base64OK :: "string \<Rightarrow> bool" where
  "base64OK s0 = (let s = filter (\<lambda>c. c \<noteq> CHR 0x0A \<and> c \<noteq> CHR 0x0D) s0;
     body = takeWhile is_b64 s; pad = drop (length body) s in
     s \<noteq> [] \<and> length s mod 4 = 0 \<and> (pad = [] \<or> pad = ''='' \<or> pad = ''==''))"

definition dsDigestLen :: "8 word \<Rightarrow> nat option" where
  "dsDigestLen t = (if t = 1 then Some 40 else if t = 2 then Some 64 else if t = 4 then Some 96 else None)"

definition sshfpLen :: "8 word \<Rightarrow> nat option" where
  "sshfpLen t = (if t = 1 then Some 40 else if t = 2 then Some 64 else None)"

definition tlsaLen :: "8 word \<Rightarrow> nat option" where
  "tlsaLen t = (if t = 1 then Some 64 else if t = 2 then Some 128 else None)"

text \<open>
  \<open>semantic\<close> and the functions it dispatches to return the record, which \<open>caa\<close> and
  \<open>naptr\<close> change, or the refusal.
\<close>

abbreviation refuse :: "rr res" where
  "refuse \<equiv> Inl (RecordError ''content'')"

definition keep :: "rr \<Rightarrow> gerr option \<Rightarrow> rr res" where
  "keep r e = (case e of None \<Rightarrow> Inr r | Some x \<Rightarrow> Inl x)"

definition caa :: "ext \<Rightarrow> 8 word \<Rightarrow> string \<Rightarrow> string \<Rightarrow> rr res" where
  "caa L flag tag value =
     (if flag \<noteq> 0 \<and> flag \<noteq> 128 then refuse
      else let tg = lower L tag in
        if tg = ''issue'' \<or> tg = ''issuewild'' then Inr (RR_CAA flag tg value)
        else if tg = ''iodef'' then
          (let v = lower L value in
           if \<not> prefix ''mailto:'' v \<and> \<not> prefix ''https://'' v \<and> \<not> prefix ''http://'' v then refuse
           else Inr (RR_CAA flag tg value))
        else refuse)"

definition ds :: "rr \<Rightarrow> 8 word \<Rightarrow> string \<Rightarrow> rr res" where
  "ds r digestType digest = (case dsDigestLen digestType of None \<Rightarrow> refuse
     | Some n \<Rightarrow> if \<not> hexOK digest then refuse else if length digest \<noteq> n then refuse else Inr r)"

definition dnskey :: "rr \<Rightarrow> 16 word \<Rightarrow> 8 word \<Rightarrow> string \<Rightarrow> rr res" where
  "dnskey r flags protocol pubkey =
     (if flags \<noteq> 0 \<and> flags \<noteq> 256 \<and> flags \<noteq> 257 then refuse
      else if protocol \<noteq> 3 then refuse
      else if \<not> base64OK pubkey then refuse
      else Inr r)"

definition tlsa :: "rr \<Rightarrow> 8 word \<Rightarrow> 8 word \<Rightarrow> 8 word \<Rightarrow> string \<Rightarrow> rr res" where
  "tlsa r usage selector matching cert =
     (if usage > 3 then refuse
      else if selector > 1 then refuse
      else if matching > 2 then refuse
      else if \<not> hexOK cert then refuse
      else case tlsaLen matching of None \<Rightarrow> Inr r
        | Some n \<Rightarrow> if length cert \<noteq> n then refuse else Inr r)"

definition sshfp :: "rr \<Rightarrow> 8 word \<Rightarrow> 8 word \<Rightarrow> string \<Rightarrow> rr res" where
  "sshfp r alg fptype fp =
     (if \<not> (alg = 1 \<or> alg = 2 \<or> alg = 3 \<or> alg = 4 \<or> alg = 6) then refuse
      else case sshfpLen fptype of None \<Rightarrow> refuse
        | Some n \<Rightarrow> if \<not> hexOK fp then refuse else if length fp \<noteq> n then refuse else Inr r)"

definition naptr :: "ext \<Rightarrow> string \<Rightarrow> string \<Rightarrow> string \<Rightarrow> string \<Rightarrow> rr res" where
  "naptr L hdr flags rest repl =
     (if list_ex (\<lambda>c. \<not> (is_lower c \<or> is_upper c \<or> is_digit c)) flags then refuse
      else let rp = lower L repl in keep (RR_NAPTR hdr flags rest rp) (target L rp True))"

fun semantic :: "ext \<Rightarrow> rr \<Rightarrow> rr res" where
  "semantic L (RR_AAAA mapped txt) = (if mapped then refuse else Inr (RR_AAAA mapped txt))"
| "semantic L (RR_CNAME t) = keep (RR_CNAME t) (target L t False)"
| "semantic L (RR_NS t) = keep (RR_NS t) (target L t False)"
| "semantic L (RR_PTR t) = keep (RR_PTR t) (target L t False)"
| "semantic L (RR_MX p t) = (if t = ''.'' \<and> p \<noteq> 0 then refuse else keep (RR_MX p t) (target L t True))"
| "semantic L (RR_SRV f t) = keep (RR_SRV f t) (target L t True)"
| "semantic L (RR_CAA f t v) = caa L f t v"
| "semantic L (RR_DS f dt d) = ds (RR_DS f dt d) dt d"
| "semantic L (RR_DNSKEY f p a k) = dnskey (RR_DNSKEY f p a k) f p k"
| "semantic L (RR_TLSA u s m c) = tlsa (RR_TLSA u s m c) u s m c"
| "semantic L (RR_SSHFP a t f) = sshfp (RR_SSHFP a t f) a t f"
| "semantic L (RR_NAPTR f fl r rp) = naptr L f fl r rp"
| "semantic L (RR_other t) = Inr (RR_other t)"

section \<open>Content\<close>

text \<open>The value in the form the parser gets it.\<close>

definition prepared :: "ext \<Rightarrow> string \<Rightarrow> string \<Rightarrow> string" where
  "prepared L t v =
     (if t = ''TXT'' \<or> t = ''SPF'' then
        (if \<not> prefix [CHR 0x22] v then [CHR 0x22] @ txtQuoter v @ [CHR 0x22] else v)
      else if t \<in> set [''A'', ''AAAA'', ''CNAME'', ''NS'', ''PTR'', ''MX'', ''SRV''] then lower L v
      else if t \<in> set [''DS'', ''TLSA'', ''SSHFP''] then upper L v
      else v)"

definition rr_line :: "string \<Rightarrow> string \<Rightarrow> string \<Rightarrow> string" where
  "rr_line z t v = z @ '' 3600 IN '' @ t @ '' '' @ v"

definition content :: "ext \<Rightarrow> string \<Rightarrow> string \<Rightarrow> string \<Rightarrow> string res" where
  "content L t z value = (let v = TrimSpace value in
     if v = [] then Inl (RecordError ''content'')
     else if length v > MaxContent then Inl (RecordError ''content'')
     else if hasDirective L v then Inl (RecordError ''content'')
     else let v' = prepared L t v in
       case scan v' (quotedType t) of Some e \<Rightarrow> Inl e
       | None \<Rightarrow> (case x_NewRR L (rr_line z t v') of None \<Rightarrow> Inl (RecordError ''content'')
         | Some r \<Rightarrow> (case semantic L r of Inl e \<Rightarrow> Inl e
           | Inr r' \<Rightarrow> if hasDirective L (x_rdata L r') then Inl (RecordError ''content'')
               else Inr (x_rdata L r'))))"

definition Content :: "ext \<Rightarrow> string \<Rightarrow> string \<Rightarrow> string \<Rightarrow> string res" where
  "Content L rtype zn value = (case canonicalZone L zn of Inl e \<Rightarrow> Inl e
     | Inr z \<Rightarrow> (case editableType L rtype of Inl e \<Rightarrow> Inl e
       | Inr t \<Rightarrow> content L t z value))"

section \<open>Record sets\<close>

definition MaxComment :: nat where "MaxComment = 512"

record record_value =
  rv_Content :: string
  rv_Disabled :: bool

record record_set_input =
  ri_Name :: string
  ri_Type :: string
  ri_TTL :: int
  ri_Values :: "record_value list"
  ri_Comment :: string

record limits =
  l_MinTTL :: int
  l_MaxTTL :: int
  l_MaxValues :: int

definition DefaultLimits :: limits where
  "DefaultLimits = \<lparr>l_MinTTL = 60, l_MaxTTL = 604800, l_MaxValues = 100\<rparr>"

definition value_field :: "nat \<Rightarrow> string" where
  "value_field i = ''values['' @ itoa_nat i @ ''].content''"

text \<open>The loop over the values: \<open>i\<close> is the index, \<open>out\<close> the records so far.\<close>

fun values_loop :: "ext \<Rightarrow> string \<Rightarrow> string \<Rightarrow> nat \<Rightarrow> record_line list \<Rightarrow> record_value list \<Rightarrow> record_line list res" where
  "values_loop L t z i out [] = Inr out"
| "values_loop L t z i out (v # vs) =
     (case content L t z (rv_Content v) of Inl e \<Rightarrow> Inl (RecordError (value_field i))
      | Inr c \<Rightarrow> if c \<in> set (map rec_Content out) then Inl (RecordError (value_field i))
          else values_loop L t z (Suc i) (out @ [\<lparr>rec_Content = c, rec_Disabled = rv_Disabled v\<rparr>]) vs)"

text \<open>The loop over the existing sets: the first clash with a CNAME, if any.\<close>

fun cname_clash :: "ext \<Rightarrow> string \<Rightarrow> string \<Rightarrow> rrset list \<Rightarrow> gerr option" where
  "cname_clash L t name [] = None"
| "cname_clash L t name (e # es) =
     (if \<not> fold_eq L (rs_Name e) name \<or> fold_eq L (rs_Type e) t then cname_clash L t name es
      else if t = ''CNAME'' then Some (RecordError ''type'')
      else if fold_eq L (rs_Type e) ''CNAME'' then Some (RecordError ''type'')
      else cname_clash L t name es)"

definition comment_of :: "string \<Rightarrow> comment list" where
  "comment_of c = (if TrimSpace c \<noteq> []
     then [\<lparr>com_Content = TrimSpace c, com_Account = [], com_ModifiedAt = 0\<rparr>] else [])"

definition RecordSet :: "ext \<Rightarrow> limits \<Rightarrow> string \<Rightarrow> record_set_input \<Rightarrow> rrset list \<Rightarrow> rrset res" where
  "RecordSet L l zn inp existing = (case canonicalZone L zn of Inl e \<Rightarrow> Inl e
     | Inr z \<Rightarrow> (case editableType L (ri_Type inp) of Inl e \<Rightarrow> Inl e
     | Inr t \<Rightarrow> (case RecordName L z (ri_Name inp) of Inl e \<Rightarrow> Inl e
     | Inr name \<Rightarrow>
       if ri_TTL inp < l_MinTTL l \<or> ri_TTL inp > l_MaxTTL l then Inl (RecordError ''ttl'')
       else if ri_Values inp = [] \<or> int (length (ri_Values inp)) > l_MaxValues l then Inl (RecordError ''values'')
       else if length (ri_Comment inp) > MaxComment \<or> hasControl (ri_Comment inp) then Inl (RecordError ''comment'')
       else if t = ''CNAME'' \<and> name = z then Inl (RecordError ''type'')
       else if t = ''CNAME'' \<and> length (ri_Values inp) > 1 then Inl (RecordError ''values'')
       else (case cname_clash L t name existing of Some e \<Rightarrow> Inl e
       | None \<Rightarrow> (case values_loop L t z 0 [] (ri_Values inp) of Inl e \<Rightarrow> Inl e
         | Inr recs \<Rightarrow> Inr \<lparr>rs_Name = name, rs_Type = t, rs_TTL = word_of_int (ri_TTL inp),
             rs_ChangeType = ChangeReplace, rs_Records = recs,
             rs_Comments = Some (comment_of (ri_Comment inp))\<rparr>)))))"

section \<open>Facts\<close>

text \<open>
  The language \<open>scan\<close> accepts, as a grammar: safe characters and complete quoted
  strings. A quoted string's body holds no bare quote and no dangling escape.
\<close>

inductive quoted_body :: "string \<Rightarrow> bool" where
  body_end: "quoted_body []"
| body_char: "quoted_body b \<Longrightarrow> c \<noteq> CHR 0x5C \<Longrightarrow> c \<noteq> CHR 0x22 \<Longrightarrow> quoted_body (c # b)"
| body_esc: "quoted_body b \<Longrightarrow> quoted_body (CHR 0x5C # c # b)"

definition safe_char :: "char \<Rightarrow> bool" where
  "safe_char c = (\<not> forbidden_char c \<and> byte c < 0x80)"

inductive value_text :: "bool \<Rightarrow> string \<Rightarrow> bool" for quoted where
  text_end: "value_text quoted []"
| text_char: "value_text quoted v \<Longrightarrow> safe_char c \<Longrightarrow> value_text quoted (c # v)"
| text_quoted: "quoted \<Longrightarrow> quoted_body b \<Longrightarrow> value_text quoted v \<Longrightarrow>
    value_text quoted (CHR 0x22 # b @ CHR 0x22 # v)"

inductive_cases quoted_body_ConsE: "quoted_body (c # b)"
inductive_cases value_text_ConsE: "value_text quoted (c # v)"

lemma quote_not_safe: "\<not> safe_char CHR 0x22"
  by (simp add: safe_char_def forbidden_char_def)

text \<open>The automaton from each of its states, against the grammar.\<close>

lemma scan_loop_sound:
  "scan_loop quoted inQ esc v = None \<Longrightarrow>
    (\<not> inQ \<longrightarrow> \<not> esc \<longrightarrow> value_text quoted v) \<and>
    (inQ \<longrightarrow> \<not> esc \<longrightarrow> (\<exists>b w. v = b @ CHR 0x22 # w \<and> quoted_body b \<and> value_text quoted w)) \<and>
    (inQ \<longrightarrow> esc \<longrightarrow> (\<exists>c b w. v = c # b @ CHR 0x22 # w \<and> quoted_body b \<and> value_text quoted w))"
proof (induction v arbitrary: inQ esc)
  case Nil
  then show ?case by (auto intro: value_text.intros split: if_splits)
next
  case (Cons c v)
  show ?case
  proof (cases inQ)
    case inQ: True
    show ?thesis
    proof (cases esc)
      case True
      then have "scan_loop quoted True False v = None" using Cons.prems inQ by simp
      then show ?thesis using Cons.IH [of True False] inQ True by auto
    next
      case False
      consider "c = CHR 0x5C" | "c = CHR 0x22" | "c \<noteq> CHR 0x5C" "c \<noteq> CHR 0x22" by blast
      then show ?thesis
      proof cases
        case 1
        then obtain d b w where "v = d # b @ CHR 0x22 # w" "quoted_body b" "value_text quoted w"
          using Cons.prems Cons.IH [of True True] inQ False by auto
        then have "c # v = (CHR 0x5C # d # b) @ CHR 0x22 # w" "quoted_body (CHR 0x5C # d # b)"
          using 1 by (auto intro: body_esc)
        then show ?thesis using inQ False \<open>value_text quoted w\<close> by blast
      next
        case 2
        then have "value_text quoted v" using Cons.prems Cons.IH [of False False] inQ False by simp
        then show ?thesis using inQ False 2 body_end by (metis append_Nil)
      next
        case 3
        then obtain b w where "v = b @ CHR 0x22 # w" "quoted_body b" "value_text quoted w"
          using Cons.prems Cons.IH [of True False] inQ False by auto
        then show ?thesis using inQ False 3 by (metis append_Cons body_char)
      qed
    qed
  next
    case out: False
    show ?thesis
    proof (cases "c = CHR 0x22 \<and> quoted")
      case True
      then show ?thesis using Cons.prems Cons.IH [of True esc] out by (auto intro: text_quoted)
    next
      case False
      then have "safe_char c" "scan_loop quoted False esc v = None"
        using Cons.prems out by (auto simp: safe_char_def split: if_splits)
      then show ?thesis using Cons.IH [of False esc] out by (auto intro: text_char)
    qed
  qed
qed

lemma scan_loop_body:
  "quoted_body b \<Longrightarrow> scan_loop quoted True False (b @ CHR 0x22 # v) = scan_loop quoted False False v"
  by (induction rule: quoted_body.induct) auto

lemma scan_loop_complete: "value_text quoted v \<Longrightarrow> scan_loop quoted False False v = None"
proof (induction rule: value_text.induct)
  case (text_char v c)
  then show ?case by (auto simp: safe_char_def forbidden_char_def)
qed (auto simp: scan_loop_body)

lemma scan_iff: "scan v quoted = None \<longleftrightarrow> \<not> hasControl v \<and> value_text quoted v"
  using scan_loop_sound [of quoted False False v] scan_loop_complete [of quoted v]
  by (auto simp: scan_def)

lemma value_text_unquoted: "value_text False v \<longleftrightarrow> list_all safe_char v"
proof
  show "value_text False v \<Longrightarrow> list_all safe_char v"
    by (induction rule: value_text.induct) auto
  show "list_all safe_char v \<Longrightarrow> value_text False v"
    by (induction v) (auto intro: value_text.intros)
qed

text \<open>Quoting makes one quoted string of any text, and loses nothing.\<close>

fun unquote :: "string \<Rightarrow> string" where
  "unquote [] = []"
| "unquote [c] = [c]"
| "unquote (c # d # v) = (if c = CHR 0x5C then d # unquote v else c # unquote (d # v))"

lemma txtQuoter_Nil [simp]: "txtQuoter [] = []"
  by (simp add: txtQuoter_def)

lemma txtQuoter_Cons [simp]: "txtQuoter (c # s) =
    (if c = CHR 0x5C then [CHR 0x5C, CHR 0x5C] else if c = CHR 0x22 then [CHR 0x5C, CHR 0x22] else [c]) @ txtQuoter s"
  by (simp add: txtQuoter_def)

lemma quoted_body_txtQuoter: "quoted_body (txtQuoter s)"
  by (induction s) (auto intro: quoted_body.intros)

lemma unquote_plain: "c \<noteq> CHR 0x5C \<Longrightarrow> unquote (c # v) = c # unquote v"
  by (cases v) auto

lemma unquote_txtQuoter: "unquote (txtQuoter s) = s"
  by (induction s) (auto simp: unquote_plain)

lemma hasControl_simps [simp]: "hasControl [] = False"
  "hasControl (c # s) = (byte c < 0x20 \<or> byte c = 0x7F \<or> hasControl s)"
  "hasControl (s @ t) = (hasControl s \<or> hasControl t)"
  by (auto simp: hasControl_def)

lemma hasControl_txtQuoter [simp]: "hasControl (txtQuoter s) = hasControl s"
  by (induction s) (auto simp: byte_def)

lemma scan_quoted: "scan ([CHR 0x22] @ txtQuoter s @ [CHR 0x22]) True = None \<longleftrightarrow> \<not> hasControl s"
  using text_quoted [OF _ quoted_body_txtQuoter text_end, of True s]
  by (auto simp: scan_iff byte_def)

section \<open>Record sets\<close>

lemma content_error: "content L t z v = Inl e \<Longrightarrow> e = RecordError ''content''"
proof -
  have k: "keep r (target L n b) = Inl e \<Longrightarrow> e = RecordError ''content''" for r n b e
    by (auto simp: keep_def target_def split: if_splits)
  have s: "semantic L r = Inl e \<Longrightarrow> e = RecordError ''content''" for r e
    by (cases r) (auto simp: caa_def ds_def dnskey_def tlsa_def sshfp_def naptr_def Let_def
        dest!: k split: if_splits option.splits)
  have "scan_loop q i f w = None \<or> scan_loop q i f w = Some (RecordError ''content'')" for q i f w
  proof (induction w arbitrary: i f)
    case (Cons a w)
    then show ?case by (simp only: scan_loop.simps split: if_split) blast
  qed simp
  then have c: "scan_loop q i f w = Some e \<Longrightarrow> e = RecordError ''content''" for q i f w e
    by (metis option.distinct(1) option.inject)
  show "content L t z v = Inl e \<Longrightarrow> e = RecordError ''content''"
    by (auto simp: content_def Let_def scan_def dest: s c split: if_splits option.splits sum.splits)
qed

text \<open>What reaches the parser is one line of the grammar above.\<close>

lemma content_ok:
  assumes "content L t z v = Inr c"
  obtains w r r' where "w = prepared L t (TrimSpace v)" "\<not> hasControl w" "value_text (quotedType t) w"
    "x_NewRR L (rr_line z t w) = Some r" "semantic L r = Inr r'" "c = x_rdata L r'" "\<not> hasDirective L c"
  using assms by (auto simp: content_def Let_def scan_iff split: if_splits option.splits sum.splits)

lemma values_loop_ok:
  assumes "values_loop L t z i out vs = Inr recs" and "distinct (map rec_Content out)"
  shows "distinct (map rec_Content recs) \<and> (\<exists>cs. recs = out @ cs \<and>
    list_all2 (\<lambda>v r. content L t z (rv_Content v) = Inr (rec_Content r) \<and> rec_Disabled r = rv_Disabled v) vs cs)"
  using assms
proof (induction L t z i out vs rule: values_loop.induct)
  case (2 L t z i out v vs)
  then obtain c where c: "content L t z (rv_Content v) = Inr c" "c \<notin> set (map rec_Content out)"
    "values_loop L t z (Suc i) (out @ [\<lparr>rec_Content = c, rec_Disabled = rv_Disabled v\<rparr>]) vs = Inr recs"
    by (auto split: sum.splits if_splits)
  with 2 show ?case by fastforce
qed auto

lemma values_loop_error:
  "values_loop L t z i out vs = Inl e \<Longrightarrow> \<exists>j. i \<le> j \<and> j < i + length vs \<and> e = RecordError (value_field j)"
proof (induction L t z i out vs rule: values_loop.induct)
  case (2 L t z i out v vs)
  show ?case
  proof (cases "e = RecordError (value_field i)")
    case False
    then show ?thesis using 2 by (fastforce split: sum.splits if_splits)
  qed auto
qed auto

lemma cname_clash_None:
  "cname_clash L t name es = None \<longleftrightarrow>
    (\<forall>e \<in> set es. fold_eq L (rs_Name e) name \<longrightarrow> fold_eq L (rs_Type e) t \<or>
       t \<noteq> ''CNAME'' \<and> \<not> fold_eq L (rs_Type e) ''CNAME'')"
  by (induction es) auto

lemma cname_clash_error: "cname_clash L t name es = Some e \<Longrightarrow> e = RecordError ''type''"
  by (induction es) (auto split: if_splits)

lemma editableType_ok: "editableType L s = Inr t \<Longrightarrow> t = upper L (TrimSpace s) \<and> Editable L t \<and> t \<noteq> ''SOA''"
  by (auto simp: editableType_def Let_def split: if_splits)

lemma RecordSet_ok:
  assumes "RecordSet L l zn inp ex = Inr rs"
  obtains z where "canonicalZone L zn = Inr z" "editableType L (ri_Type inp) = Inr (rs_Type rs)"
    "RecordName L z (ri_Name inp) = Inr (rs_Name rs)" "l_MinTTL l \<le> ri_TTL inp" "ri_TTL inp \<le> l_MaxTTL l"
    "rs_TTL rs = word_of_int (ri_TTL inp)" "rs_ChangeType rs = ChangeReplace"
    "ri_Values inp \<noteq> []" "int (length (ri_Values inp)) \<le> l_MaxValues l"
    "rs_Type rs = ''CNAME'' \<Longrightarrow> rs_Name rs \<noteq> z \<and> length (ri_Values inp) = 1"
    "cname_clash L (rs_Type rs) (rs_Name rs) ex = None"
    "values_loop L (rs_Type rs) z 0 [] (ri_Values inp) = Inr (rs_Records rs)"
    "rs_Comments rs = Some (comment_of (ri_Comment inp))"
proof -
  obtain z t name where zt: "canonicalZone L zn = Inr z" "editableType L (ri_Type inp) = Inr t"
    "RecordName L z (ri_Name inp) = Inr name"
    using assms by (auto simp: RecordSet_def split: sum.splits)
  obtain recs where v: "values_loop L t z 0 [] (ri_Values inp) = Inr recs"
    using assms zt by (auto simp: RecordSet_def split: sum.splits if_splits option.splits)
  have rs: "rs = \<lparr>rs_Name = name, rs_Type = t, rs_TTL = word_of_int (ri_TTL inp), rs_ChangeType = ChangeReplace,
      rs_Records = recs, rs_Comments = Some (comment_of (ri_Comment inp))\<rparr>"
    and g: "l_MinTTL l \<le> ri_TTL inp" "ri_TTL inp \<le> l_MaxTTL l" "ri_Values inp \<noteq> []"
      "int (length (ri_Values inp)) \<le> l_MaxValues l" "t = ''CNAME'' \<Longrightarrow> name \<noteq> z \<and> \<not> length (ri_Values inp) > 1"
      "cname_clash L t name ex = None"
    using assms zt v by (auto simp: RecordSet_def split: if_splits option.splits)
  show thesis
    by (rule that [of z]) (use zt v g in \<open>auto simp: rs le_Suc_eq not_less\<close>)
qed

section \<open>Properties\<close>

text \<open>
  C27: the scanner accepts exactly the values without control characters that are a
  sequence of harmless ASCII characters and, in the types that carry them,
  complete quoted strings. A comment, a group, an escape, the origin shorthand, a
  directive sign or a byte above 127 outside quotes can therefore never reach the
  zone-file parser, and neither can an open quote.
\<close>

theorem scan_grammar: "scan v quoted = None \<longleftrightarrow> \<not> hasControl v \<and> value_text quoted v"
  by (rule scan_iff)

text \<open>
  C40: an accepted TXT or SPF value given without quotes reaches the parser as one
  quoted string whose unescaped body is the trimmed input: nothing of the text is
  lost and nothing of it is read as syntax.
\<close>

theorem txt_quoting_faithful:
  assumes "content L t z v = Inr c" and "t = ''TXT'' \<or> t = ''SPF''" and "\<not> prefix [CHR 0x22] (TrimSpace v)"
  shows "\<exists>b r. quoted_body b \<and> unquote b = TrimSpace v \<and> \<not> hasControl b \<and>
    x_NewRR L (rr_line z t ([CHR 0x22] @ b @ [CHR 0x22])) = Some r"
proof -
  define b where "b = txtQuoter (TrimSpace v)"
  obtain w r where w: "w = prepared L t (TrimSpace v)" "\<not> hasControl w" "x_NewRR L (rr_line z t w) = Some r"
    using content_ok [OF assms(1)] by metis
  have "w = [CHR 0x22] @ b @ [CHR 0x22]" using w(1) assms(2,3) by (auto simp: prepared_def b_def)
  with w(2,3) have "\<not> hasControl b" "x_NewRR L (rr_line z t ([CHR 0x22] @ b @ [CHR 0x22])) = Some r" by auto
  moreover have "quoted_body b" "unquote b = TrimSpace v"
    using quoted_body_txtQuoter unquote_txtQuoter by (simp_all add: b_def)
  ultimately show ?thesis by blast
qed

theorem txt_quoting_faithful_witness:
  "\<exists>b. quoted_body b \<and> unquote b = [CHR ''a'', CHR 0x22, CHR '';'', CHR ''b'']"
proof -
  have t: "TrimSpace [CHR ''a'', CHR 0x22, CHR '';'', CHR ''b''] = [CHR ''a'', CHR 0x22, CHR '';'', CHR ''b'']" by code_simp
  have "content sample_ext ''TXT'' ''example.com.'' [CHR ''a'', CHR 0x22, CHR '';'', CHR ''b''] =
      Inr [CHR 0x22, CHR ''a'', CHR 0x5C, CHR 0x22, CHR '';'', CHR ''b'', CHR 0x22]" by code_simp
  from txt_quoting_faithful [OF this] show ?thesis unfolding t by auto
qed

text \<open>
  C26: an accepted record set is what PowerDNS may be sent: an owner name inside the
  zone, an editable type, the TTL the caller asked for (within the limits and not
  wrapped to 32 bits), between one and the limit of values, all different, each
  the canonical content of the value at its place with its disabled flag; a CNAME
  is never at the apex, has one value and shares its owner with no other type.
\<close>

theorem RecordSet_sound:
  assumes "fqdn_law L" and "split_law L" and "0 \<le> l_MinTTL l" and "l_MaxTTL l < 2 ^ 32"
    and "RecordSet L l zn inp existing = Inr rs"
  shows "\<exists>z. canonicalZone L zn = Inr z \<and> owner_name (rs_Name rs) \<and> InZone (rs_Name rs) z \<and>
    Editable L (rs_Type rs) \<and> uint (rs_TTL rs) = ri_TTL inp \<and> uint (rs_TTL rs) \<in> {l_MinTTL l .. l_MaxTTL l} \<and>
    1 \<le> length (rs_Records rs) \<and> int (length (rs_Records rs)) \<le> l_MaxValues l \<and>
    distinct (map rec_Content (rs_Records rs)) \<and>
    list_all2 (\<lambda>v r. content L (rs_Type rs) z (rv_Content v) = Inr (rec_Content r) \<and> rec_Disabled r = rv_Disabled v)
      (ri_Values inp) (rs_Records rs) \<and>
    (rs_Type rs = ''CNAME'' \<longrightarrow> rs_Name rs \<noteq> z \<and> length (rs_Records rs) = 1) \<and>
    (\<forall>e \<in> set existing. fold_eq L (rs_Name e) (rs_Name rs) \<longrightarrow> fold_eq L (rs_Type e) (rs_Type rs) \<or>
       rs_Type rs \<noteq> ''CNAME'' \<and> \<not> fold_eq L (rs_Type e) ''CNAME'')"
proof -
  obtain z where z: "canonicalZone L zn = Inr z" "editableType L (ri_Type inp) = Inr (rs_Type rs)"
    "RecordName L z (ri_Name inp) = Inr (rs_Name rs)" and ttl: "l_MinTTL l \<le> ri_TTL inp" "ri_TTL inp \<le> l_MaxTTL l"
    "rs_TTL rs = word_of_int (ri_TTL inp)" and n: "ri_Values inp \<noteq> []" "int (length (ri_Values inp)) \<le> l_MaxValues l"
    and cn: "rs_Type rs = ''CNAME'' \<Longrightarrow> rs_Name rs \<noteq> z \<and> length (ri_Values inp) = 1"
    and cl: "cname_clash L (rs_Type rs) (rs_Name rs) existing = None"
    and v: "values_loop L (rs_Type rs) z 0 [] (ri_Values inp) = Inr (rs_Records rs)"
    using RecordSet_ok [OF assms(5)] by metis
  have cz: "canonicalZone L z = Inr z"
    using canonicalZone_id [OF assms(1,2) canonicalZone_canonical [OF assms(1,2) z(1)]] .
  then have owner: "owner_name (rs_Name rs)" "InZone (rs_Name rs) z"
    using RecordName_owner [OF assms(1,2) z(3)] by auto
  have w: "uint (rs_TTL rs) = ri_TTL inp"
    using ttl assms(3,4) by (simp add: uint_word_of_int take_bit_int_eq_self)
  have r: "distinct (map rec_Content (rs_Records rs))" and
    l2: "list_all2 (\<lambda>v r. content L (rs_Type rs) z (rv_Content v) = Inr (rec_Content r) \<and> rec_Disabled r = rv_Disabled v)
      (ri_Values inp) (rs_Records rs)"
    using values_loop_ok [OF v] by auto
  have len: "length (rs_Records rs) = length (ri_Values inp)" using l2 by (simp add: list_all2_lengthD)
  have ed: "Editable L (rs_Type rs)" using editableType_ok [OF z(2)] by blast
  show ?thesis
    using z(1) owner ed w ttl n cn cl [unfolded cname_clash_None] r l2
    by (intro exI [of _ z]) (simp add: len Suc_le_eq)
qed

theorem RecordSet_sound_witness:
  "\<exists>rs. RecordSet sample_ext DefaultLimits ''example.com.'' \<lparr>ri_Name = ''www'', ri_Type = ''a'', ri_TTL = 300,
     ri_Values = [\<lparr>rv_Content = ''192.0.2.1'', rv_Disabled = False\<rparr>], ri_Comment = ''''\<rparr> [] = Inr rs \<and>
     InZone (rs_Name rs) ''example.com.'' \<and> uint (rs_TTL rs) = 300"
proof -
  define inp where "inp = \<lparr>ri_Name = ''www'', ri_Type = ''a'', ri_TTL = 300,
     ri_Values = [\<lparr>rv_Content = ''192.0.2.1'', rv_Disabled = False\<rparr>], ri_Comment = ''''\<rparr>"
  have "\<not> isl (RecordSet sample_ext DefaultLimits ''example.com.'' inp [])" unfolding inp_def by code_simp
  then obtain rs where rs: "RecordSet sample_ext DefaultLimits ''example.com.'' inp [] = Inr rs"
    by (metis isl_def old.sum.exhaust)
  have z: "canonicalZone sample_ext ''example.com.'' = Inr ''example.com.''" by code_simp
  show ?thesis
    using RecordSet_sound [OF sample_laws _ _ rs] rs z by (auto simp: DefaultLimits_def inp_def)
qed

text \<open>
  Every refusal of a record set is classified: it is the name error, or a
  record error that names the offending field, the index of the offending value
  being one of the input.
\<close>

lemma RecordSet_refusal:
  assumes "RecordSet L l zn inp existing = Inl e"
  shows "e = Sent ErrName \<or> (errIs e ErrRecord \<and> e \<in> RecordError ` ({''type'', ''ttl'', ''values'', ''comment''} \<union>
    value_field ` {0 ..< length (ri_Values inp)}))"
proof -
  have v: "values_loop L t z 0 [] (ri_Values inp) = Inl e \<Longrightarrow> e \<in> RecordError ` value_field ` {0 ..< length (ri_Values inp)}"
    for t z using values_loop_error [of L t z 0 "[]" "ri_Values inp" e] by auto
  have t: "editableType L s = Inl e \<Longrightarrow> e = RecordError ''type''" for s
    by (auto simp: editableType_def Let_def split: if_splits)
  show ?thesis using assms
    by (auto simp: RecordSet_def dest: v t canonicalZone_error RecordName_error cname_clash_error
        split: sum.splits if_splits option.splits)
qed

lemma RecordSet_refusal_witness:
  "\<exists>e. RecordSet sample_ext DefaultLimits ''example.com.'' \<lparr>ri_Name = ''www'', ri_Type = ''SOA'', ri_TTL = 300,
     ri_Values = [], ri_Comment = ''''\<rparr> [] = Inl e \<and> (e = Sent ErrName \<or> errIs e ErrRecord)"
proof -
  have "RecordSet sample_ext DefaultLimits ''example.com.'' \<lparr>ri_Name = ''www'', ri_Type = ''SOA'', ri_TTL = 300,
     ri_Values = [], ri_Comment = ''''\<rparr> [] = Inl (RecordError ''type'')" by code_simp
  with RecordSet_refusal [OF this] show ?thesis by blast
qed

end
