(* ===== verification/Records.thy ===== *)
theory Records
  imports Zones Validate_Records
begin

text \<open>
  The record sets of a zone, \<^verbatim>\<open>internal/records/records.go\<close>. The service shares
  the PowerDNS client, the event publisher and the audit recorder with the zone
  service it is built on, so one \<open>deps\<close> value serves both; \<open>l\<close> are its limits.
  The paging library is an argument of the listing.
\<close>

section \<open>Views and order\<close>

record value_view =
  vv_Content :: string
  vv_Disabled :: bool

record set_view =
  sv_Name :: string
  sv_Type :: string
  sv_TTL :: u32
  sv_Values :: "value_view list"
  sv_Comment :: string
  sv_ReadOnly :: bool

record set_id =
  si_Name :: string
  si_Type :: string

record set_filter =
  sf_Type :: string
  sf_Query :: string

definition toView :: "ext \<Rightarrow> rrset \<Rightarrow> set_view" where
  "toView L r = \<lparr>sv_Name = rs_Name r, sv_Type = upper L (rs_Type r), sv_TTL = rs_TTL r,
     sv_Values = map (\<lambda>x. \<lparr>vv_Content = rec_Content x, vv_Disabled = rec_Disabled x\<rparr>) (rs_Records r),
     sv_Comment = (case rs_Comments r of Some (c # _) \<Rightarrow> com_Content c | _ \<Rightarrow> []),
     sv_ReadOnly = (\<not> Editable L (upper L (rs_Type r)))\<rparr>"

definition canonical_order :: "unicode \<Rightarrow> string \<Rightarrow> string" where
  "canonical_order u name = Join [CHR 0x01] (rev (Split CHR ''.'' (TrimSuffix (ToLower u name) ''.'')))"

definition typeRank :: "string \<Rightarrow> string" where
  "typeRank t = (if t = ''SOA'' then [] else t)"

definition setKey :: "unicode \<Rightarrow> set_view \<Rightarrow> string \<Rightarrow> sort_value" where
  "setKey u r field = (if field = ''type'' then KeyStr (sv_Type r)
     else if field = ''ttl'' then KeyInt (uint (sv_TTL r)) else KeyStr (canonical_order u (sv_Name r)))"

definition setTie :: "unicode \<Rightarrow> set_view \<Rightarrow> string" where
  "setTie u r = canonical_order u (sv_Name r) @ [CHR 0x00] @ typeRank (sv_Type r)"

section \<open>Audit and access\<close>

definition records_outcome :: "gerr \<Rightarrow> string \<times> string" where
  "records_outcome e =
     (if errIs e ErrRecord then (OutcomeRefused, ''invalid_record'')
      else if errIs e ErrName then (OutcomeRefused, ''invalid_name'')
      else if errIs e records_ErrNotFound then (OutcomeRefused, ''record_not_found'')
      else if errIs e records_ErrConflict then (OutcomeRefused, ''conflict'')
      else if errIs e zones_ErrInvalidKind then (OutcomeRefused, ''invalid_kind'')
      else if errIs e pdns_ErrUnavailable then (OutcomeError, ''pdns_unavailable'')
      else (OutcomeError, ''error''))"

definition records_audit :: "'w deps \<Rightarrow> subjects \<Rightarrow> string \<Rightarrow> zone \<Rightarrow> string \<Rightarrow> string \<Rightarrow> gerr option \<Rightarrow> 'w \<Rightarrow> 'w" where
  "records_audit D s t z name rtype err =
     (let (outcome, reason) = (case err of None \<Rightarrow> (OutcomeOK, []) | Some e \<Rightarrow> records_outcome e)
      in audit_Emit (d_Audit D)
        \<lparr>ae_TenantID = s_TenantID s, ae_EventType = t, ae_ActorKind = ActorOf (s_ActorKind s), ae_ActorID = ActorID s,
         ae_SubjectKind = SubjectRecord, ae_SubjectID = z_ID z, ae_Outcome = outcome, ae_Reason = reason,
         ae_Details = [(''zone'', DStr (z_Name z)), (''name'', DStr name), (''type'', DStr rtype)]\<rparr>)"

definition records_load :: "'w deps \<Rightarrow> subjects \<Rightarrow> string \<Rightarrow> string \<Rightarrow> ('w, zone) act" where
  "records_load D s zid perm =
     check (if perm = ZonesManage \<and> \<not> IsHuman s then Require None s perm else None) (zones_Owned D s zid)"

definition records_rrsets :: "'w deps \<Rightarrow> zone \<Rightarrow> ('w, rrset list) act" where
  "records_rrsets D z = and_then (map_err mapPDNS (p_GetZone (d_PDNS D) (z_PDNSID z))) (\<lambda>pz. ret (pz_RRsets pz))"

definition records_patch :: "'w deps \<Rightarrow> zone \<Rightarrow> rrset list \<Rightarrow> ('w, unit) act" where
  "records_patch D z changes = map_err mapPDNS (p_PatchRRsets (d_PDNS D) (z_PDNSID z) changes)"

definition matches_filter :: "ext \<Rightarrow> set_filter \<Rightarrow> rrset \<Rightarrow> bool" where
  "matches_filter L f r =
     (let ft = upper L (TrimSpace (sf_Type f)); q = lower L (TrimSpace (sf_Query f))
      in \<not> ((ft \<noteq> [] \<and> \<not> fold_eq L (rs_Type r) ft) \<or> (q \<noteq> [] \<and> \<not> Contains (lower L (rs_Name r)) q)))"

definition records_List ::
  "'w deps \<Rightarrow> ('q \<Rightarrow> (set_view \<Rightarrow> string \<Rightarrow> sort_value) \<Rightarrow> (set_view \<Rightarrow> string) \<Rightarrow> set_view list \<Rightarrow> set_view list) \<Rightarrow>
   (set_view list \<Rightarrow> 'q \<Rightarrow> set_view list \<times> int \<times> 'q) \<Rightarrow>
   subjects \<Rightarrow> string \<Rightarrow> set_filter \<Rightarrow> 'q \<Rightarrow> ('w, set_view list \<times> int \<times> 'q) act" where
  "records_List D SortSlice Window s zid f req = and_then (records_load D s zid ZonesRead) (\<lambda>z.
     and_then (records_rrsets D z) (\<lambda>sets.
       let L = d_Ext D; matched = map (toView L) (filter (matches_filter L f) sets)
       in ret (Window (SortSlice req (setKey (x_unicode L)) (setTie (x_unicode L)) matched) req)))"

definition writable :: "zone \<Rightarrow> gerr option" where
  "writable z = (if NeedsMasters (z_Kind z) then Some (Sent zones_ErrInvalidKind) else None)"

definition withoutUser :: "subjects \<Rightarrow> subjects" where
  "withoutUser s = (if IsHuman s then Internal (s_TenantID s) else s)"

section \<open>Writes\<close>

definition records_apply :: "'w deps \<Rightarrow> limits \<Rightarrow> zone \<Rightarrow> record_set_input \<Rightarrow> ('w, rrset) act" where
  "records_apply D l z inp = check (writable z) (and_then (records_rrsets D z) (\<lambda>cur.
     and_then (lift_res (RecordSet (d_Ext D) l (z_Name z) inp cur)) (\<lambda>rr.
     and_then (records_patch D z [rr]) (\<lambda>_. ret rr))))"

definition records_Apply :: "'w deps \<Rightarrow> limits \<Rightarrow> subjects \<Rightarrow> zone \<Rightarrow> record_set_input \<Rightarrow> string \<Rightarrow> ('w, set_view) act" where
  "records_Apply D l s z inp source = check (Require None (withoutUser s) ZonesManage)
     (on_result (records_apply D l z inp) (\<lambda>r. case r of
        Inl e \<Rightarrow> effect (records_audit D s RecordUpsert z (ri_Name inp) (upper (d_Ext D) (ri_Type inp)) (Some e)) (fail_with e)
      | Inr rr \<Rightarrow> effect (\<lambda>w. EmitRecord (d_Events D) z (rs_Name rr) (rs_Type rr) ActionUpserted source
          (records_audit D s RecordUpsert z (rs_Name rr) (rs_Type rr) None w)) (ret (toView (d_Ext D) rr))))"

definition records_Upsert :: "'w deps \<Rightarrow> limits \<Rightarrow> subjects \<Rightarrow> string \<Rightarrow> record_set_input \<Rightarrow> ('w, set_view) act" where
  "records_Upsert D l s zid inp = and_then (records_load D s zid ZonesManage) (\<lambda>z. records_Apply D l s z inp SourceAPI)"

definition same_fold :: "ext \<Rightarrow> string \<Rightarrow> string \<Rightarrow> rrset \<Rightarrow> bool" where
  "same_fold L name rtype r = (fold_eq L (rs_Name r) name \<and> fold_eq L (rs_Type r) rtype)"

definition records_Lookup :: "'w deps \<Rightarrow> subjects \<Rightarrow> zone \<Rightarrow> set_id \<Rightarrow> ('w, set_view) act" where
  "records_Lookup D s z k = check (Require None (withoutUser s) ZonesRead)
     (and_then (lift_res (RecordName (d_Ext D) (z_Name z) (si_Name k))) (\<lambda>name.
      and_then (records_rrsets D z) (\<lambda>cur.
        case List.find (same_fold (d_Ext D) name (upper (d_Ext D) (TrimSpace (si_Type k)))) cur of
          Some r \<Rightarrow> ret (toView (d_Ext D) r) | None \<Rightarrow> fail_with (Sent records_ErrNotFound))))"

definition record_key :: "ext \<Rightarrow> zone \<Rightarrow> set_id \<Rightarrow> (string \<times> string) res" where
  "record_key L z k = (case RecordName L (z_Name z) (si_Name k) of Inl e \<Rightarrow> Inl e
     | Inr name \<Rightarrow> let t = upper L (TrimSpace (si_Type k)) in
         if \<not> Editable L t then Inl (RecordError ''type'') else Inr (name, t))"

definition find_set :: "ext \<Rightarrow> rrset list \<Rightarrow> string \<Rightarrow> string \<Rightarrow> bool" where
  "find_set L sets name rtype = list_ex (same_fold L name rtype) sets"

definition delete_set :: "string \<Rightarrow> string \<Rightarrow> rrset" where
  "delete_set name rtype = \<lparr>rs_Name = name, rs_Type = rtype, rs_TTL = 0, rs_ChangeType = ChangeDelete, rs_Records = [],
     rs_Comments = None\<rparr>"

definition records_update :: "'w deps \<Rightarrow> limits \<Rightarrow> zone \<Rightarrow> set_id \<Rightarrow> record_set_input \<Rightarrow> ('w, rrset \<times> string \<times> string) act" where
  "records_update D l z original inp = check (writable z)
     (and_then (lift_res (record_key (d_Ext D) z original)) (\<lambda>(oldName, oldType).
      and_then (records_rrsets D z) (\<lambda>cur.
        if \<not> find_set (d_Ext D) cur oldName oldType then fail_with (Sent records_ErrNotFound)
        else let others = filter (\<lambda>r. \<not> same_fold (d_Ext D) oldName oldType r) cur in
          and_then (lift_res (RecordSet (d_Ext D) l (z_Name z) inp others)) (\<lambda>rr.
            if rs_Name rr \<noteq> oldName \<or> rs_Type rr \<noteq> oldType
            then if find_set (d_Ext D) others (rs_Name rr) (rs_Type rr) then fail_with (Sent records_ErrConflict)
              else and_then (records_patch D z [rr, delete_set oldName oldType]) (\<lambda>_. ret (rr, oldName, oldType))
            else and_then (records_patch D z [rr]) (\<lambda>_. ret (rr, oldName, oldType))))))"

definition records_Update :: "'w deps \<Rightarrow> limits \<Rightarrow> subjects \<Rightarrow> string \<Rightarrow> set_id \<Rightarrow> record_set_input \<Rightarrow> ('w, set_view) act" where
  "records_Update D l s zid original inp = and_then (records_load D s zid ZonesManage) (\<lambda>z.
     on_result (records_update D l z original inp) (\<lambda>r. case r of
       Inl e \<Rightarrow> effect (records_audit D s RecordUpsert z (ri_Name inp) (upper (d_Ext D) (ri_Type inp)) (Some e)) (fail_with e)
     | Inr (rr, oldName, oldType) \<Rightarrow>
         effect (\<lambda>w. EmitRecord (d_Events D) z (rs_Name rr) (rs_Type rr) ActionUpserted SourceAPI
           (records_audit D s RecordUpsert z (rs_Name rr) (rs_Type rr) None w))
         (effect (\<lambda>w. if oldName \<noteq> rs_Name rr \<or> oldType \<noteq> rs_Type rr
            then EmitRecord (d_Events D) z oldName oldType ActionDeleted SourceAPI
              (records_audit D s RecordDelete z oldName oldType None w) else w)
         (ret (toView (d_Ext D) rr)))))"

definition records_remove :: "'w deps \<Rightarrow> zone \<Rightarrow> set_id \<Rightarrow> ('w, string \<times> string) act" where
  "records_remove D z k = check (writable z)
     (and_then (lift_res (record_key (d_Ext D) z k)) (\<lambda>(name, rtype).
      and_then (records_rrsets D z) (\<lambda>cur.
        if \<not> find_set (d_Ext D) cur name rtype then fail_with (Sent records_ErrNotFound)
        else and_then (records_patch D z [delete_set name rtype]) (\<lambda>_. ret (name, rtype)))))"

definition records_removed :: "'w deps \<Rightarrow> subjects \<Rightarrow> zone \<Rightarrow> set_id \<Rightarrow> string \<Rightarrow> gerr + string \<times> string \<Rightarrow> ('w, unit) act" where
  "records_removed D s z k source r = (case r of
     Inl e \<Rightarrow> effect (records_audit D s RecordDelete z (si_Name k) (upper (d_Ext D) (si_Type k)) (Some e)) (fail_with e)
   | Inr (name, rtype) \<Rightarrow> effect (\<lambda>w. EmitRecord (d_Events D) z name rtype ActionDeleted source
       (records_audit D s RecordDelete z name rtype None w)) (ret ()))"

definition records_Delete :: "'w deps \<Rightarrow> subjects \<Rightarrow> string \<Rightarrow> set_id \<Rightarrow> ('w, unit) act" where
  "records_Delete D s zid k = and_then (records_load D s zid ZonesManage) (\<lambda>z.
     on_result (records_remove D z k) (records_removed D s z k SourceAPI))"

definition records_Remove :: "'w deps \<Rightarrow> subjects \<Rightarrow> zone \<Rightarrow> set_id \<Rightarrow> string \<Rightarrow> ('w, unit) act" where
  "records_Remove D s z k source = check (Require None (withoutUser s) ZonesManage)
     (on_result (records_remove D z k) (\<lambda>r.
        if (case r of Inl e \<Rightarrow> errIs e records_ErrNotFound | Inr _ \<Rightarrow> False) then ret ()
        else records_removed D s z k source r))"

end
