(* ===== verification/Templates.thy ===== *)
theory Templates
  imports Zones Validate_Records
begin

text \<open>
  Zone templates, \<^verbatim>\<open>internal/templates/expand.go\<close> and
  \<^verbatim>\<open>internal/templates/templates.go\<close>: the expansion of template records into
  validated record sets and the template service.
\<close>

section \<open>Expansion\<close>

definition Placeholder :: string where "Placeholder = ''[ZONE]''"
definition placeholderZone :: string where "placeholderZone = ''placeholder.example.''"
definition MaxPriority :: int where "MaxPriority = 65535"

definition priorityFields :: "string \<Rightarrow> nat option" where
  "priorityFields t = (if t = ''MX'' then Some 2 else if t = ''SRV'' then Some 4 else None)"

definition recordErr :: "nat \<Rightarrow> string \<Rightarrow> gerr" where
  "recordErr i field = RecordError (''records['' @ itoa_nat i @ ''].'' @ field)"

definition withPriority :: "nat \<Rightarrow> template_record \<Rightarrow> string \<Rightarrow> string \<Rightarrow> string res" where
  "withPriority i r typ content0 =
     (if tr_Priority r < 0 \<or> tr_Priority r > MaxPriority then Inl (recordErr i ''priority'')
      else case priorityFields typ of
        None \<Rightarrow> if tr_Priority r \<noteq> 0 then Inl (recordErr i ''priority'') else Inr content0
      | Some full \<Rightarrow>
          if length (Fields content0) = full - 1 then Inr (Itoa (tr_Priority r) @ '' '' @ content0)
          else if length (Fields content0) = full \<and> tr_Priority r \<noteq> 0 then Inl (recordErr i ''priority'')
          else Inr content0)"

fun record_field :: "gerr \<Rightarrow> string option" where
  "record_field (RecordError f) = Some f"
| "record_field (Wrap s e) = record_field e"
| "record_field e = None"

definition indexed :: "nat \<Rightarrow> gerr \<Rightarrow> gerr" where
  "indexed i e = (case record_field e of
     Some f \<Rightarrow> recordErr i (if prefix ''values['' f then ''content'' else f)
   | None \<Rightarrow> if errIs e ErrName then recordErr i ''name'' else e)"

record tgroup =
  tg_first :: nat
  tg_in :: record_set_input

text \<open>The loop over the records: the groups by name and type, and the order they were met in.\<close>

definition group_add :: "string \<Rightarrow> nat \<Rightarrow> rrset \<Rightarrow> int \<Rightarrow> string \<Rightarrow> tgroup gomap \<Rightarrow> tgroup gomap" where
  "group_add k i rr ttl c gs =
     (let g = (case mget gs k of Some g \<Rightarrow> g
          | None \<Rightarrow> \<lparr>tg_first = i, tg_in = \<lparr>ri_Name = rs_Name rr, ri_Type = rs_Type rr, ri_TTL = ttl, ri_Values = [],
              ri_Comment = []\<rparr>\<rparr>)
      in mput k (g\<lparr>tg_in := (tg_in g)\<lparr>ri_Values := ri_Values (tg_in g) @ [\<lparr>rv_Content = c, rv_Disabled = False\<rparr>]\<rparr>\<rparr>) gs)"

definition set_key :: "rrset \<Rightarrow> string" where
  "set_key rr = rs_Name rr @ '' '' @ rs_Type rr"

fun expand_loop :: "ext \<Rightarrow> limits \<Rightarrow> string \<Rightarrow> nat \<Rightarrow> tgroup gomap \<Rightarrow> string list \<Rightarrow> template_record list \<Rightarrow>
    (tgroup gomap \<times> string list) res" where
  "expand_loop L l z i gs order [] = Inr (gs, order)"
| "expand_loop L l z i gs order (r # rs) =
     (let bare = TrimSuffix z ''.'';
          typ = upper L (TrimSpace (tr_Type r));
          name0 = TrimSpace (ReplaceAll (tr_Name r) Placeholder bare);
          name = (if name0 = [] then ''@'' else name0)
      in case withPriority i r typ (TrimSpace (ReplaceAll (tr_Content r) Placeholder bare)) of Inl e \<Rightarrow> Inl e
         | Inr c \<Rightarrow> (case RecordSet L l z \<lparr>ri_Name = name, ri_Type = typ, ri_TTL = tr_TTL r,
               ri_Values = [\<lparr>rv_Content = c, rv_Disabled = False\<rparr>], ri_Comment = []\<rparr> [] of
             Inl e \<Rightarrow> Inl (indexed i e)
           | Inr rr \<Rightarrow> expand_loop L l z (Suc i) (group_add (set_key rr) i rr (tr_TTL r) c gs)
               (if mget gs (set_key rr) = None then order @ [set_key rr] else order) rs))"

definition stub_set :: "tgroup \<Rightarrow> rrset" where
  "stub_set g = \<lparr>rs_Name = ri_Name (tg_in g), rs_Type = ri_Type (tg_in g), rs_TTL = 0, rs_ChangeType = [],
     rs_Records = [], rs_Comments = None\<rparr>"

definition expand_group :: "ext \<Rightarrow> limits \<Rightarrow> string \<Rightarrow> tgroup gomap \<Rightarrow> string list \<Rightarrow> string \<Rightarrow> rrset res" where
  "expand_group L l z gs order k =
     (let g = the (mget gs k); others = map (\<lambda>k. stub_set (the (mget gs k))) (filter (\<lambda>k'. k' \<noteq> k) order)
      in case RecordSet L l z (tg_in g) others of Inl e \<Rightarrow> Inl (indexed (tg_first g) e)
         | Inr rr \<Rightarrow> Inr (rr\<lparr>rs_Comments := None\<rparr>))"

definition ExpandRecords :: "ext \<Rightarrow> limits \<Rightarrow> string \<Rightarrow> template_record list \<Rightarrow> rrset list res" where
  "ExpandRecords L l zn recs = (case ZoneName L zn of Inl e \<Rightarrow> Inl e
     | Inr z \<Rightarrow>
         if length recs > MaxTemplateRecords then Inl (Sent templates_ErrInvalid)
         else (case expand_loop L l z 0 [] [] recs of Inl e \<Rightarrow> Inl e
           | Inr (gs, order) \<Rightarrow> mapM (expand_group L l z gs (sort order)) (sort order)))"

section \<open>The service\<close>

definition templates_MaxName :: nat where "templates_MaxName = 100"

record template_input =
  ti_Name :: string
  ti_Description :: string
  ti_Records :: "template_record list"

definition templates_guard :: "'w deps \<Rightarrow> subjects \<Rightarrow> string \<Rightarrow> gerr option" where
  "templates_guard D s perm =
     (if s_TenantID s = [] then Some (Sent ErrForbidden)
      else if IsHuman s \<and> d_Checker D = None then None
      else Require (d_Checker D) s perm)"

definition templates_hasControl :: "string \<Rightarrow> bool" where
  "templates_hasControl s = list_ex IsControl (runes s)"

definition normal_record :: "ext \<Rightarrow> template_record \<Rightarrow> template_record" where
  "normal_record L r = r\<lparr>tr_Name := TrimSpace (tr_Name r), tr_Content := TrimSpace (tr_Content r),
     tr_Type := upper L (TrimSpace (tr_Type r))\<rparr>"

text \<open>\<open>normalize\<close> returns the normalised input next to its error.\<close>

definition normalize :: "ext \<Rightarrow> limits \<Rightarrow> template_input \<Rightarrow> template_input \<times> gerr option" where
  "normalize L l inp =
     (let out = \<lparr>ti_Name = TrimSpace (ti_Name inp), ti_Description = TrimSpace (ti_Description inp), ti_Records = []\<rparr> in
      if ti_Name out = [] \<or> RuneCount (ti_Name out) > templates_MaxName \<or> templates_hasControl (ti_Name out)
      then (out, Some (Sent templates_ErrInvalid))
      else if RuneCount (ti_Description out) > MaxDescription then (out, Some (Sent templates_ErrInvalid))
      else let out' = out\<lparr>ti_Records := map (normal_record L) (ti_Records inp)\<rparr>
        in case ExpandRecords L l placeholderZone (ti_Records out') of Inl e \<Rightarrow> (out', Some e) | Inr _ \<Rightarrow> (out', None))"

definition templates_audit :: "'w deps \<Rightarrow> subjects \<Rightarrow> string \<Rightarrow> string \<Rightarrow> string \<Rightarrow> gerr option \<Rightarrow> 'w \<Rightarrow> 'w" where
  "templates_audit D s t i name err =
     (let (outcome, reason) = (case err of None \<Rightarrow> (OutcomeOK, [])
          | Some e \<Rightarrow>
              if errIs e zones_ErrTemplateNotFound then (OutcomeRefused, ''template_not_found'')
              else if errIs e templates_ErrDuplicate then (OutcomeRefused, ''conflict'')
              else if record_field e \<noteq> None then (OutcomeRefused, ''invalid_record'')
              else if errIs e templates_ErrInvalid \<or> errIs e ErrName then (OutcomeRefused, ''bad_request'')
              else (OutcomeError, ''error''))
      in audit_Emit (d_Audit D)
        \<lparr>ae_TenantID = s_TenantID s, ae_EventType = t, ae_ActorKind = ActorOf (s_ActorKind s), ae_ActorID = ActorID s,
         ae_SubjectKind = SubjectTemplate, ae_SubjectID = i, ae_Outcome = outcome, ae_Reason = reason,
         ae_Details = [(''name'', DStr name)]\<rparr>)"

definition templates_mapStore :: "gerr \<Rightarrow> gerr" where
  "templates_mapStore e = (if errIs e repo_ErrNotFound then Sent zones_ErrTemplateNotFound
     else if errIs e repo_ErrConflict then Sent templates_ErrDuplicate else e)"

definition templates_List ::
  "'w deps \<Rightarrow> (string \<Rightarrow> 'q \<Rightarrow> ('w, template list \<times> int \<times> 'q) act) \<Rightarrow> subjects \<Rightarrow> 'q \<Rightarrow> ('w, template list \<times> int \<times> 'q) act" where
  "templates_List D ListTemplates s req = check (templates_guard D s ZonesRead) (ListTemplates (s_TenantID s) req)"

definition templates_Get :: "'w deps \<Rightarrow> subjects \<Rightarrow> string \<Rightarrow> ('w, template) act" where
  "templates_Get D s i = check (templates_guard D s ZonesRead)
     (map_err templates_mapStore (r_GetTemplate (d_Store D) (s_TenantID s) i))"

definition templates_Create :: "'w deps \<Rightarrow> limits \<Rightarrow> subjects \<Rightarrow> template_input \<Rightarrow> ('w, template) act" where
  "templates_Create D l s inp = check (templates_guard D s TemplatesManage)
     (case normalize (d_Ext D) l inp of
        (n, Some e) \<Rightarrow> effect (templates_audit D s TemplateCreate [] (ti_Name n) (Some e)) (fail_with e)
      | (n, None) \<Rightarrow> reading (d_Now D) (\<lambda>now. \<lambda>w. case d_NewID D w of (i, w1) \<Rightarrow>
          let t = \<lparr>t_ID = i, t_TenantID = s_TenantID s, t_Name = ti_Name n, t_Description = ti_Description n,
                t_Records = ti_Records n, t_CreatedAt = now, t_UpdatedAt = now\<rparr>
          in on_result (map_err templates_mapStore (r_CreateTemplate (d_Store D) t)) (\<lambda>r. case r of
               Inl e \<Rightarrow> effect (templates_audit D s TemplateCreate (t_ID t) (t_Name t) (Some e)) (fail_with e)
             | Inr _ \<Rightarrow> effect (templates_audit D s TemplateCreate (t_ID t) (t_Name t) None) (ret t)) w1))"

definition templates_Update :: "'w deps \<Rightarrow> limits \<Rightarrow> subjects \<Rightarrow> string \<Rightarrow> template_input \<Rightarrow> ('w, template) act" where
  "templates_Update D l s i inp = check (templates_guard D s TemplatesManage)
     (case normalize (d_Ext D) l inp of
        (n, Some e) \<Rightarrow> effect (templates_audit D s TemplateUpdate i (ti_Name n) (Some e)) (fail_with e)
      | (n, None) \<Rightarrow> reading (d_Now D) (\<lambda>now.
          on_result (map_err templates_mapStore (r_UpdateTemplate (d_Store D)
            \<lparr>t_ID = i, t_TenantID = s_TenantID s, t_Name = ti_Name n, t_Description = ti_Description n,
             t_Records = ti_Records n, t_CreatedAt = 0, t_UpdatedAt = now\<rparr>)) (\<lambda>r. case r of
            Inl e \<Rightarrow> effect (templates_audit D s TemplateUpdate i (ti_Name n) (Some e)) (fail_with e)
          | Inr t \<Rightarrow> effect (templates_audit D s TemplateUpdate i (t_Name t) None) (ret t))))"

definition templates_Delete :: "'w deps \<Rightarrow> subjects \<Rightarrow> string \<Rightarrow> ('w, unit) act" where
  "templates_Delete D s i = check (templates_guard D s TemplatesManage)
     (on_result (map_err templates_mapStore (r_DeleteTemplate (d_Store D) (s_TenantID s) i)) (\<lambda>r. case r of
        Inl e \<Rightarrow> effect (templates_audit D s TemplateDelete i [] (Some e)) (fail_with e)
      | Inr _ \<Rightarrow> effect (templates_audit D s TemplateDelete i [] None) (ret ())))"

definition templates_Expand :: "ext \<Rightarrow> limits \<Rightarrow> 'w repo \<Rightarrow> string \<Rightarrow> string \<Rightarrow> string \<Rightarrow> ('w, rrset list) act" where
  "templates_Expand L l R tenant tid zn =
     and_then (map_err templates_mapStore (r_GetTemplate R tenant tid)) (\<lambda>t. lift_res (ExpandRecords L l zn (t_Records t)))"

section \<open>Facts\<close>

text \<open>Upper-casing twice is upper-casing once (a law of the Unicode case tables).\<close>

definition upper_law :: "ext \<Rightarrow> bool" where
  "upper_law L = (\<forall>s. upper L (upper L s) = upper L s)"

lemma upper_law_sample [simp]: "upper_law sample_ext"
  using ToUpper_id [OF upper_sample] by (simp add: upper_law_def sample_ext_def)

lemma EditableTypes_upper: "t \<in> set EditableTypes \<Longrightarrow> upper L t = t \<and> TrimSpace t = t"
proof -
  have a: "list_all (\<lambda>t. list_all (\<lambda>c. byte c < 128 \<and> \<not> is_lower c) t) EditableTypes"
    and b: "list_all (\<lambda>t. TrimSpace t = t) EditableTypes" by code_simp+
  show "t \<in> set EditableTypes \<Longrightarrow> upper L t = t \<and> TrimSpace t = t"
    using a b ToUpper_id by (auto simp: list_all_iff)
qed

lemma editableType_listed:
  assumes "upper_law L" "editableType L s = Inr t"
  shows "t \<in> set EditableTypes" "editableType L t = Inr t"
proof -
  have t: "t = upper L (TrimSpace s)" "Editable L t" "t \<noteq> ''SOA''" using editableType_ok [OF assms(2)] by auto
  have "upper L t = t" using assms(1) t(1) by (simp add: upper_law_def)
  then show m: "t \<in> set EditableTypes" using t(2) by (auto simp: Editable_def list_ex_iff)
  show "editableType L t = Inr t"
    using EditableTypes_upper [OF m, of L] t(2,3) by (simp add: editableType_def)
qed

definition group_ok :: "ext \<Rightarrow> string \<Rightarrow> string \<Rightarrow> tgroup \<Rightarrow> bool" where
  "group_ok L z k g = (k = ri_Name (tg_in g) @ '' '' @ ri_Type (tg_in g) \<and>
     RecordName L z (ri_Name (tg_in g)) = Inr (ri_Name (tg_in g)) \<and>
     editableType L (ri_Type (tg_in g)) = Inr (ri_Type (tg_in g)))"

definition groups_ok :: "ext \<Rightarrow> string \<Rightarrow> tgroup gomap \<Rightarrow> string list \<Rightarrow> bool" where
  "groups_ok L z gs order = (distinct order \<and> (\<forall>k. k \<in> set order \<longleftrightarrow> mget gs k \<noteq> None) \<and>
     (\<forall>k g. mget gs k = Some g \<longrightarrow> group_ok L z k g))"

lemma groups_ok_add:
  assumes laws: "fqdn_law L" "split_law L" "upper_law L" and z: "canonicalZone L z = Inr z"
    and g: "groups_ok L z gs order" and rr: "RecordSet L l z inp ex = Inr rr"
  shows "groups_ok L z (group_add (set_key rr) i rr ttl c gs)
    (if mget gs (set_key rr) = None then order @ [set_key rr] else order)"
proof -
  obtain z' where z': "canonicalZone L z = Inr z'" "editableType L (ri_Type inp) = Inr (rs_Type rr)"
    "RecordName L z' (ri_Name inp) = Inr (rs_Name rr)"
    using RecordSet_ok [OF rr] by metis
  have n: "RecordName L z (rs_Name rr) = Inr (rs_Name rr)"
    using z z' RecordName_id [OF laws(1,2) z'(3)] by simp
  have t: "editableType L (rs_Type rr) = Inr (rs_Type rr)" by (rule editableType_listed [OF laws(3) z'(2)])
  have new: "group_ok L z (set_key rr) \<lparr>tg_first = i, tg_in = \<lparr>ri_Name = rs_Name rr, ri_Type = rs_Type rr, ri_TTL = ttl,
      ri_Values = vs, ri_Comment = []\<rparr>\<rparr>" for vs
    using n t by (simp add: group_ok_def set_key_def)
  have old: "group_ok L z k (h\<lparr>tg_in := (tg_in h)\<lparr>ri_Values := vs\<rparr>\<rparr>) = group_ok L z k h" for k h vs
    by (simp add: group_ok_def)
  show ?thesis
    using g new old unfolding groups_ok_def
    by (cases "mget gs (set_key rr)") (auto simp: group_add_def)
qed

lemma expand_loop_groups:
  assumes laws: "fqdn_law L" "split_law L" "upper_law L" and z: "canonicalZone L z = Inr z"
  shows "expand_loop L l z i gs order recs = Inr (gs', order') \<Longrightarrow> groups_ok L z gs order \<Longrightarrow>
    groups_ok L z gs' order' \<and> length order' \<le> length order + length recs"
proof (induction recs arbitrary: i gs order)
  case (Cons r recs)
  obtain inp c rr where rr: "RecordSet L l z inp [] = Inr rr" and
    run: "expand_loop L l z (Suc i) (group_add (set_key rr) i rr (tr_TTL r) c gs)
       (if mget gs (set_key rr) = None then order @ [set_key rr] else order) recs = Inr (gs', order')"
    using Cons.prems(1) by (fastforce simp: Let_def split: sum.splits)
  from Cons.IH [OF run groups_ok_add [OF laws z Cons.prems(2) rr]]
  show ?case by (auto split: if_splits)
qed simp

lemma mapM_ok: "mapM f xs = Inr ys \<Longrightarrow> list_all2 (\<lambda>x y. f x = Inr y) xs ys"
  by (induction xs arbitrary: ys) (auto split: sum.splits)

lemma list_all2_image: "list_all2 P xs ys \<Longrightarrow> y \<in> set ys \<Longrightarrow> \<exists>x \<in> set xs. P x y"
  by (induction rule: list_all2_induct) auto

lemma expand_group_ok:
  assumes z: "canonicalZone L z = Inr z" and g: "groups_ok L z gs order" and k: "k \<in> set order"
    and r: "expand_group L l z gs order k = Inr rr"
  shows "set_key rr = k \<and> RecordName L z (rs_Name rr) = Inr (rs_Name rr) \<and> editableType L (rs_Type rr) = Inr (rs_Type rr) \<and>
    rs_Records rr \<noteq> [] \<and> ri_Name (tg_in (the (mget gs k))) = rs_Name rr \<and> ri_Type (tg_in (the (mget gs k))) = rs_Type rr \<and>
    (rs_Type rr = ''CNAME'' \<longrightarrow> (\<forall>k' \<in> set order. k' \<noteq> k \<longrightarrow>
      fold_eq L (ri_Name (tg_in (the (mget gs k')))) (rs_Name rr) \<longrightarrow> fold_eq L (ri_Type (tg_in (the (mget gs k')))) ''CNAME''))"
proof -
  obtain g where gk: "mget gs k = Some g" and gok: "group_ok L z k g" using g k unfolding groups_ok_def by blast
  define others where "others = map (\<lambda>k. stub_set (the (mget gs k))) (filter (\<lambda>k'. k' \<noteq> k) order)"
  obtain rr0 where rr0: "RecordSet L l z (tg_in g) others = Inr rr0" "rr = rr0\<lparr>rs_Comments := None\<rparr>"
    using r gk by (auto simp: expand_group_def Let_def others_def split: sum.splits)
  obtain z' where "canonicalZone L z = Inr z'" "editableType L (ri_Type (tg_in g)) = Inr (rs_Type rr0)"
    "RecordName L z' (ri_Name (tg_in g)) = Inr (rs_Name rr0)" "cname_clash L (rs_Type rr0) (rs_Name rr0) others = None"
    "values_loop L (rs_Type rr0) z' 0 [] (ri_Values (tg_in g)) = Inr (rs_Records rr0)" "ri_Values (tg_in g) \<noteq> []"
    using RecordSet_ok [OF rr0(1)] by metis
  moreover from this have "rs_Records rr0 \<noteq> []" using values_loop_ok by (fastforce simp: list_all2_lengthD)
  ultimately show ?thesis
    using z gok gk rr0(2) unfolding group_ok_def cname_clash_None
    by (auto simp: set_key_def others_def stub_set_def)
qed

lemma EditableTypes_fold: "t \<in> set EditableTypes \<Longrightarrow> fold_eq L t ''CNAME'' \<Longrightarrow> t = ''CNAME''"
proof -
  have a: "list_all (\<lambda>t. is_ascii t \<and> (map lower_byte t = map lower_byte ''CNAME'' \<longrightarrow> t = ''CNAME'')) EditableTypes"
    and b: "is_ascii ''CNAME''" by code_simp+
  assume "t \<in> set EditableTypes" and f: "fold_eq L t ''CNAME''"
  then have "is_ascii t \<and> (map lower_byte t = map lower_byte ''CNAME'' \<longrightarrow> t = ''CNAME'')" using a unfolding list_all_iff by blast
  with b f show "t = ''CNAME''" unfolding EqualFold_def by (metis (full_types))
qed

lemma groups_ok_sort: "groups_ok L z gs order \<Longrightarrow> groups_ok L z gs (sort order)"
  by (simp add: groups_ok_def)

lemma expand_groups_ok:
  assumes laws: "fqdn_law L" "split_law L" "upper_law L" and z: "canonicalZone L z = Inr z"
    and g: "groups_ok L z gs order" and m: "mapM (expand_group L l z gs order) order = Inr out"
  shows "map set_key out = order"
    "r \<in> set out \<Longrightarrow> owner_name (rs_Name r) \<and> InZone (rs_Name r) z \<and> rs_Type r \<in> set EditableTypes \<and> rs_Records r \<noteq> []"
    "r \<in> set out \<Longrightarrow> q \<in> set out \<Longrightarrow> rs_Type r = ''CNAME'' \<Longrightarrow> rs_Name q = rs_Name r \<Longrightarrow> q = r"
proof -
  note ok = expand_group_ok [OF z g]
  have l2: "list_all2 (\<lambda>k rr. expand_group L l z gs order k = Inr rr) order out" by (rule mapM_ok [OF m])
  then have "list_all2 (\<lambda>k rr. set_key rr = k) order out"
    by (rule list.rel_mono_strong) (use ok in auto)
  then show keys: "map set_key out = order"
    by (induction rule: list_all2_induct) auto
  have row: "\<exists>k \<in> set order. expand_group L l z gs order k = Inr r" if "r \<in> set out" for r
    using list_all2_image [OF l2 that] .
  show "owner_name (rs_Name r) \<and> InZone (rs_Name r) z \<and> rs_Type r \<in> set EditableTypes \<and> rs_Records r \<noteq> []"
    if r: "r \<in> set out" for r
  proof -
    have "RecordName L z (rs_Name r) = Inr (rs_Name r)" "editableType L (rs_Type r) = Inr (rs_Type r)" "rs_Records r \<noteq> []"
      using row [OF r] ok by blast+
    then show ?thesis using RecordName_owner [OF laws(1,2)] z editableType_listed [OF laws(3)] by (metis sum.inject(2))
  qed
  note valid = this
  show "q = r" if "r \<in> set out" "q \<in> set out" "rs_Type r = ''CNAME''" "rs_Name q = rs_Name r"
  proof (rule ccontr)
    assume "q \<noteq> r"
    have d: "distinct (map set_key out)" using keys g by (simp add: groups_ok_def)
    have inj: "set_key q \<noteq> set_key r" using d that(1,2) \<open>q \<noteq> r\<close> by (auto simp: distinct_map inj_on_def)
    have kr: "expand_group L l z gs order (set_key r) = Inr r" "set_key r \<in> set order"
      using row [OF that(1)] ok by blast+
    have kq: "set_key q \<in> set order" using row [OF that(2)] ok by blast
    have qg: "ri_Name (tg_in (the (mget gs (set_key q)))) = rs_Name q \<and> ri_Type (tg_in (the (mget gs (set_key q)))) = rs_Type q"
      using row [OF that(2)] ok by blast
    have "fold_eq L (rs_Type q) ''CNAME''"
      using ok [OF kr(2,1)] that(3,4) kq inj qg by (metis EqualFold_refl)
    then have "rs_Type q = ''CNAME''" using EditableTypes_fold valid [OF that(2)] by blast
    then show False using inj that(3,4) by (simp add: set_key_def)
  qed
qed

lemma set_key_inj: "distinct (map set_key rs) \<Longrightarrow> distinct (map (\<lambda>r. (rs_Name r, rs_Type r)) rs)"
  by (auto simp: distinct_map inj_on_def set_key_def)

section \<open>Properties\<close>

text \<open>
  C39: an expanded template is a set of record sets that can be written to the new
  zone in one request. Every owner name lies in the zone, every type is one of the
  editable types, no set is empty, no (name, type) pair occurs twice, and a CNAME
  set is the only set at its name; there are at most as many sets as template
  records, and those are at most 200.
\<close>

theorem ExpandRecords_sound:
  assumes "fqdn_law L" and "split_law L" and "upper_law L" and run: "ExpandRecords L l zn recs = Inr out"
  shows "\<exists>z. ZoneName L zn = Inr z \<and> length out \<le> length recs \<and> length recs \<le> MaxTemplateRecords \<and>
    distinct (map (\<lambda>r. (rs_Name r, rs_Type r)) out) \<and>
    (\<forall>r \<in> set out. owner_name (rs_Name r) \<and> InZone (rs_Name r) z \<and> rs_Type r \<in> set EditableTypes \<and> rs_Records r \<noteq> []) \<and>
    (\<forall>r \<in> set out. \<forall>q \<in> set out. rs_Type r = ''CNAME'' \<and> rs_Name q = rs_Name r \<longrightarrow> q = r)"
proof -
  obtain z gs order where zn: "ZoneName L zn = Inr z" and n: "length recs \<le> MaxTemplateRecords"
    and loop: "expand_loop L l z 0 [] [] recs = Inr (gs, order)"
    and m: "mapM (expand_group L l z gs (sort order)) (sort order) = Inr out"
    using run by (auto simp: ExpandRecords_def split: sum.splits if_splits)
  have z: "canonicalZone L z = Inr z" by (rule ZoneName_canonicalZone [OF ZoneName_id [OF assms(1,2) zn]])
  have "groups_ok L z [] []" by (simp add: groups_ok_def)
  from expand_loop_groups [OF assms(1-3) z loop this]
  have g: "groups_ok L z gs (sort order)" and len: "length order \<le> length recs" by (simp_all add: groups_ok_sort)
  note out = expand_groups_ok [OF assms(1-3) z g m]
  have "length out \<le> length recs" using out(1) len by (metis length_map length_sort)
  moreover have "distinct (map (\<lambda>r. (rs_Name r, rs_Type r)) out)"
    using out(1) g by (intro set_key_inj) (simp add: groups_ok_def)
  ultimately show ?thesis using zn n out(2,3) by blast
qed

theorem ExpandRecords_sound_witness:
  "\<exists>out. ExpandRecords sample_ext DefaultLimits ''example.com.''
      [\<lparr>tr_Name = ''www'', tr_Type = ''a'', tr_TTL = 300, tr_Content = ''192.0.2.1'', tr_Priority = 0\<rparr>,
       \<lparr>tr_Name = ''www.[ZONE].'', tr_Type = ''A'', tr_TTL = 600, tr_Content = ''192.0.2.2'', tr_Priority = 0\<rparr>] = Inr out \<and>
    length out \<le> 2 \<and> (\<forall>r \<in> set out. InZone (rs_Name r) ''example.com.'')"
proof -
  define recs where "recs = [\<lparr>tr_Name = ''www'', tr_Type = ''a'', tr_TTL = 300, tr_Content = ''192.0.2.1'', tr_Priority = 0\<rparr>,
       \<lparr>tr_Name = ''www.[ZONE].'', tr_Type = ''A'', tr_TTL = 600, tr_Content = ''192.0.2.2'', tr_Priority = 0\<rparr>]"
  have "\<not> isl (ExpandRecords sample_ext DefaultLimits ''example.com.'' recs)" unfolding recs_def by code_simp
  then obtain out where out: "ExpandRecords sample_ext DefaultLimits ''example.com.'' recs = Inr out"
    by (metis isl_def old.sum.exhaust)
  have "ZoneName sample_ext ''example.com.'' = Inr ''example.com.''" by code_simp
  then show ?thesis
    using ExpandRecords_sound [OF sample_laws upper_law_sample out] out by (auto simp: recs_def)
qed

end
