(* ===== verification/Record_Contract.thy ===== *)
theory Record_Contract
  imports Zone_Contract Records Templates
begin

text \<open>
  What the record service guarantees for every PowerDNS server that keeps the
  contract \<open>record_env\<close>: the zone contract extended by the patch of record sets,
  which acts on the contents of a zone as the sequence of its changes.
\<close>

section \<open>Contents of a zone\<close>

definition plain_type :: "string \<Rightarrow> bool" where
  "plain_type t = list_all (\<lambda>c. byte c < 128 \<and> \<not> is_lower c) t"

text \<open>Owner names in lower case, types in upper case, and a CNAME alone at its name.\<close>

definition tidy :: "zone_content \<Rightarrow> bool" where
  "tidy c = (\<forall>n t. c (n, t) \<noteq> None \<longrightarrow> plain_name n \<and> plain_type t \<and> (t \<noteq> ''CNAME'' \<longrightarrow> c (n, ''CNAME'') = None))"

lemma EqualFold_lower:
  assumes "list_all (\<lambda>c. byte c < 128 \<and> \<not> is_upper c) s" "list_all (\<lambda>c. byte c < 128 \<and> \<not> is_upper c) t"
  shows "EqualFold u s t \<longleftrightarrow> s = t"
proof -
  have l: "map lower_byte x = x" if "list_all (\<lambda>c. byte c < 128 \<and> \<not> is_upper c) x" for x
    using that by (auto simp: list_all_iff lower_byte_def intro!: map_idI)
  show ?thesis using assms l [OF assms(1)] l [OF assms(2)] by (simp add: EqualFold_def is_ascii_def list_all_iff)
qed

lemma byte_lower_byte: "byte (lower_byte c) = (if 65 \<le> byte c \<and> byte c \<le> 90 then byte c + 32 else byte c)"
  by (simp add: lower_byte_def is_upper_def)

lemma lower_byte_inj:
  assumes "\<not> is_lower c" "\<not> is_lower d" "lower_byte c = lower_byte d"
  shows "c = d"
proof -
  have "byte (lower_byte c) = byte (lower_byte d)" using assms(3) by simp
  then have "byte c = byte d" using assms(1,2) unfolding byte_lower_byte is_lower_def by (simp split: if_splits)
  then show ?thesis by simp
qed

lemma EqualFold_upper:
  assumes "plain_type s" "plain_type t"
  shows "EqualFold u s t \<longleftrightarrow> s = t"
proof -
  have "map lower_byte s = map lower_byte t \<longleftrightarrow> s = t"
  proof
    have inj: "inj_on lower_byte (set s \<union> set t)"
      using assms lower_byte_inj by (auto simp: plain_type_def list_all_iff intro!: inj_onI)
    assume "map lower_byte s = map lower_byte t"
    then show "s = t" by (rule map_inj_on [OF _ inj])
  qed simp
  then show ?thesis using assms by (simp add: EqualFold_def is_ascii_def plain_type_def list_all_iff)
qed

lemma plain_fold: "plain_name m \<Longrightarrow> plain_name n \<Longrightarrow> EqualFold u m n \<longleftrightarrow> m = n"
  using plain_name_chars(1) by (intro EqualFold_lower) (auto simp: list_all_iff)

lemma content_key: "r \<in> set sets \<Longrightarrow> content_of sets (rs_Name r, rs_Type r) \<noteq> None"
  by (auto simp: content_of_def lookup_set_def find_None_iff same_set_def)

lemma content_set: "content_of sets (n, t) = Some v \<Longrightarrow> \<exists>r \<in> set sets. rs_Name r = n \<and> rs_Type r = t"
  by (auto simp: content_of_def lookup_set_def same_set_def find_Some_iff)

lemma plain_EditableTypes: "t \<in> set EditableTypes \<Longrightarrow> plain_type t"
proof -
  have "list_all plain_type EditableTypes" by code_simp
  then show "t \<in> set EditableTypes \<Longrightarrow> plain_type t" by (auto simp: list_all_iff)
qed

lemma RecordSet_plain:
  assumes laws: "fqdn_law L" "split_law L" "upper_law L" and rr: "RecordSet L l zn inp sets = Inr rr"
  shows "plain_name (rs_Name rr)" "plain_type (rs_Type rr)" "is_replace rr"
    "\<And>e. e \<in> set sets \<Longrightarrow> fold_eq L (rs_Name e) (rs_Name rr) \<Longrightarrow>
       fold_eq L (rs_Type e) (rs_Type rr) \<or> rs_Type rr \<noteq> ''CNAME'' \<and> \<not> fold_eq L (rs_Type e) ''CNAME''"
proof -
  obtain z where z: "editableType L (ri_Type inp) = Inr (rs_Type rr)" "RecordName L z (ri_Name inp) = Inr (rs_Name rr)"
    "rs_ChangeType rr = ChangeReplace" "ri_Values inp \<noteq> []" "cname_clash L (rs_Type rr) (rs_Name rr) sets = None"
    "values_loop L (rs_Type rr) z 0 [] (ri_Values inp) = Inr (rs_Records rr)" by (rule RecordSet_ok [OF rr])
  show "plain_name (rs_Name rr)" by (rule RecordName_owner [OF laws(1,2) z(2)]) (rule owner_plain)
  show "plain_type (rs_Type rr)" using editableType_listed(1) [OF laws(3) z(1)] plain_EditableTypes by blast
  show "is_replace rr" using z(3,4) values_loop_ok [OF z(6)] by (auto simp: is_replace_def)
  show "fold_eq L (rs_Type e) (rs_Type rr) \<or> rs_Type rr \<noteq> ''CNAME'' \<and> \<not> fold_eq L (rs_Type e) ''CNAME''"
    if "e \<in> set sets" "fold_eq L (rs_Name e) (rs_Name rr)" for e
    using z(5) that unfolding cname_clash_None by blast
qed

lemma RecordSet_key:
  assumes laws: "fqdn_law L" "split_law L" and rr: "RecordSet L l zn inp sets = Inr rr"
  shows "RecordName L zn (ri_Name inp) = Inr (rs_Name rr)" "upper L (TrimSpace (ri_Type inp)) = rs_Type rr"
proof -
  obtain z where z: "canonicalZone L zn = Inr z" "editableType L (ri_Type inp) = Inr (rs_Type rr)" "RecordName L z (ri_Name inp) = Inr (rs_Name rr)"
    by (rule RecordSet_ok [OF rr])
  have "canonicalZone L z = Inr z" by (rule canonicalZone_id [OF laws canonicalZone_canonical [OF laws z(1)]])
  then show "RecordName L zn (ri_Name inp) = Inr (rs_Name rr)" using z(1,3) by (simp add: RecordName_def)
  show "upper L (TrimSpace (ri_Type inp)) = rs_Type rr" using editableType_ok [OF z(2)] by auto
qed

lemma plain_CNAME: "plain_type ''CNAME''"
  by code_simp

lemma tidy_RecordSet:
  assumes laws: "fqdn_law L" "split_law L" "upper_law L" and tidy: "tidy (content_of sets)"
    and rr: "RecordSet L l zn inp rest = Inr rr"
    and rest: "\<And>r. r \<in> set sets \<Longrightarrow> (rs_Name r, rs_Type r) \<noteq> old \<Longrightarrow> r \<in> set rest"
  shows "tidy ((content_of sets)(old := None, (rs_Name rr, rs_Type rr) \<mapsto> v))"
proof -
  note p = RecordSet_plain [OF laws rr]
  have clash: "rs_Type rr = t \<or> rs_Type rr \<noteq> ''CNAME'' \<and> t \<noteq> ''CNAME''"
    if k: "content_of sets (rs_Name rr, t) \<noteq> None" "(rs_Name rr, t) \<noteq> old" for t
  proof -
    obtain r where r: "r \<in> set sets" "rs_Name r = rs_Name rr" "rs_Type r = t" using k(1) content_set by blast
    have t: "plain_type t" using tidy k(1) by (auto simp: tidy_def)
    have "r \<in> set rest" using rest r k(2) by auto
    then have "fold_eq L t (rs_Type rr) \<or> rs_Type rr \<noteq> ''CNAME'' \<and> \<not> fold_eq L t ''CNAME''"
      using p(4) [of r] r(2,3) by (simp add: EqualFold_refl)
    then show ?thesis using EqualFold_upper [OF t p(2)] EqualFold_upper [OF t plain_CNAME] by auto
  qed
  show ?thesis unfolding tidy_def
  proof (intro allI impI)
    fix n t
    let ?c = "(content_of sets)(old := None, (rs_Name rr, rs_Type rr) \<mapsto> v)"
    assume k: "?c (n, t) \<noteq> None"
    show "plain_name n \<and> plain_type t \<and> (t \<noteq> ''CNAME'' \<longrightarrow> ?c (n, ''CNAME'') = None)"
    proof (cases "(n, t) = (rs_Name rr, rs_Type rr)")
      case True
      then show ?thesis using p(1,2) clash [of "''CNAME''"] by (cases "content_of sets (rs_Name rr, ''CNAME'')") auto
    next
      case False
      then have c: "content_of sets (n, t) \<noteq> None" "(n, t) \<noteq> old" using k by (auto split: if_splits)
      then have "plain_name n \<and> plain_type t \<and> (t \<noteq> ''CNAME'' \<longrightarrow> content_of sets (n, ''CNAME'') = None)"
        using tidy by (simp add: tidy_def)
      then show ?thesis using clash [of t] c by auto
    qed
  qed
qed

lemma record_key_plain:
  assumes laws: "fqdn_law L" "split_law L" "upper_law L" and "record_key L z k = Inr (n, t)"
  shows "plain_name n" "plain_type t"
proof -
  have n: "RecordName L (z_Name z) (si_Name k) = Inr n" and t: "t = upper L (TrimSpace (si_Type k))" "Editable L t"
    using assms(4) by (auto simp: record_key_def Let_def split: sum.splits if_splits)
  show "plain_name n" by (rule RecordName_owner [OF laws(1,2) n]) (rule owner_plain)
  have "upper L t = t" using laws(3) t(1) by (simp add: upper_law_def)
  then show "plain_type t" using t(2) plain_EditableTypes by (auto simp: Editable_def list_ex_iff)
qed

section \<open>The contract\<close>

locale record_env = zone_env D zs inv ps for D :: "'w deps" and zs inv ps +
  assumes server_patch: "inv w \<Longrightarrow> p_PatchRRsets (d_PDNS D) i rs w = (Inr x, w') \<Longrightarrow>
      \<exists>p p'. ps w i = Some p \<and> ps w' = (ps w)(i \<mapsto> p') \<and> content_of (pz_RRsets p') = foldl spec_change (content_of (pz_RRsets p)) rs \<and>
        agrees z p' = agrees z p"
    and server_patch_failed: "p_PatchRRsets (d_PDNS D) i rs w = (Inl e, w') \<Longrightarrow> ps w' = ps w"
    and server_patch_frame: "zs (snd (p_PatchRRsets (d_PDNS D) i rs w)) = zs w" "keeps inv (p_PatchRRsets (d_PDNS D) i rs)"
    and record_event_frame: "zs (EmitRecord (d_Events D) z n t a src w) = zs w" "ps (EmitRecord (d_Events D) z n t a src w) = ps w"
      "inv w \<Longrightarrow> inv (EmitRecord (d_Events D) z n t a src w)"
begin

lemma rrsets_outcome:
  assumes "inv w" and "records_rrsets D z w = (r, w')"
  shows "still w w'" "r = Inr sets \<Longrightarrow> \<exists>p. ps w (z_PDNSID z) = Some p \<and> sets = cloneRRsets (pz_RRsets p)"
proof -
  obtain g w1 where g: "p_GetZone (d_PDNS D) (z_PDNSID z) w = (g, w1)" by fastforce
  have w': "w' = w1" and r: "r = Inr sets \<Longrightarrow> \<exists>p. g = Inr p \<and> sets = pz_RRsets p"
    using assms(2) g by (auto simp: records_rrsets_def and_then_def map_err_def ret_def split: sum.splits)
  show "still w w'" using run_frame(9) [OF g] run_inv(8) [OF assms(1) g] w' by (simp add: still_def)
  show "r = Inr sets \<Longrightarrow> \<exists>p. ps w (z_PDNSID z) = Some p \<and> sets = cloneRRsets (pz_RRsets p)"
    using server_get [of "z_PDNSID z" w] g r by (fastforce simp: clonePZone_def)
qed

lemma records_audit_frame [simp]:
  "zs (records_audit D s t z n ty e w) = zs w" "ps (records_audit D s t z n ty e w) = ps w"
  "inv w \<Longrightarrow> inv (records_audit D s t z n ty e w)"
  by (simp_all add: records_audit_def other_frame split: prod.split)

lemmas record_frames [simp] = record_event_frame

text \<open>The zone \<open>i\<close> changed its contents from \<open>c\<close> to \<open>c'\<close>, and nothing else changed.\<close>

definition rewritten :: "string \<Rightarrow> zone_content \<Rightarrow> zone_content \<Rightarrow> 'w \<Rightarrow> 'w \<Rightarrow> bool" where
  "rewritten i c c' w w' = (zs w' = zs w \<and> (\<exists>p p'. ps w i = Some p \<and> ps w' = (ps w)(i \<mapsto> p') \<and>
     content_of (pz_RRsets p) = c \<and> content_of (pz_RRsets p') = c'))"

lemma patch_outcome:
  assumes "inv w" and "records_patch D z rs w = (r, w')"
  shows "inv w'" "r = Inl e \<Longrightarrow> still w w'"
    "r = Inr x \<Longrightarrow> ps w (z_PDNSID z) = Some p \<Longrightarrow>
       rewritten (z_PDNSID z) (content_of (pz_RRsets p)) (foldl spec_change (content_of (pz_RRsets p)) rs) w w'"
proof -
  obtain g w1 where g: "p_PatchRRsets (d_PDNS D) (z_PDNSID z) rs w = (g, w1)" by fastforce
  have w': "w' = w1" and r: "r = (case g of Inl e \<Rightarrow> Inl (mapPDNS e) | Inr y \<Rightarrow> Inr y)"
    using assms(2) g by (auto simp: records_patch_def map_err_def split: sum.splits)
  show i: "inv w'" using keepsE [OF server_patch_frame(2) g assms(1)] w' by simp
  have z: "zs w' = zs w" using server_patch_frame(1) [of "z_PDNSID z" rs w] g w' by simp
  show "r = Inl e \<Longrightarrow> still w w'" using server_patch_failed g r w' z i by (auto simp: still_def split: sum.splits)
  show "r = Inr x \<Longrightarrow> ps w (z_PDNSID z) = Some p \<Longrightarrow>
       rewritten (z_PDNSID z) (content_of (pz_RRsets p)) (foldl spec_change (content_of (pz_RRsets p)) rs) w w'"
    using server_patch [OF assms(1), of "z_PDNSID z" rs] g r w' z by (cases g) (auto simp: rewritten_def)
qed

lemma apply_outcome:
  assumes inv: "inv w" and run: "records_apply D l z inp w = (r, w')"
  shows "inv w'" "r = Inl e \<Longrightarrow> still w w'"
    "r = Inr rr \<Longrightarrow> \<exists>p. ps w (z_PDNSID z) = Some p \<and> RecordSet (d_Ext D) l (z_Name z) inp (cloneRRsets (pz_RRsets p)) = Inr rr \<and>
       rewritten (z_PDNSID z) (content_of (pz_RRsets p)) (spec_change (content_of (pz_RRsets p)) rr) w w'"
proof -
  have "inv w' \<and> (r = Inl e \<longrightarrow> still w w') \<and> (r = Inr rr \<longrightarrow> (\<exists>p. ps w (z_PDNSID z) = Some p \<and>
      RecordSet (d_Ext D) l (z_Name z) inp (cloneRRsets (pz_RRsets p)) = Inr rr \<and>
      rewritten (z_PDNSID z) (content_of (pz_RRsets p)) (spec_change (content_of (pz_RRsets p)) rr) w w'))"
    using run unfolding records_apply_def
  proof (cases rule: checkE)
    case passed
    from passed(2) show ?thesis
    proof (cases rule: and_thenE)
      case (err x)
      then show ?thesis using rrsets_outcome(1) [OF inv err(1)] by (simp add: still_def)
    next
      case (ok sets w1)
      have w1: "inv w1" "zs w1 = zs w" "ps w1 = ps w" using rrsets_outcome(1) [OF inv ok(1)] by (simp_all add: still_def)
      obtain p where p: "ps w (z_PDNSID z) = Some p" "sets = cloneRRsets (pz_RRsets p)" using rrsets_outcome(2) [OF inv ok(1)] by blast
      show ?thesis
      proof (cases "RecordSet (d_Ext D) l (z_Name z) inp sets")
        case (Inl x)
        then show ?thesis using ok(2) w1 by (auto simp: and_then_def lift_res_def still_def)
      next
        case (Inr q)
        obtain g w2 where g: "records_patch D z [q] w1 = (g, w2)" by fastforce
        have w': "w' = w2" "r = (case g of Inl e \<Rightarrow> Inl e | Inr _ \<Rightarrow> Inr q)"
          using ok(2) Inr g by (auto simp: and_then_def lift_res_def ret_def split: sum.splits)
        note pt = patch_outcome [OF w1(1) g]
        have p1: "ps w1 (z_PDNSID z) = Some p" using p(1) w1(3) by simp
        show ?thesis
        proof (cases g)
          case (Inl x)
          then show ?thesis using pt(1,2) w' w1 by (auto simp: still_def)
        next
          case (Inr y)
          then show ?thesis using pt(1) pt(3) [OF Inr p1] w' w1(2,3) p \<open>RecordSet _ _ _ _ _ = _\<close> by (auto simp: rewritten_def)
        qed
      qed
    qed
  qed (use inv in \<open>simp add: still_refl\<close>)
  then show "inv w'" "r = Inl e \<Longrightarrow> still w w'"
    "r = Inr rr \<Longrightarrow> \<exists>p. ps w (z_PDNSID z) = Some p \<and> RecordSet (d_Ext D) l (z_Name z) inp (cloneRRsets (pz_RRsets p)) = Inr rr \<and>
       rewritten (z_PDNSID z) (content_of (pz_RRsets p)) (spec_change (content_of (pz_RRsets p)) rr) w w'" by blast+
qed

lemma loaded [consumes 3]:
  assumes inv: "inv w" and F: "\<forall>k. F k = and_then (records_rrsets D z) (f k)"
    and run: "check g (and_then (lift_res key) F) w = (r, w')"
  obtains (refused) e where "r = Inl e" "still w w'"
  | (read) k p w1 where "key = Inr k" "ps w (z_PDNSID z) = Some p" "still w w1" "f k (cloneRRsets (pz_RRsets p)) w1 = (r, w')"
  using run
proof (cases rule: checkE)
  case passed
  show ?thesis
  proof (cases key)
    case (Inl e)
    then show ?thesis using passed(2) inv refused [of e] by (auto simp: and_then_def lift_res_def still_refl)
  next
    case (Inr k)
    then have "and_then (records_rrsets D z) (f k) w = (r, w')" using passed(2) F by (simp add: and_then_def lift_res_def)
    then show ?thesis
    proof (cases rule: and_thenE)
      case (err e)
      then show ?thesis using refused rrsets_outcome(1) [OF inv] by blast
    next
      case (ok sets w1)
      then show ?thesis using read [OF Inr] rrsets_outcome [OF inv ok(1)] by blast
    qed
  qed
qed (use refused inv still_refl in blast)

lemma remove_outcome:
  assumes inv: "inv w" and run: "records_remove D z k w = (r, w')"
  shows "inv w'" "r = Inl e \<Longrightarrow> still w w'"
    "r = Inr key \<Longrightarrow> \<exists>p. record_key (d_Ext D) z k = Inr key \<and> ps w (z_PDNSID z) = Some p \<and>
       rewritten (z_PDNSID z) (content_of (pz_RRsets p)) ((content_of (pz_RRsets p))(key := None)) w w'"
proof -
  have "inv w' \<and> (r = Inl e \<longrightarrow> still w w') \<and> (r = Inr key \<longrightarrow> (\<exists>p. record_key (d_Ext D) z k = Inr key \<and> ps w (z_PDNSID z) = Some p \<and>
       rewritten (z_PDNSID z) (content_of (pz_RRsets p)) ((content_of (pz_RRsets p))(key := None)) w w'))"
  proof (rule loaded [OF inv _ run [unfolded records_remove_def]])
    show "\<forall>k. (\<lambda>(name, rtype). and_then (records_rrsets D z) (\<lambda>cur.
        if \<not> find_set (d_Ext D) cur name rtype then fail_with (Sent records_ErrNotFound)
        else and_then (records_patch D z [delete_set name rtype]) (\<lambda>_. ret (name, rtype)))) k =
      and_then (records_rrsets D z) (\<lambda>cur. if \<not> find_set (d_Ext D) cur (fst k) (snd k) then fail_with (Sent records_ErrNotFound)
        else and_then (records_patch D z [delete_set (fst k) (snd k)]) (\<lambda>_. ret k))"
      by (simp only: case_prod_beta prod.collapse simp_thms)
  next
    fix e' assume "r = Inl e'" "still w w'"
    then show ?thesis by (simp add: still_def)
  next
    fix q p w1
    assume k: "record_key (d_Ext D) z k = Inr q" and p: "ps w (z_PDNSID z) = Some p" and w1: "still w w1"
      and f: "(if \<not> find_set (d_Ext D) (cloneRRsets (pz_RRsets p)) (fst q) (snd q) then fail_with (Sent records_ErrNotFound)
        else and_then (records_patch D z [delete_set (fst q) (snd q)]) (\<lambda>_. ret q)) w1 = (r, w')"
    have s: "inv w1" "zs w1 = zs w" "ps w1 = ps w" "ps w1 (z_PDNSID z) = Some p" using w1 p by (simp_all add: still_def)
    obtain g w2 where g: "records_patch D z [delete_set (fst q) (snd q)] w1 = (g, w2)" by fastforce
    note pt = patch_outcome [OF s(1) g]
    have d: "spec_change c (delete_set (fst q) (snd q)) = c(q := None)" for c
      by (simp add: spec_change_def is_replace_def delete_set_def)
    show ?thesis
    proof (cases "find_set (d_Ext D) (cloneRRsets (pz_RRsets p)) (fst q) (snd q)")
      case True
      then have w': "w' = w2" "r = (case g of Inl e \<Rightarrow> Inl e | Inr _ \<Rightarrow> Inr q)"
        using f g by (auto simp: and_then_def ret_def split: sum.splits)
      show ?thesis
      proof (cases g)
        case (Inl x)
        then show ?thesis using pt(1,2) w' s by (auto simp: still_def)
      next
        case (Inr y)
        then show ?thesis using pt(1) pt(3) [OF Inr s(4)] w' s(2,3) p k by (auto simp: rewritten_def d)
      qed
    qed (use f w1 in \<open>auto simp: still_def\<close>)
  qed
  then show "inv w'" "r = Inl e \<Longrightarrow> still w w'"
    "r = Inr key \<Longrightarrow> \<exists>p. record_key (d_Ext D) z k = Inr key \<and> ps w (z_PDNSID z) = Some p \<and>
       rewritten (z_PDNSID z) (content_of (pz_RRsets p)) ((content_of (pz_RRsets p))(key := None)) w w'" by blast+
qed

text \<open>
  A changed set: its own contents are written and, when the name or the type changed,
  the old set is removed in the same patch.
\<close>

lemma update_set_outcome:
  assumes inv: "inv w" and run: "records_update D l z k inp w = (r, w')"
  shows "inv w'" "r = Inl e \<Longrightarrow> still w w'"
    "r = Inr (rr, n, t) \<Longrightarrow> \<exists>p. record_key (d_Ext D) z k = Inr (n, t) \<and> ps w (z_PDNSID z) = Some p \<and>
       RecordSet (d_Ext D) l (z_Name z) inp (filter (\<lambda>r. \<not> same_fold (d_Ext D) n t r) (cloneRRsets (pz_RRsets p))) = Inr rr \<and>
       rewritten (z_PDNSID z) (content_of (pz_RRsets p)) (spec_change ((content_of (pz_RRsets p))((n, t) := None)) rr) w w'"
proof -
  let ?rest = "\<lambda>p q. filter (\<lambda>r. \<not> same_fold (d_Ext D) (fst q) (snd q) r) (cloneRRsets (pz_RRsets p))"
  let ?go = "\<lambda>q rr. and_then (records_patch D z (if rs_Name rr \<noteq> fst q \<or> rs_Type rr \<noteq> snd q then [rr, delete_set (fst q) (snd q)] else [rr]))
      (\<lambda>_. ret (rr, fst q, snd q))"
  have split: "(if a then if b then x else and_then (m u) k else and_then (m v) k) =
      (if a \<and> b then x else and_then (m (if a then u else v)) k)" for a b x m u v k by simp
  have "inv w' \<and> (r = Inl e \<longrightarrow> still w w') \<and> (r = Inr (rr, n, t) \<longrightarrow> (\<exists>p. record_key (d_Ext D) z k = Inr (n, t) \<and> ps w (z_PDNSID z) = Some p \<and>
       RecordSet (d_Ext D) l (z_Name z) inp (?rest p (n, t)) = Inr rr \<and>
       rewritten (z_PDNSID z) (content_of (pz_RRsets p)) (spec_change ((content_of (pz_RRsets p))((n, t) := None)) rr) w w'))"
  proof (rule loaded [OF inv _ run [unfolded records_update_def]])
    show "\<forall>k. (\<lambda>(oldName, oldType).
      and_then (records_rrsets D z) (\<lambda>cur.
        if \<not> find_set (d_Ext D) cur oldName oldType then fail_with (Sent records_ErrNotFound)
        else let others = filter (\<lambda>r. \<not> same_fold (d_Ext D) oldName oldType r) cur in
          and_then (lift_res (RecordSet (d_Ext D) l (z_Name z) inp others)) (\<lambda>rr.
            if rs_Name rr \<noteq> oldName \<or> rs_Type rr \<noteq> oldType
            then if find_set (d_Ext D) others (rs_Name rr) (rs_Type rr) then fail_with (Sent records_ErrConflict)
              else and_then (records_patch D z [rr, delete_set oldName oldType]) (\<lambda>_. ret (rr, oldName, oldType))
            else and_then (records_patch D z [rr]) (\<lambda>_. ret (rr, oldName, oldType))))) k =
      and_then (records_rrsets D z) (\<lambda>cur.
        if \<not> find_set (d_Ext D) cur (fst k) (snd k) then fail_with (Sent records_ErrNotFound)
        else let rest = filter (\<lambda>r. \<not> same_fold (d_Ext D) (fst k) (snd k) r) cur in
          and_then (lift_res (RecordSet (d_Ext D) l (z_Name z) inp rest)) (\<lambda>rr.
            if (rs_Name rr \<noteq> fst k \<or> rs_Type rr \<noteq> snd k) \<and> find_set (d_Ext D) rest (rs_Name rr) (rs_Type rr)
            then fail_with (Sent records_ErrConflict) else ?go k rr))"
      by (simp only: case_prod_beta split simp_thms)
  next
    fix e' assume "r = Inl e'" "still w w'"
    then show ?thesis by (simp add: still_def)
  next
    fix q p w1
    assume k: "record_key (d_Ext D) z k = Inr q" and p: "ps w (z_PDNSID z) = Some p" and w1: "still w w1"
      and f: "(if \<not> find_set (d_Ext D) (cloneRRsets (pz_RRsets p)) (fst q) (snd q) then fail_with (Sent records_ErrNotFound)
        else let rest = ?rest p q in
          and_then (lift_res (RecordSet (d_Ext D) l (z_Name z) inp rest)) (\<lambda>rr.
            if (rs_Name rr \<noteq> fst q \<or> rs_Type rr \<noteq> snd q) \<and> find_set (d_Ext D) rest (rs_Name rr) (rs_Type rr)
            then fail_with (Sent records_ErrConflict) else ?go q rr)) w1 = (r, w')"
    have s: "inv w1" "zs w1 = zs w" "ps w1 = ps w" "ps w1 (z_PDNSID z) = Some p" using w1 p by (simp_all add: still_def)
    consider (no) x where "r = Inl x" "w' = w1"
      | (go) rr' where "RecordSet (d_Ext D) l (z_Name z) inp (?rest p q) = Inr rr'" "?go q rr' w1 = (r, w')"
      using f by (cases "RecordSet (d_Ext D) l (z_Name z) inp (?rest p q)")
        (auto simp: Let_def and_then_def lift_res_def fail_with_def split: if_splits)
    then show ?thesis
    proof cases
      case no
      then show ?thesis using w1 by (auto simp: still_def)
    next
      case (go rr')
      let ?ch = "if rs_Name rr' \<noteq> fst q \<or> rs_Type rr' \<noteq> snd q then [rr', delete_set (fst q) (snd q)] else [rr']"
      obtain g w2 where g: "records_patch D z ?ch w1 = (g, w2)" by fastforce
      note pt = patch_outcome [OF s(1) g]
      have d: "foldl spec_change c ?ch = spec_change (c(q := None)) rr'" for c
        by (cases q) (auto simp: spec_change_def is_replace_def delete_set_def fun_eq_iff)
      have w': "w' = w2" "r = (case g of Inl e \<Rightarrow> Inl e | Inr _ \<Rightarrow> Inr (rr', fst q, snd q))"
        using go(2) g by (auto simp: and_then_def ret_def split: sum.splits)
      show ?thesis
      proof (cases g)
        case (Inl x)
        then show ?thesis using pt(1,2) w' s by (auto simp: still_def)
      next
        case (Inr y)
        then show ?thesis using pt(1) pt(3) [OF Inr s(4), unfolded d] w' s(2,3) p k go(1) by (auto simp: rewritten_def)
      qed
    qed
  qed
  then show "inv w'" "r = Inl e \<Longrightarrow> still w w'"
    "r = Inr (rr, n, t) \<Longrightarrow> \<exists>p. record_key (d_Ext D) z k = Inr (n, t) \<and> ps w (z_PDNSID z) = Some p \<and>
       RecordSet (d_Ext D) l (z_Name z) inp (filter (\<lambda>r. \<not> same_fold (d_Ext D) n t r) (cloneRRsets (pz_RRsets p))) = Inr rr \<and>
       rewritten (z_PDNSID z) (content_of (pz_RRsets p)) (spec_change ((content_of (pz_RRsets p))((n, t) := None)) rr) w w'" by auto
qed

subsection \<open>Contents stay tidy\<close>

definition tidy_zones :: "'w \<Rightarrow> bool" where
  "tidy_zones w = (\<forall>i p. ps w i = Some p \<longrightarrow> tidy (content_of (pz_RRsets p)))"

lemma rewritten_tidy:
  assumes "tidy_zones w" and "rewritten i c c' w w'" and "tidy c'"
  shows "tidy_zones w'"
  using assms unfolding tidy_zones_def rewritten_def by (auto split: if_splits)

lemma still_tidy: "tidy_zones w \<Longrightarrow> still w w' \<Longrightarrow> tidy_zones w'"
  by (simp add: tidy_zones_def still_def)

definition record_sound :: "'w \<Rightarrow> bool" where
  "record_sound w = (inv w \<and> tidy_zones w)"

lemma keeps_apply:
  assumes laws: "fqdn_law (d_Ext D)" "split_law (d_Ext D)" "upper_law (d_Ext D)"
  shows "keeps record_sound (records_apply D l z inp)"
proof (rule keepsI)
  fix w r w' assume run: "records_apply D l z inp w = (r, w')" and w: "record_sound w"
  then have inv: "inv w" and t: "tidy_zones w" by (simp_all add: record_sound_def)
  note o = apply_outcome [OF inv run]
  show "record_sound w'"
  proof (cases r)
    case (Inl e)
    then show ?thesis using o(1,2) still_tidy [OF t] by (simp add: record_sound_def)
  next
    case (Inr rr)
    then obtain p where p: "ps w (z_PDNSID z) = Some p" "RecordSet (d_Ext D) l (z_Name z) inp (cloneRRsets (pz_RRsets p)) = Inr rr"
      "rewritten (z_PDNSID z) (content_of (pz_RRsets p)) (spec_change (content_of (pz_RRsets p)) rr) w w'" using o(3) by blast
    have "tidy (content_of (pz_RRsets p))" using t p(1) by (auto simp: tidy_zones_def)
    then have "tidy ((content_of (cloneRRsets (pz_RRsets p)))((rs_Name rr, rs_Type rr) := None, (rs_Name rr, rs_Type rr) \<mapsto> (rs_TTL rr, rs_Records rr)))"
      by (intro tidy_RecordSet [OF laws _ p(2)]) simp_all
    then have "tidy (spec_change (content_of (pz_RRsets p)) rr)"
      using RecordSet_plain(3) [OF laws p(2)] by (simp add: spec_change_def)
    then show ?thesis using rewritten_tidy [OF t p(3)] o(1) by (simp add: record_sound_def)
  qed
qed

lemma tidy_remove: "tidy c \<Longrightarrow> tidy (c(k := None))"
  by (auto simp: tidy_def)

lemma keeps_remove: "keeps record_sound (records_remove D z k)"
proof (rule keepsI)
  fix w r w' assume run: "records_remove D z k w = (r, w')" and w: "record_sound w"
  then have inv: "inv w" and t: "tidy_zones w" by (simp_all add: record_sound_def)
  note o = remove_outcome [OF inv run]
  show "record_sound w'"
  proof (cases r)
    case (Inl e)
    then show ?thesis using o(1,2) still_tidy [OF t] by (simp add: record_sound_def)
  next
    case (Inr key)
    then obtain p where p: "ps w (z_PDNSID z) = Some p"
      "rewritten (z_PDNSID z) (content_of (pz_RRsets p)) ((content_of (pz_RRsets p))(key := None)) w w'" using o(3) by blast
    have "tidy (content_of (pz_RRsets p))" using t p(1) by (auto simp: tidy_zones_def)
    then show ?thesis using rewritten_tidy [OF t p(2) tidy_remove] o(1) by (simp add: record_sound_def)
  qed
qed

lemma keeps_update_set:
  assumes laws: "fqdn_law (d_Ext D)" "split_law (d_Ext D)" "upper_law (d_Ext D)"
  shows "keeps record_sound (records_update D l z k inp)"
proof (rule keepsI)
  fix w r w' assume run: "records_update D l z k inp w = (r, w')" and w: "record_sound w"
  then have inv: "inv w" and t: "tidy_zones w" by (simp_all add: record_sound_def)
  note o = update_set_outcome [OF inv run]
  show "record_sound w'"
  proof (cases r)
    case (Inl e)
    then show ?thesis using o(1,2) still_tidy [OF t] by (simp add: record_sound_def)
  next
    case (Inr x)
    obtain rr n ty where x: "x = (rr, n, ty)" by (cases x)
    then obtain p where k: "record_key (d_Ext D) z k = Inr (n, ty)" and p: "ps w (z_PDNSID z) = Some p"
      "RecordSet (d_Ext D) l (z_Name z) inp (filter (\<lambda>r. \<not> same_fold (d_Ext D) n ty r) (cloneRRsets (pz_RRsets p))) = Inr rr"
      "rewritten (z_PDNSID z) (content_of (pz_RRsets p)) (spec_change ((content_of (pz_RRsets p))((n, ty) := None)) rr) w w'"
      using o(3) Inr by blast
    have c: "tidy (content_of (cloneRRsets (pz_RRsets p)))" using t p(1) by (auto simp: tidy_zones_def)
    have key: "plain_name n" "plain_type ty" by (rule record_key_plain [OF laws k])+
    have rest: "r \<in> set (filter (\<lambda>r. \<not> same_fold (d_Ext D) n ty r) (cloneRRsets (pz_RRsets p)))"
      if "r \<in> set (cloneRRsets (pz_RRsets p))" "(rs_Name r, rs_Type r) \<noteq> (n, ty)" for r
    proof -
      have "plain_name (rs_Name r)" "plain_type (rs_Type r)" using c content_key [OF that(1)] by (auto simp: tidy_def)
      then show ?thesis using that plain_fold [OF _ key(1)] EqualFold_upper [OF _ key(2)] by (auto simp: same_fold_def)
    qed
    have "tidy ((content_of (cloneRRsets (pz_RRsets p)))((n, ty) := None, (rs_Name rr, rs_Type rr) \<mapsto> (rs_TTL rr, rs_Records rr)))"
      by (rule tidy_RecordSet [OF laws c p(2) rest])
    then have "tidy (spec_change ((content_of (pz_RRsets p))((n, ty) := None)) rr)"
      using RecordSet_plain(3) [OF laws p(2)] by (simp add: spec_change_def)
    then show ?thesis using rewritten_tidy [OF t p(3)] o(1) by (simp add: record_sound_def)
  qed
qed

lemma reports_sound:
  "record_sound w \<Longrightarrow> record_sound (records_audit D s t z n ty e w)"
  "record_sound w \<Longrightarrow> record_sound (EmitRecord (d_Events D) z n ty a src w)"
  by (simp_all add: record_sound_def tidy_zones_def)

lemma keeps_load: "keeps record_sound (records_load D s zid perm)"
proof (rule keepsI)
  fix w r w' assume run: "records_load D s zid perm w = (r, w')" and w: "record_sound w"
  then have "still w w'"
    using read_outcomes(1) [of w s zid] by (auto simp: records_load_def record_sound_def still_refl elim!: checkE)
  then show "record_sound w'" using w by (auto simp: record_sound_def still_def tidy_zones_def)
qed

lemma keeps_Apply:
  assumes laws: "fqdn_law (d_Ext D)" "split_law (d_Ext D)" "upper_law (d_Ext D)"
  shows "keeps record_sound (records_Apply D l s z inp src)"
  unfolding records_Apply_def
  by (intro keeps_check keeps_on_result keeps_apply laws, rename_tac r, case_tac r)
    (auto intro!: keeps_effect keeps_ret keeps_fail_with reports_sound)

lemma keeps_removed: "keeps record_sound (records_removed D s z k src r)"
  unfolding records_removed_def
  by (cases r) (auto intro!: keeps_effect keeps_ret keeps_fail_with reports_sound split: prod.split)

lemma keeps_record_requests:
  assumes laws: "fqdn_law (d_Ext D)" "split_law (d_Ext D)" "upper_law (d_Ext D)"
  shows "keeps record_sound (records_Upsert D l s zid inp)" "keeps record_sound (records_Update D l s zid k inp)"
    "keeps record_sound (records_Delete D s zid k)" "keeps record_sound (records_Remove D s z k src)"
proof -
  show "keeps record_sound (records_Upsert D l s zid inp)"
    unfolding records_Upsert_def by (intro keeps_and_then keeps_load keeps_Apply laws)
  show "keeps record_sound (records_Delete D s zid k)"
    unfolding records_Delete_def by (intro keeps_and_then keeps_load keeps_on_result keeps_remove keeps_removed)
  show "keeps record_sound (records_Remove D s z k src)"
    unfolding records_Remove_def by (intro keeps_check keeps_on_result keeps_remove keeps_if keeps_ret keeps_removed)
  have "keeps record_sound (case r of Inl e \<Rightarrow> effect (records_audit D s RecordUpsert z n t (Some e)) (fail_with e)
     | Inr (rr, oldName, oldType) \<Rightarrow>
         effect (\<lambda>w. EmitRecord (d_Events D) z (rs_Name rr) (rs_Type rr) ActionUpserted SourceAPI
           (records_audit D s RecordUpsert z (rs_Name rr) (rs_Type rr) None w))
         (effect (\<lambda>w. if oldName \<noteq> rs_Name rr \<or> oldType \<noteq> rs_Type rr
            then EmitRecord (d_Events D) z oldName oldType ActionDeleted SourceAPI
              (records_audit D s RecordDelete z oldName oldType None w) else w)
         (ret (toView (d_Ext D) rr))))" for r z n t
    by (cases r) (auto intro!: keeps_effect keeps_ret keeps_fail_with reports_sound split: prod.split)
  then show "keeps record_sound (records_Update D l s zid k inp)"
    unfolding records_Update_def by (intro keeps_and_then keeps_load keeps_on_result keeps_update_set laws)
qed

end

end
