(* ===== verification/Tenant_Frame.thy ===== *)
theory Tenant_Frame
  imports Record_Contract
begin

text \<open>
  What a service acting for one tenant leaves alone, for every environment that keeps
  the contract \<open>record_env\<close>: the rows of the other tenants and the contents of their
  served zones. The predicates compare the current state with the state \<open>w0\<close> at the
  start of the request.
\<close>

context record_env
begin

definition alien :: "string \<Rightarrow> 'w \<Rightarrow> zone \<Rightarrow> bool" where
  "alien t w y = (zs w (z_ID y) = Some y \<and> z_TenantID y \<noteq> t)"

definition kept :: "'w \<Rightarrow> string \<Rightarrow> 'w \<Rightarrow> bool" where
  "kept w0 t w = (inv w \<and> (\<forall>y. alien t w y \<longleftrightarrow> alien t w0 y) \<and>
     (\<forall>y p. alien t w0 y \<longrightarrow> ps w0 (z_PDNSID y) = Some p \<longrightarrow> ps w (z_PDNSID y) = Some p))"

text \<open>A zone whose id on the server is not that of a served zone of another tenant.\<close>

definition safe :: "'w \<Rightarrow> string \<Rightarrow> zone \<Rightarrow> bool" where
  "safe w0 t z = (\<forall>y. alien t w0 y \<longrightarrow> ps w0 (z_PDNSID y) \<noteq> None \<longrightarrow> z_PDNSID y \<noteq> z_PDNSID z)"

lemma kept_refl: "inv w \<Longrightarrow> kept w t w"
  by (simp add: kept_def)

lemma kept_inv: "kept w0 t w \<Longrightarrow> inv w"
  by (simp add: kept_def)

lemma kept_still: "kept w0 t w \<Longrightarrow> still w w' \<Longrightarrow> kept w0 t w'"
  by (simp add: kept_def still_def alien_def)

lemma keeps_kept_still: "(\<And>w r w'. inv w \<Longrightarrow> m w = (r, w') \<Longrightarrow> still w w') \<Longrightarrow> keeps (kept w0 t) m"
  by (rule keepsI) (meson kept_still kept_inv)

lemma own_safe:
  assumes "kept w0 t w" and "zs w i = Some z" and "z_TenantID z = t"
  shows "safe w0 t z"
  unfolding safe_def
proof (intro allI impI notI)
  fix y assume f: "alien t w0 y" and "z_PDNSID y = z_PDNSID z"
  have w: "inv w" and y: "alien t w y" using assms(1) f by (auto simp: kept_def)
  have "i = z_ID y" using unique_rows [OF w _ assms(2)] y \<open>z_PDNSID y = z_PDNSID z\<close> by (metis alien_def)
  then show False using y assms(2,3) by (auto simp: alien_def)
qed

lemma served_elsewhere: "safe w0 t z \<Longrightarrow> kept w0 t w \<Longrightarrow> rewritten (z_PDNSID z) c c' w w' \<Longrightarrow> inv w' \<Longrightarrow> kept w0 t w'"
  unfolding kept_def rewritten_def safe_def alien_def by auto

lemma created_kept:
  assumes "kept w0 t w" "created z w w'" "z_TenantID z = t" "inv w'"
  shows "kept w0 t w'" "safe w0 t z"
proof -
  obtain row p where c: "zs w (z_ID z) = None" "ps w (z_Name z) = None" "stored_as z row" "zs w' = (zs w)(z_ID z \<mapsto> row)"
    "ps w' = (ps w)(z_Name z \<mapsto> p)" "zone_wf z" using assms(2) unfolding created_def by blast
  have r: "z_TenantID row = t" "z_PDNSID z = z_Name z" using c assms(3) by (auto simp: stored_as_def zone_wf_def)
  have f: "alien t w' y \<longleftrightarrow> alien t w y" for y using c(1,4) r(1) by (auto simp: alien_def)
  show "kept w0 t w'" using assms(1,4) f c(2,5) by (auto simp: kept_def)
  show "safe w0 t z" using assms(1) c(2) r(2) by (auto simp: safe_def kept_def)
qed

lemma rolled_back_kept: "kept w0 t w \<Longrightarrow> rolled_back w w' \<Longrightarrow> inv w' \<Longrightarrow> kept w0 t w'"
  by (auto simp: kept_def rolled_back_def alien_def)

lemma gives_Create:
  assumes laws: "fqdn_law (d_Ext D)" "split_law (d_Ext D)" and s: "s_TenantID s = t"
  shows "gives (kept w0 t) (safe w0 t) (zones_Create D s inp)"
proof (rule givesI)
  fix w r w' assume run: "zones_Create D s inp w = (r, w')" and w: "kept w0 t w"
  note o = zones_Create_outcome [OF laws kept_inv [OF w] run]
  show "kept w0 t w'"
    using o rolled_back_kept [OF w] created_kept(1) [OF w] s by (cases r) auto
next
  fix w z w' assume run: "zones_Create D s inp w = (Inr z, w')" and w: "kept w0 t w"
  note o = zones_Create_outcome [OF laws kept_inv [OF w] run]
  show "safe w0 t z" using o created_kept(2) [OF w] s by blast
qed

lemma gives_Owned:
  assumes s: "s_TenantID s = t"
  shows "gives (kept w0 t) (safe w0 t) (zones_Owned D s i)"
proof (rule givesI)
  fix w r w' assume "zones_Owned D s i w = (r, w')" and w: "kept w0 t w"
  then show "kept w0 t w'" using read_outcomes(1) [OF kept_inv [OF w]] kept_still [OF w] by blast
next
  fix w z w' assume "zones_Owned D s i w = (Inr z, w')" and w: "kept w0 t w"
  then have "zs w i = Some z \<and> z_TenantID z = s_TenantID s"
    using owned_outcome(2) [OF kept_inv [OF w]] by (auto simp: zones_Owned_def check_Inr)
  then show "safe w0 t z" using own_safe [OF w] s by blast
qed

lemma gives_ByName:
  assumes s: "s_TenantID s = t"
  shows "gives (kept w0 t) (safe w0 t) (zones_ByName D s n)"
proof (rule givesI)
  fix w r w' assume "zones_ByName D s n w = (r, w')" and w: "kept w0 t w"
  then show "kept w0 t w'" using read_outcomes(3) [OF kept_inv [OF w]] kept_still [OF w] by blast
next
  fix w z w' assume run: "zones_ByName D s n w = (Inr z, w')" and w: "kept w0 t w"
  obtain m w1 where "r_GetZoneByName (d_Store D) (s_TenantID s) m w = (Inr z, w1)"
    using run by (auto simp: zones_ByName_def check_Inr on_result_def split: option.splits prod.splits sum.splits if_splits)
  then show "safe w0 t z" using by_name_done [OF kept_inv [OF w]] own_safe [OF w] s by blast
qed

lemma keeps_Lookup: "keeps (kept w0 t) (records_Lookup D s z k)"
proof (rule keeps_kept_still)
  fix w r w' assume inv: "inv w" and run: "records_Lookup D s z k w = (r, w')"
  then show "still w w'" unfolding records_Lookup_def
    by (auto elim!: checkE and_thenE simp: lift_res_def still_refl dest: rrsets_outcome(1) split: option.splits)
qed

lemma keeps_safe_Apply:
  assumes "safe w0 t z"
  shows "keeps (kept w0 t) (records_Apply D l s z inp src)"
proof (rule keepsI)
  fix w r w' assume run: "records_Apply D l s z inp src w = (r, w')" and w: "kept w0 t w"
  obtain g w1 where g: "records_apply D l z inp w = (g, w1)" by fastforce
  note o = apply_outcome [OF kept_inv [OF w] g]
  have w1: "kept w0 t w1"
  proof (cases g)
    case (Inl e)
    then show ?thesis using o(2) kept_still [OF w] by blast
  next
    case (Inr rr)
    then show ?thesis using o(1,3) served_elsewhere [OF assms w] by blast
  qed
  have "w' = w \<or> zs w' = zs w1 \<and> ps w' = ps w1 \<and> inv w'"
    using run g o(1) by (cases g) (auto simp: records_Apply_def on_result_def elim!: checkE)
  then show "kept w0 t w'" using w w1 by (auto simp: kept_def alien_def)
qed

lemma keeps_safe_Remove:
  assumes "safe w0 t z"
  shows "keeps (kept w0 t) (records_Remove D s z k src)"
proof (rule keepsI)
  fix w r w' assume run: "records_Remove D s z k src w = (r, w')" and w: "kept w0 t w"
  obtain g w1 where g: "records_remove D z k w = (g, w1)" by fastforce
  note o = remove_outcome [OF kept_inv [OF w] g]
  have w1: "kept w0 t w1"
  proof (cases g)
    case (Inl e)
    then show ?thesis using o(2) kept_still [OF w] by blast
  next
    case (Inr key)
    then show ?thesis using o(1,3) served_elsewhere [OF assms w] by blast
  qed
  have "w' = w \<or> zs w' = zs w1 \<and> ps w' = ps w1 \<and> inv w'"
    using run g o(1) by (cases g) (auto simp: records_Remove_def records_removed_def on_result_def elim!: checkE split: if_splits prod.splits)
  then show "kept w0 t w'" using w w1 by (auto simp: kept_def alien_def)
qed

end

end
