(* ===== verification/Recursor.thy ===== *)
theory Recursor
  imports Interfaces
begin

text \<open>
  Resolver forwarding: the name canonicalisation of \<^verbatim>\<open>internal/recursor/client.go\<close>,
  the in-memory recursor of \<^verbatim>\<open>internal/recursor/fake.go\<close> and the reconciler of
  \<^verbatim>\<open>internal/recursor/reconciler.go\<close>. The reconciler is written against the client
  interface; the locale \<open>forwarder\<close> states what it relies on. A message added
  around an error (\<open>%w\<close>) does not change the error value.
\<close>

definition recursor_canon :: "unicode \<Rightarrow> string \<Rightarrow> string res" where
  "recursor_canon u zn = (let z = TrimSuffix (ToLower u (TrimSpace zn)) ''.'' in
     if z = [] then Inl (Opaque ''recursor: zone name required'') else Inr (z @ ''.''))"

section \<open>The in-memory recursor\<close>

record rfake =
  rf_enabled :: bool
  rf_forwards :: "string gomap"
  rf_failNext :: "gerr option gomap"
  rf_Target :: string
  rf_Down :: bool
  rf_NotReady :: bool
  rf_Calls :: "string list"

definition NewRFake :: rfake where
  "NewRFake = \<lparr>rf_enabled = True, rf_forwards = [], rf_failNext = [], rf_Target = ''172.20.0.5:53'', rf_Down = False,
     rf_NotReady = False, rf_Calls = []\<rparr>"

definition rfake_FailNext :: "string \<Rightarrow> gerr option \<Rightarrow> rfake \<Rightarrow> rfake" where
  "rfake_FailNext op e f = f\<lparr>rf_failNext := mput op e (rf_failNext f)\<rparr>"

definition rfake_SetDown :: "bool \<Rightarrow> rfake \<Rightarrow> rfake" where
  "rfake_SetDown down f = f\<lparr>rf_Down := down\<rparr>"

definition rfake_SetReady :: "bool \<Rightarrow> rfake \<Rightarrow> rfake" where
  "rfake_SetReady ready f = f\<lparr>rf_NotReady := \<not> ready\<rparr>"

definition rfake_Seed :: "unicode \<Rightarrow> string \<Rightarrow> string \<Rightarrow> rfake \<Rightarrow> rfake" where
  "rfake_Seed u zn target f = f\<lparr>rf_forwards := mput (ToLower u zn) target (rf_forwards f)\<rparr>"

definition rfake_begin :: "string \<Rightarrow> string \<Rightarrow> rfake \<Rightarrow> gerr option \<times> rfake" where
  "rfake_begin op zn f0 = (let f = f0\<lparr>rf_Calls := rf_Calls f0 @ [TrimSpace (op @ '' '' @ zn)]\<rparr> in
     if rf_Down f then (Some (Sent recursor_ErrUnavailable), f)
     else case mget (rf_failNext f) op of
       Some e \<Rightarrow> (e, f\<lparr>rf_failNext := mdel op (rf_failNext f)\<rparr>)
     | None \<Rightarrow> (None, f))"

definition rfake_op :: "string \<Rightarrow> string \<Rightarrow> (rfake, 'a) act \<Rightarrow> (rfake, 'a) act" where
  "rfake_op op zn body f = (case rfake_begin op zn f of (Some e, f') \<Rightarrow> (Inl e, f') | (None, f') \<Rightarrow> body f')"

definition rfake_SyncForward :: "unicode \<Rightarrow> string \<Rightarrow> (rfake, unit) act" where
  "rfake_SyncForward u zn f =
     (if \<not> rf_enabled f then (Inr (), f)
      else case recursor_canon u zn of Inl e \<Rightarrow> (Inl e, f)
        | Inr name \<Rightarrow> rfake_op ''SyncForward'' name
            (\<lambda>f. (Inr (), f\<lparr>rf_forwards := mput name (rf_Target f) (rf_forwards f)\<rparr>)) f)"

definition rfake_RemoveForward :: "unicode \<Rightarrow> string \<Rightarrow> (rfake, unit) act" where
  "rfake_RemoveForward u zn f =
     (if \<not> rf_enabled f then (Inr (), f)
      else case recursor_canon u zn of Inl e \<Rightarrow> (Inl e, f)
        | Inr name \<Rightarrow> rfake_op ''RemoveForward'' name
            (\<lambda>f. (Inr (), f\<lparr>rf_forwards := mdel name (rf_forwards f)\<rparr>)) f)"

definition rfake_ListForwards :: "(rfake, string list) act" where
  "rfake_ListForwards f =
     (if \<not> rf_enabled f then (Inr [], f)
      else rfake_op ''ListForwards'' [] (\<lambda>f. (Inr (sort (map fst (rf_forwards f))), f)) f)"

definition rfake_Ready :: "(rfake, unit) act" where
  "rfake_Ready f =
     (if \<not> rf_enabled f then (Inr (), f)
      else rfake_op ''Ready'' [] (\<lambda>f. if rf_NotReady f then (Inl (Sent recursor_ErrUnavailable), f) else (Inr (), f)) f)"

section \<open>The reconciler\<close>

text \<open>
  \<open>rr_Cancelled\<close> tells whether the context is done when a wait begins; the clock
  itself has no effect on the state.
\<close>

record 'w reconciler =
  rr_Unicode :: unicode
  rr_Client :: "'w recursor_client option"
  rr_Names :: "('w, string list) act"
  rr_Static :: "string list"
  rr_ReadyAttempts :: int
  rr_OnResult :: "(string \<Rightarrow> 'w \<Rightarrow> 'w) option"
  rr_PDNSNames :: "('w, string list) act option"
  rr_OnUnowned :: "(int \<Rightarrow> 'w \<Rightarrow> 'w) option"
  rr_Cancelled :: "'w \<Rightarrow> bool"

definition rr_readyAttempts :: "'w reconciler \<Rightarrow> int" where
  "rr_readyAttempts R = (if rr_ReadyAttempts R > 0 then rr_ReadyAttempts R else 30)"

definition rr_result :: "'w reconciler \<Rightarrow> gerr option \<Rightarrow> 'w \<Rightarrow> 'w" where
  "rr_result R err w = (case rr_OnResult R of None \<Rightarrow> w
     | Some h \<Rightarrow> (case err of None \<Rightarrow> h ''ok'' w
         | Some e \<Rightarrow> if errIs e recursor_ErrUnavailable then h ''unavailable'' w else h ''error'' w))"

definition rr_enabled :: "'w reconciler \<Rightarrow> 'w \<Rightarrow> bool" where
  "rr_enabled R w = (case rr_Client R of None \<Rightarrow> False | Some C \<Rightarrow> rc_Enabled C w)"

definition rr_counting :: "'w reconciler \<Rightarrow> bool" where
  "rr_counting R = (rr_PDNSNames R \<noteq> None \<and> rr_OnUnowned R \<noteq> None)"

definition canonicalForward :: "unicode \<Rightarrow> string \<Rightarrow> string" where
  "canonicalForward u z0 = (let z = ToLower u (TrimSpace z0) in if \<not> suffix ''.'' z then z @ ''.'' else z)"

text \<open>\<open>note\<close>: report the result of one call and remember the first error.\<close>

definition rr_note :: "'w reconciler \<Rightarrow> gerr option \<Rightarrow> ('w, unit) act \<Rightarrow> 'w \<Rightarrow> gerr option \<times> 'w" where
  "rr_note R first m w = (case m w of (r, w1) \<Rightarrow>
     let err = (case r of Inl e \<Rightarrow> Some e | Inr _ \<Rightarrow> None)
     in (if first = None then err else first, rr_result R err w1))"

fun sync_all :: "'w reconciler \<Rightarrow> 'w recursor_client \<Rightarrow> gerr option \<Rightarrow> string list \<Rightarrow> 'w \<Rightarrow> gerr option \<times> 'w" where
  "sync_all R C first [] w = (first, w)"
| "sync_all R C first (z # zs) w =
     (case rr_note R first (rc_SyncForward C z) w of (first', w') \<Rightarrow> sync_all R C first' zs w')"

fun remove_stale :: "'w reconciler \<Rightarrow> 'w recursor_client \<Rightarrow> string list \<Rightarrow> gerr option \<Rightarrow> string list \<Rightarrow> 'w \<Rightarrow> gerr option \<times> 'w" where
  "remove_stale R C keep first [] w = (first, w)"
| "remove_stale R C keep first (z # zs) w =
     (if canonicalForward (rr_Unicode R) z \<notin> set keep
      then (case rr_note R first (rc_RemoveForward C z) w of (first', w') \<Rightarrow> remove_stale R C keep first' zs w')
      else remove_stale R C keep first zs w)"

definition count_unowned :: "unicode \<Rightarrow> string list \<Rightarrow> string list \<Rightarrow> int" where
  "count_unowned u managed served =
     int (length (filter (\<lambda>z. canonicalForward u z \<notin> set (map (canonicalForward u) managed)) served))"

definition countUnowned :: "'w reconciler \<Rightarrow> string list \<Rightarrow> 'w \<Rightarrow> gerr option \<times> 'w" where
  "countUnowned R managed w = (case the (rr_PDNSNames R) w of
     (Inl e, w') \<Rightarrow> (Some e, w')
   | (Inr served, w') \<Rightarrow> (None, the (rr_OnUnowned R) (count_unowned (rr_Unicode R) managed served) w'))"

definition kept_names :: "'w reconciler \<Rightarrow> string list \<Rightarrow> string list" where
  "kept_names R managed = ''.'' # map (canonicalForward (rr_Unicode R)) (rr_Static R @ managed)"

definition finish :: "gerr option \<Rightarrow> 'w \<Rightarrow> (gerr + unit) \<times> 'w" where
  "finish err w = ((case err of None \<Rightarrow> Inr () | Some e \<Rightarrow> Inl e), w)"

definition Reconcile :: "'w reconciler \<Rightarrow> ('w, unit) act" where
  "Reconcile R w0 =
     (if \<not> rr_enabled R w0 \<and> \<not> rr_counting R then (Inr (), w0)
      else and_then (rr_Names R) (\<lambda>managed w1.
        case (if rr_counting R then countUnowned R managed w1 else (None, w1)) of (unownedErr, w2) \<Rightarrow>
        if \<not> rr_enabled R w2 then finish unownedErr w2
        else let C = the (rr_Client R) in
          case sync_all R C None managed w2 of (first, w3) \<Rightarrow>
          and_then (rc_ListForwards C) (\<lambda>current w4.
            case remove_stale R C (kept_names R managed) first current w4 of (first', w5) \<Rightarrow>
            finish (if first' = None then unownedErr else first') w5) w3) w0)"

text \<open>The polling loop: \<open>n\<close> attempts are left, \<open>err\<close> is the error of the last one.\<close>

fun ready_loop :: "'w reconciler \<Rightarrow> 'w recursor_client \<Rightarrow> nat \<Rightarrow> gerr option \<Rightarrow> ('w, unit) act" where
  "ready_loop R C 0 err w = finish err w"
| "ready_loop R C (Suc n) err w = (case rc_Ready C w of
     (Inr _, w') \<Rightarrow> Reconcile R w'
   | (Inl e, w') \<Rightarrow>
       if n = 0 then finish (Some e) w'
       else if rr_Cancelled R w' then (Inl (Opaque ''context''), w')
       else ready_loop R C n (Some e) w')"

definition ReconcileNow :: "'w reconciler \<Rightarrow> ('w, unit) act" where
  "ReconcileNow R w =
     (if \<not> rr_enabled R w then (Inr (), w)
      else ready_loop R (the (rr_Client R)) (nat (rr_readyAttempts R)) None w)"

lemma canonicalForward_root: "canonicalForward u ''.'' = ''.''"
proof -
  have "ToLower u ''.'' = ''.''" by (rule ToLower_id) code_simp
  moreover have "TrimSpace ''.'' = ''.''" by code_simp
  ultimately show ?thesis by (simp add: canonicalForward_def)
qed

section \<open>What the reconciler relies on\<close>

text \<open>
  The contract of a recursor client. \<open>fw\<close> is the table of forwards (zone to target).
  A call for a zone touches only the entry of that zone, whatever its outcome;
  a call that succeeds sets or removes the entry; the listing is the table.
\<close>

locale forwarder =
  fixes u :: unicode and C :: "'w recursor_client" and fw :: "'w \<Rightarrow> string \<Rightarrow> string option" and target :: "'w \<Rightarrow> string"
  assumes sync_other: "rc_SyncForward C z w = (r, w') \<Longrightarrow> recursor_canon u z \<noteq> Inr k \<Longrightarrow> fw w' k = fw w k"
    and sync_done: "rc_Enabled C w \<Longrightarrow> rc_SyncForward C z w = (Inr x, w') \<Longrightarrow>
      \<exists>k. recursor_canon u z = Inr k \<and> fw w' k = Some (target w)"
    and remove_other: "rc_RemoveForward C z w = (r, w') \<Longrightarrow> recursor_canon u z \<noteq> Inr k \<Longrightarrow> fw w' k = fw w k"
    and remove_done: "rc_Enabled C w \<Longrightarrow> rc_RemoveForward C z w = (Inr x, w') \<Longrightarrow>
      \<exists>k. recursor_canon u z = Inr k \<and> fw w' k = None"
    and list_done: "rc_Enabled C w \<Longrightarrow> rc_ListForwards C w = (Inr ks, w') \<Longrightarrow> set ks = dom (fw w)"
    and list_pure: "rc_ListForwards C w = (l, w') \<Longrightarrow> fw w' = fw w"
    and stable: "rc_SyncForward C z w = (r, w') \<Longrightarrow> target w' = target w \<and> rc_Enabled C w' = rc_Enabled C w"
      "rc_RemoveForward C z w = (r, w') \<Longrightarrow> target w' = target w \<and> rc_Enabled C w' = rc_Enabled C w"
      "rc_ListForwards C w = (l, w') \<Longrightarrow> target w' = target w \<and> rc_Enabled C w' = rc_Enabled C w"
begin

text \<open>The reports of the reconciler leave the recursor alone.\<close>

definition quiet :: "('w \<Rightarrow> 'w) \<Rightarrow> bool" where
  "quiet h = (\<forall>w. fw (h w) = fw w \<and> target (h w) = target w \<and> rc_Enabled C (h w) = rc_Enabled C w)"

text \<open>A call for one zone: it touches one entry and, when it succeeds, sets it to \<open>v\<close>.\<close>

definition entry_call :: "('w, unit) act \<Rightarrow> string \<Rightarrow> ('w \<Rightarrow> string option) \<Rightarrow> bool" where
  "entry_call m z v = (\<forall>w r w'. m w = (r, w') \<longrightarrow> target w' = target w \<and> rc_Enabled C w' = rc_Enabled C w \<and>
     (\<forall>k. recursor_canon u z \<noteq> Inr k \<longrightarrow> fw w' k = fw w k) \<and>
     (rc_Enabled C w \<and> r = Inr () \<longrightarrow> (\<exists>k. recursor_canon u z = Inr k \<and> fw w' k = v w)))"

lemma entry_calls:
  "entry_call (rc_SyncForward C z) z (\<lambda>w. Some (target w))" "entry_call (rc_RemoveForward C z) z (\<lambda>w. None)"
  unfolding entry_call_def
  by (intro allI impI conjI; use sync_other sync_done stable(1) in blast)
    (intro allI impI conjI; use remove_other remove_done stable(2) in blast)

lemma rr_note_entry:
  assumes "\<And>e. quiet (rr_result R e)" and m: "entry_call m z v" and n: "rr_note R first m w = (first', w')"
  shows "target w' = target w" "rc_Enabled C w' = rc_Enabled C w" "recursor_canon u z \<noteq> Inr k \<Longrightarrow> fw w' k = fw w k"
    "rc_Enabled C w \<Longrightarrow> first' = None \<Longrightarrow> \<exists>k. recursor_canon u z = Inr k \<and> fw w' k = v w \<and> first = None"
proof -
  obtain r w1 where run: "m w = (r, w1)" by fastforce
  have w': "w' = rr_result R (case r of Inl e \<Rightarrow> Some e | Inr _ \<Rightarrow> None) w1"
    and f': "first' = (if first = None then (case r of Inl e \<Rightarrow> Some e | Inr _ \<Rightarrow> None) else first)"
    using n run by (simp_all add: rr_note_def Let_def)
  have q: "fw w' = fw w1" "target w' = target w1" "rc_Enabled C w' = rc_Enabled C w1"
    using assms(1) unfolding w' quiet_def by blast+
  note e = m [unfolded entry_call_def, rule_format, OF run]
  show "target w' = target w" "rc_Enabled C w' = rc_Enabled C w" using q e by simp_all
  show "recursor_canon u z \<noteq> Inr k \<Longrightarrow> fw w' k = fw w k" using q e by simp
  assume "rc_Enabled C w" and "first' = None"
  then have "r = Inr ()" "first = None" using f' by (cases r; auto split: if_splits)+
  then show "\<exists>k. recursor_canon u z = Inr k \<and> fw w' k = v w \<and> first = None"
    using e q \<open>rc_Enabled C w\<close> by auto
qed

lemmas rr_note_sync = rr_note_entry [OF _ entry_calls(1)]
lemmas rr_note_remove = rr_note_entry [OF _ entry_calls(2)]

lemma sync_all_other:
  assumes q: "\<And>e. quiet (rr_result R e)" and "k \<notin> set zs" and c: "\<And>z. z \<in> set zs \<Longrightarrow> recursor_canon u z = Inr z"
    and "sync_all R C first zs w = (first', w')"
  shows "target w' = target w \<and> rc_Enabled C w' = rc_Enabled C w \<and> fw w' k = fw w k"
  using assms(2-)
proof (induction zs arbitrary: first w)
  case (Cons z zs)
  obtain f1 w1 where n: "rr_note R first (rc_SyncForward C z) w = (f1, w1)" by fastforce
  have "recursor_canon u z \<noteq> Inr k" using Cons.prems(1,2) by auto
  with rr_note_sync [OF q n] Cons.IH [of f1 w1] Cons.prems n show ?case by auto
qed simp

lemma sync_all_done:
  assumes q: "\<And>e. quiet (rr_result R e)" and "rc_Enabled C w" and c: "\<And>z. z \<in> set zs \<Longrightarrow> recursor_canon u z = Inr z"
    and "sync_all R C first zs w = (None, w')"
  shows "first = None \<and> (\<forall>z \<in> set zs. fw w' z = Some (target w))"
  using assms(2-)
proof (induction zs arbitrary: first w)
  case (Cons z zs)
  obtain f1 w1 where n: "rr_note R first (rc_SyncForward C z) w = (f1, w1)" by fastforce
  note s = rr_note_sync [OF q n]
  have rest: "sync_all R C f1 zs w1 = (None, w')" using Cons.prems n by simp
  have IH: "f1 = None" "\<forall>z \<in> set zs. fw w' z = Some (target w)"
    using Cons.IH [OF _ _ rest] Cons.prems s(1,2) by auto
  have z: "recursor_canon u z = Inr z" using Cons.prems(2) by simp
  have "first = None" "fw w1 z = Some (target w)" using s(4) IH(1) Cons.prems(1) z by auto
  moreover have "fw w' z = Some (target w)"
  proof (cases "z \<in> set zs")
    case False
    then show ?thesis using sync_all_other [OF q False _ rest] Cons.prems(2) calculation(2) by auto
  qed (use IH in blast)
  ultimately show ?case using IH by simp
qed simp

lemma remove_stale_other:
  assumes q: "\<And>e. quiet (rr_result R e)"
    and c: "\<And>z. z \<in> set zs \<Longrightarrow> canonicalForward (rr_Unicode R) z \<notin> set keep \<Longrightarrow> recursor_canon u z = Inr z"
    and "k \<notin> set zs \<or> canonicalForward (rr_Unicode R) k \<in> set keep"
    and "remove_stale R C keep first zs w = (first', w')"
  shows "target w' = target w \<and> rc_Enabled C w' = rc_Enabled C w \<and> fw w' k = fw w k"
  using assms(2-)
proof (induction zs arbitrary: first w)
  case (Cons z zs)
  show ?case
  proof (cases "canonicalForward (rr_Unicode R) z \<in> set keep")
    case False
    obtain f1 w1 where n: "rr_note R first (rc_RemoveForward C z) w = (f1, w1)" by fastforce
    have "recursor_canon u z \<noteq> Inr k" using Cons.prems(1,2) False by auto
    with rr_note_remove [OF q n] Cons.IH [of f1 w1] Cons.prems n False show ?thesis by auto
  qed (use Cons in auto)
qed simp

lemma remove_stale_done:
  assumes q: "\<And>e. quiet (rr_result R e)" and "rc_Enabled C w"
    and c: "\<And>z. z \<in> set zs \<Longrightarrow> canonicalForward (rr_Unicode R) z \<notin> set keep \<Longrightarrow> recursor_canon u z = Inr z"
    and "remove_stale R C keep first zs w = (None, w')"
  shows "first = None \<and> (\<forall>z \<in> set zs. canonicalForward (rr_Unicode R) z \<notin> set keep \<longrightarrow> fw w' z = None)"
  using assms(2-)
proof (induction zs arbitrary: first w)
  case (Cons z zs)
  show ?case
  proof (cases "canonicalForward (rr_Unicode R) z \<in> set keep")
    case False
    obtain f1 w1 where n: "rr_note R first (rc_RemoveForward C z) w = (f1, w1)" by fastforce
    note s = rr_note_remove [OF q n]
    have rest: "remove_stale R C keep f1 zs w1 = (None, w')" using Cons.prems n False by simp
    have IH: "f1 = None" "\<forall>z \<in> set zs. canonicalForward (rr_Unicode R) z \<notin> set keep \<longrightarrow> fw w' z = None"
      using Cons.IH [OF _ _ rest] Cons.prems s(2) by auto
    have z: "recursor_canon u z = Inr z" using Cons.prems(2) False by simp
    have "first = None" "fw w1 z = None" using s(4) IH(1) Cons.prems(1) z by auto
    moreover have "fw w' z = None"
    proof (cases "z \<in> set zs")
      case False
      then show ?thesis using remove_stale_other [OF q _ _ rest, of z] Cons.prems(2) calculation(2) by auto
    qed (use IH False in blast)
    ultimately show ?thesis using IH by simp
  qed (use Cons in auto)
qed simp

text \<open>A reconciler of this client, whose other callbacks leave the recursor alone.\<close>

definition serves :: "'w reconciler \<Rightarrow> bool" where
  "serves R = (rr_Client R = Some C \<and> rr_Unicode R = u \<and> (\<forall>e. quiet (rr_result R e)) \<and>
     quiet (\<lambda>w. snd (rr_Names R w)) \<and> (rr_counting R \<longrightarrow> (\<forall>ms. quiet (\<lambda>w. snd (countUnowned R ms w)))))"

lemma quietD: "quiet h \<Longrightarrow> fw (h w) = fw w" "quiet h \<Longrightarrow> target (h w) = target w"
  "quiet h \<Longrightarrow> rc_Enabled C (h w) = rc_Enabled C w"
  by (simp_all add: quiet_def)

lemma Reconcile_run:
  assumes R: "serves R" and en: "rc_Enabled C w" and run: "Reconcile R w = (r, w')"
  obtains (names) e where "rr_Names R w = (Inl e, w')" "r = Inl e" "fw w' = fw w"
  | (pass) managed w1 first w2 where "fst (rr_Names R w) = Inr managed" "fw w1 = fw w" "target w1 = target w" "rc_Enabled C w1"
      "sync_all R C None managed w1 = (first, w2)"
      "(\<exists>e. rc_ListForwards C w2 = (Inl e, w') \<and> r = Inl e) \<or>
       (\<exists>ks w3 first'. rc_ListForwards C w2 = (Inr ks, w3) \<and>
          remove_stale R C (kept_names R managed) first ks w3 = (first', w') \<and> (r = Inr () \<longrightarrow> first' = None))"
proof -
  have [simp]: "rr_enabled R v = rc_Enabled C v" for v using R by (simp add: rr_enabled_def serves_def)
  have C: "the (rr_Client R) = C" using R by (simp add: serves_def)
  obtain nr w0 where n: "rr_Names R w = (nr, w0)" by fastforce
  have q0: "fw w0 = fw w" "target w0 = target w" "rc_Enabled C w0 = rc_Enabled C w"
    using R n quietD [of "\<lambda>w. snd (rr_Names R w)" w] by (simp_all add: serves_def)
  show ?thesis
  proof (cases nr)
    case (Inl e)
    then show ?thesis using run n en q0 names [of e] by (auto simp: Reconcile_def and_then_def)
  next
    case (Inr managed)
    obtain ue w1 where u1: "(if rr_counting R then countUnowned R managed w0 else (None, w0)) = (ue, w1)" by fastforce
    have q1: "fw w1 = fw w \<and> target w1 = target w \<and> rc_Enabled C w1"
    proof (cases "rr_counting R")
      case True
      then have "quiet (\<lambda>w. snd (countUnowned R managed w))" using R by (simp add: serves_def)
      from quietD [OF this, of w0] show ?thesis using True u1 q0 en by simp
    qed (use u1 q0 en in auto)
    obtain first w2 where s: "sync_all R C None managed w1 = (first, w2)" by fastforce
    obtain lr w3 where l: "rc_ListForwards C w2 = (lr, w3)" by fastforce
    have "(\<exists>e. lr = Inl e \<and> w3 = w' \<and> r = Inl e) \<or>
       (\<exists>ks first'. lr = Inr ks \<and> remove_stale R C (kept_names R managed) first ks w3 = (first', w') \<and> (r = Inr () \<longrightarrow> first' = None))"
    proof (cases lr)
      case (Inr ks)
      obtain first' w4 where "remove_stale R C (kept_names R managed) first ks w3 = (first', w4)" by fastforce
      then show ?thesis
        using run n en \<open>nr = Inr managed\<close> u1 q1 s l Inr C
        by (auto simp: Reconcile_def and_then_def Let_def finish_def split: option.splits if_splits)
    qed (use run n en Inr u1 q1 s l C in \<open>auto simp: Reconcile_def and_then_def Let_def\<close>)
    then show ?thesis using pass [of managed w1 first w2] n Inr q1 s l by auto
  qed
qed

lemma canonicalForward_id: "recursor_canon u k = Inr k \<Longrightarrow> canonicalForward u k = k"
  by (auto simp: recursor_canon_def canonicalForward_def Let_def TrimSuffix_def suffix_def split: if_splits)

lemma Reconcile_untouched:
  assumes R: "serves R" and en: "rc_Enabled C w" and run: "Reconcile R w = (r, w')"
    and ms: "\<And>ms z. fst (rr_Names R w) = Inr ms \<Longrightarrow> z \<in> set ms \<Longrightarrow> recursor_canon u z = Inr z \<and> z \<noteq> k"
    and dom: "\<And>z. z \<in> dom (fw w) \<Longrightarrow> recursor_canon u z = Inr z \<or> z = ''.''"
    and k: "canonicalForward u k \<in> set (kept_names R [])"
  shows "fw w' k = fw w k"
  using R en run
proof (cases rule: Reconcile_run)
  case (pass managed w1 first w2)
  have q: "\<And>e. quiet (rr_result R e)" and u: "rr_Unicode R = u" using R by (auto simp: serves_def)
  have s: "fw w2 x = fw w x" if "x \<notin> set managed" for x
    using sync_all_other [OF q that _ pass(5)] ms [OF pass(1)] pass(2) by simp
  have canon: "recursor_canon u z = Inr z \<or> z = ''.''" if "z \<in> dom (fw w2)" for z
    using that s ms [OF pass(1)] dom by (metis domIff)
  have stale: "recursor_canon u z = Inr z"
    if "z \<in> dom (fw w2)" "canonicalForward (rr_Unicode R) z \<notin> set (kept_names R managed)" for z
    using that canon [OF that(1)] by (auto simp: kept_names_def canonicalForward_root)
  have k2: "fw w2 k = fw w k" using s ms [OF pass(1)] by blast
  have en2: "rc_Enabled C w2" using sync_all_other [OF q _ _ pass(5), of "k"] ms [OF pass(1)] pass(4) by blast
  have kk: "canonicalForward (rr_Unicode R) k \<in> set (kept_names R managed)" using k u by (auto simp: kept_names_def)
  from pass(6) show ?thesis
  proof (elim disjE exE conjE)
    fix ks w3 first'
    assume l: "rc_ListForwards C w2 = (Inr ks, w3)" and rs: "remove_stale R C (kept_names R managed) first ks w3 = (first', w')"
    have "fw w' k = fw w3 k"
      using remove_stale_other [OF q _ _ rs, of k] kk stale list_done [OF en2 l] by auto
    then show ?thesis using list_pure [OF l] k2 by simp
  qed (use k2 list_pure in auto)
qed simp

lemma Reconcile_exact:
  assumes R: "serves R" and en: "rc_Enabled C w" and run: "Reconcile R w = (Inr (), w')"
    and names: "fst (rr_Names R w) = Inr managed"
    and ms: "\<And>z. z \<in> set managed \<Longrightarrow> recursor_canon u z = Inr z"
    and dom: "\<And>z. z \<in> dom (fw w) \<Longrightarrow> recursor_canon u z = Inr z \<or> z = ''.''"
  shows "fw w' k = (if k \<in> set managed then Some (target w) else if k \<in> set (kept_names R []) then fw w k else None)"
  using R en run
proof (cases rule: Reconcile_run)
  case (pass managed' w1 first w2)
  have m: "managed' = managed" using pass(1) names by simp
  note pass = pass [unfolded m]
  have q: "\<And>e. quiet (rr_result R e)" and u: "rr_Unicode R = u" using R by (auto simp: serves_def)
  obtain ks w3 where l: "rc_ListForwards C w2 = (Inr ks, w3)"
    and rs: "remove_stale R C (kept_names R managed) first ks w3 = (None, w')" using pass(6) by auto
  have s: "fw w2 x = fw w x" if "x \<notin> set managed" for x
    using sync_all_other [OF q that _ pass(5)] ms pass(2) by simp
  have canon: "recursor_canon u z = Inr z \<or> z = ''.''" if "z \<in> dom (fw w2)" for z
    using that s ms dom by (metis domIff)
  have stale: "recursor_canon u z = Inr z"
    if "z \<in> dom (fw w2)" "canonicalForward (rr_Unicode R) z \<notin> set (kept_names R managed)" for z
    using that canon [OF that(1)] by (auto simp: kept_names_def canonicalForward_root)
  have st: "rc_Enabled C w2" "target w2 = target w"
  proof -
    obtain x :: string where "x \<notin> set managed" using ex_new_if_finite [OF infinite_UNIV_listI finite_set] by blast
    then show "rc_Enabled C w2" "target w2 = target w" using sync_all_other [OF q _ _ pass(5)] ms pass(3,4) by auto
  qed
  have ks: "set ks = dom (fw w2)" using list_done [OF st(1) l] .
  note rem = remove_stale_done [OF q _ _ rs] remove_stale_other [OF q _ _ rs]
  have en3: "rc_Enabled C w3" "fw w3 = fw w2" using stable(3) [OF l] st(1) list_pure [OF l] by auto
  have first: "first = None" using rem(1) en3 stale ks by auto
  have sync: "fw w2 z = Some (target w)" if "z \<in> set managed" for z
    using sync_all_done [OF q pass(4) _ pass(5) [unfolded first]] ms that pass(3) by simp
  have kept: "fw w' z = fw w2 z" if "canonicalForward u z \<in> set (kept_names R managed)" for z
    using rem(2) [of z] that stale ks en3 u by auto
  have gone: "fw w' z = None" if "z \<in> dom (fw w2)" "canonicalForward u z \<notin> set (kept_names R managed)" for z
    using rem(1) that stale ks en3 u by auto
  show ?thesis
  proof (cases "k \<in> dom (fw w2)")
    case True
    then have ck: "canonicalForward u k = k" using canon canonicalForward_id canonicalForward_root by auto
    have "k \<in> set (kept_names R managed) \<longleftrightarrow> k \<in> set managed \<or> k \<in> set (kept_names R [])"
      using ms canonicalForward_id u by (auto simp: kept_names_def)
    with ck show ?thesis using kept [of k] gone [OF True] sync s by auto
  next
    case False
    then have "fw w' k = None" using rem(2) [of k] ks stale en3 by auto
    moreover have "k \<notin> set managed" using False sync by auto
    ultimately show ?thesis using False s by auto
  qed
qed simp

end

section \<open>The in-memory recursor keeps the contract\<close>

definition rfake_client :: "unicode \<Rightarrow> rfake recursor_client" where
  "rfake_client u = \<lparr>rc_Enabled = rf_enabled, rc_SyncForward = rfake_SyncForward u, rc_RemoveForward = rfake_RemoveForward u,
     rc_ListForwards = rfake_ListForwards, rc_Ready = rfake_Ready\<rparr>"

lemma rfake_opE:
  assumes "rfake_op op i body f = (r, f')"
  obtains (failed) e where "r = Inl e" "rf_forwards f' = rf_forwards f" "rf_Target f' = rf_Target f" "rf_enabled f' = rf_enabled f"
  | (ran) f1 where "rf_forwards f1 = rf_forwards f" "rf_Target f1 = rf_Target f" "rf_enabled f1 = rf_enabled f" "body f1 = (r, f')"
proof (cases "rfake_begin op i f")
  case (Pair e f1)
  then have "rf_forwards f1 = rf_forwards f" "rf_Target f1 = rf_Target f" "rf_enabled f1 = rf_enabled f"
    by (auto simp: rfake_begin_def Let_def split: if_splits option.splits)
  then show ?thesis using assms Pair failed ran by (cases e) (auto simp: rfake_op_def)
qed

interpretation rf: forwarder u "rfake_client u" "\<lambda>f. mget (rf_forwards f)" rf_Target for u
proof unfold_locales
  show "\<exists>k. recursor_canon u z = Inr k \<and> mget (rf_forwards w') k = Some (rf_Target w)"
    if "rc_Enabled (rfake_client u) w" "rc_SyncForward (rfake_client u) z w = (Inr x, w')" for w z x w'
    using that by (auto simp: rfake_client_def rfake_SyncForward_def elim!: rfake_opE split: sum.splits if_splits)
  show "\<exists>k. recursor_canon u z = Inr k \<and> mget (rf_forwards w') k = None"
    if "rc_Enabled (rfake_client u) w" "rc_RemoveForward (rfake_client u) z w = (Inr x, w')" for w z x w'
    using that by (auto simp: rfake_client_def rfake_RemoveForward_def elim!: rfake_opE split: sum.splits if_splits)
  show "set ks = dom (mget (rf_forwards w))"
    if "rc_Enabled (rfake_client u) w" "rc_ListForwards (rfake_client u) w = (Inr ks, w')" for w ks w'
    using that by (auto simp: rfake_client_def rfake_ListForwards_def dom_map_of_conv_image_fst image_iff Bex_def elim!: rfake_opE)
qed (auto simp: rfake_client_def rfake_SyncForward_def rfake_RemoveForward_def rfake_ListForwards_def
    elim!: rfake_opE split: sum.splits if_splits)

end
