(* ===== verification/Ids.thy ===== *)
theory Ids
  imports Go_Strings "HOL-Library.Word"
begin

unbundle bit_operations_syntax

text \<open>
  The identifier generator, \<^verbatim>\<open>internal/store/ids.go\<close>: UUIDv7 text made of a
  48-bit millisecond timestamp, a 12-bit sequence and random bits. The random
  bytes and the clock reading of a call are arguments; the package variables
  under the mutex are the state.
\<close>

record id_state =
  idLast :: int
  idSeq :: "16 word"

definition init_ids :: id_state where
  "init_ids = \<lparr>idLast = 0, idSeq = 0\<rparr>"

text \<open>The critical section: the timestamp and the sequence number of the new id.\<close>

definition next_stamp :: "8 word list \<Rightarrow> int \<Rightarrow> id_state \<Rightarrow> id_state" where
  "next_stamp b ms st =
     (if ms \<le> idLast st
      then if idSeq st + 1 \<ge> 0x1000 then \<lparr>idLast = idLast st + 1, idSeq = 0\<rparr>
        else st\<lparr>idSeq := idSeq st + 1\<rparr>
      else \<lparr>idLast = ms, idSeq = push_bit 8 (ucast (b ! 6 AND 0x07)) OR ucast (b ! 7)\<rparr>)"

definition id_bytes :: "8 word list \<Rightarrow> id_state \<Rightarrow> 8 word list" where
  "id_bytes b st = (let u = (word_of_int (idLast st) :: 64 word); s = idSeq st in
     [ucast (drop_bit 40 u), ucast (drop_bit 32 u), ucast (drop_bit 24 u), ucast (drop_bit 16 u), ucast (drop_bit 8 u), ucast u,
      0x70 OR (ucast (drop_bit 8 s) AND 0x0f), ucast (s AND 0xff), (b ! 8 AND 0x3f) OR 0x80] @ drop 9 b)"

definition hex_byte :: "8 word \<Rightarrow> string" where
  "hex_byte x = [hex_digit (unat x div 16), hex_digit (unat x mod 16)]"

definition hex_EncodeToString :: "8 word list \<Rightarrow> string" where
  "hex_EncodeToString b = concat (map hex_byte b)"

definition substr :: "nat \<Rightarrow> nat \<Rightarrow> 'a list \<Rightarrow> 'a list" where
  "substr i j xs = take (j - i) (drop i xs)"

definition id_text :: "8 word list \<Rightarrow> string" where
  "id_text b = (let h = hex_EncodeToString b
     in substr 0 8 h @ ''-'' @ substr 8 12 h @ ''-'' @ substr 12 16 h @ ''-'' @ substr 16 20 h @ ''-'' @ substr 20 32 h)"

definition NewID :: "8 word list \<Rightarrow> int \<Rightarrow> id_state \<Rightarrow> string \<times> id_state" where
  "NewID b ms st = (let st' = next_stamp b ms st in (id_text (id_bytes b st'), st'))"

text \<open>The ids of a sequence of calls, each with its random bytes and clock reading.\<close>

fun id_run :: "(8 word list \<times> int) list \<Rightarrow> id_state \<Rightarrow> string list" where
  "id_run [] st = []"
| "id_run ((b, ms) # calls) st = (case NewID b ms st of (i, st') \<Rightarrow> i # id_run calls st')"

section \<open>Facts\<close>

text \<open>Big-endian digits and their order.\<close>

fun be :: "nat \<Rightarrow> nat \<Rightarrow> nat list" where
  "be 0 n = []"
| "be (Suc k) n = (n div 256 ^ k mod 256) # be k n"

lemma split_less:
  fixes a b c d q :: nat
  assumes "q * a + b < q * c + d" "d < q"
  shows "a < c \<or> a = c \<and> b < d"
proof (rule ccontr)
  assume n: "\<not> ?thesis"
  then have "c < a \<or> a = c" using assms by (metis linorder_neqE_nat)
  then show False
  proof
    assume "c < a"
    then have "q * (c + 1) \<le> q * a" by (metis Suc_eq_plus1 Suc_leI mult_le_mono2)
    then show False using assms by (simp add: algebra_simps)
  qed (use n assms in simp)
qed

lemma be_less: "n mod 256 ^ k < m mod 256 ^ k \<Longrightarrow> be k n < be k m"
proof (induction k)
  case (Suc k)
  have "x mod 256 ^ Suc k = 256 ^ k * (x div 256 ^ k mod 256) + x mod 256 ^ k" for x :: nat
    using mod_mult2_eq [of x "256 ^ k" 256] by (simp add: mult.commute)
  then show ?case using Suc split_less [of "256 ^ k" "n div 256 ^ k mod 256" "n mod 256 ^ k" "m div 256 ^ k mod 256" "m mod 256 ^ k"]
    by auto
qed simp

lemma less_append:
  fixes xs :: "'a::linorder list"
  assumes "length xs = length ys"
  shows "xs @ us < ys @ vs \<longleftrightarrow> xs < ys \<or> xs = ys \<and> us < vs"
  using assms by (induction xs ys rule: list_induct2) auto

lemma hex_digit_less: "i < 16 \<Longrightarrow> j < 16 \<Longrightarrow> hex_digit i < hex_digit j \<longleftrightarrow> i < j"
  by (auto simp: hex_digit_def less_char_def)

lemma hex_digit_eq: "i < 16 \<Longrightarrow> j < 16 \<Longrightarrow> hex_digit i = hex_digit j \<longleftrightarrow> i = j"
  using hex_digit_less by (metis linorder_neq_iff)

lemma unat_byte: "unat (x :: 8 word) < 256"
  using unsigned_less [of x, where ?'a = nat] by simp

lemma hex_byte_less:
  assumes "unat x < unat y"
  shows "hex_byte x < hex_byte y"
proof -
  have "unat x div 16 < 16" "unat y div 16 < 16" using unat_byte [of x] unat_byte [of y] by auto
  moreover have "a < b \<Longrightarrow> a div 16 < b div 16 \<or> a div 16 = b div 16 \<and> a mod 16 < b mod 16" for a b :: nat
    using split_less [of 16 "a div 16" "a mod 16" "b div 16" "b mod 16"] by simp
  ultimately show ?thesis using assms by (auto simp: hex_byte_def hex_digit_less hex_digit_eq)
qed

lemma hex_less:
  "length xs = length ys \<Longrightarrow> map unat xs < map unat ys \<Longrightarrow> hex_EncodeToString xs < hex_EncodeToString ys"
proof (induction xs ys rule: list_induct2)
  case (Cons x xs y ys)
  have "length (hex_byte x) = length (hex_byte y)" by (simp add: hex_byte_def)
  then show ?case using Cons hex_byte_less [of x y]
    by (auto simp: hex_EncodeToString_def less_append word_unat_eq_iff hex_byte_def)
qed simp

lemma length_hex: "length (hex_EncodeToString xs) = 2 * length xs"
  by (induction xs) (auto simp: hex_EncodeToString_def hex_byte_def)

definition stamp_ok :: "id_state \<Rightarrow> bool" where
  "stamp_ok st = (0 \<le> idLast st \<and> idLast st < 2 ^ 48 \<and> unat (idSeq st) < 4096)"

lemma be_6: "be (Suc (Suc (Suc (Suc (Suc (Suc 0)))))) n = map (\<lambda>k. n div 2 ^ k mod 256) [40, 32, 24, 16, 8, 0]"
  by simp

lemma time_bytes:
  assumes "0 \<le> n" "n < 2 ^ 48"
  shows "unat (ucast (drop_bit k (word_of_int n :: 64 word)) :: 8 word) = nat n div 2 ^ k mod 256"
proof -
  have "unat (word_of_int n :: 64 word) = nat n"
    using assms by (simp add: unsigned_of_int take_bit_int_eq_self nat_take_bit_eq flip: take_bit_nat_eq_self_iff)
  moreover have "unat (ucast (drop_bit k w) :: 8 word) = take_bit 8 (drop_bit k (unat w))" for w :: "64 word"
    by (simp add: unsigned_ucast_eq unat_drop_bit_eq)
  ultimately show ?thesis by (simp add: take_bit_eq_mod drop_bit_eq_div)
qed

lemma seq_bytes:
  assumes "unat s < 4096"
  shows "unat (0x70 OR (ucast (drop_bit 8 (s :: 16 word)) AND 0x0f) :: 8 word) = 112 + unat s div 256"
    "unat (ucast (s AND 0xff) :: 8 word) = unat s mod 256"
proof -
  let ?v = "unat s div 256"
  have v: "?v < 16" using assms by simp
  have c: "(ucast (drop_bit 8 s) :: 8 word) = word_of_nat ?v"
    by (rule word_unat_eq_iff [THEN iffD2])
      (simp add: unsigned_ucast_eq unat_drop_bit_eq unsigned_of_nat, simp add: drop_bit_eq_div)
  have "\<forall>v < 16. unat (0x70 OR (word_of_nat v AND 0x0f) :: 8 word) = 112 + v" by code_simp
  then show "unat (0x70 OR (ucast (drop_bit 8 s) AND 0x0f) :: 8 word) = 112 + ?v" using v c by simp
  have "s AND 0xff = take_bit 8 s" by (simp add: take_bit_eq_mask mask_eq_exp_minus_1)
  then show "unat (ucast (s AND 0xff) :: 8 word) = unat s mod 256"
    by (simp add: unsigned_ucast_eq take_bit_eq_mod unat_mod_distrib)
qed

lemma id_bytes_digits:
  assumes "stamp_ok st" "length b = 16"
  shows "\<exists>r. length r = 8 \<and> map unat (id_bytes b st) =
    be (Suc (Suc (Suc (Suc (Suc (Suc 0)))))) (nat (idLast st)) @ [112 + unat (idSeq st) div 256, unat (idSeq st) mod 256] @ r"
proof -
  note t = time_bytes [of "idLast st"] and q = seq_bytes [of "idSeq st"]
  have st: "0 \<le> idLast st" "idLast st < 2 ^ 48" "unat (idSeq st) < 4096" using assms(1) by (auto simp: stamp_ok_def)
  show ?thesis
    unfolding be_6 id_bytes_def Let_def
    using t [OF st(1,2)] t [OF st(1,2), of 0] q [OF st(3)] assms(2)
    by (intro exI [of _ "unat ((b ! 8 AND 0x3f) OR 0x80) # map unat (drop 9 b)"]) simp
qed

definition earlier :: "id_state \<Rightarrow> id_state \<Rightarrow> bool" where
  "earlier st st' = (idLast st < idLast st' \<or> idLast st = idLast st' \<and> unat (idSeq st) < unat (idSeq st'))"

lemma id_bytes_less:
  assumes "stamp_ok st" "stamp_ok st'" "length b = 16" "length b' = 16" "earlier st st'"
  shows "map unat (id_bytes b st) < map unat (id_bytes b' st')"
proof -
  define time where "time = be (Suc (Suc (Suc (Suc (Suc (Suc 0))))))"
  obtain r where r: "map unat (id_bytes b st) = time (nat (idLast st)) @ [112 + unat (idSeq st) div 256, unat (idSeq st) mod 256] @ r"
    using id_bytes_digits [OF assms(1,3)] unfolding time_def by blast
  obtain r' where r': "map unat (id_bytes b' st') = time (nat (idLast st')) @ [112 + unat (idSeq st') div 256, unat (idSeq st') mod 256] @ r'"
    using id_bytes_digits [OF assms(2,4)] unfolding time_def by blast
  have st: "0 \<le> idLast st" "idLast st < 2 ^ 48" "0 \<le> idLast st'" "idLast st' < 2 ^ 48" using assms(1,2) by (auto simp: stamp_ok_def)
  have len: "length (time n) = length (time m)" for n m by (simp add: time_def)
  have "time (nat (idLast st)) < time (nat (idLast st'))" if "idLast st < idLast st'"
    using st that unfolding time_def by (intro be_less) simp
  moreover have "unat (idSeq st) div 256 < unat (idSeq st') div 256 \<or>
      unat (idSeq st) div 256 = unat (idSeq st') div 256 \<and> unat (idSeq st) mod 256 < unat (idSeq st') mod 256"
    if "unat (idSeq st) < unat (idSeq st')"
    using split_less [of 256 "unat (idSeq st) div 256" "unat (idSeq st) mod 256" "unat (idSeq st') div 256" "unat (idSeq st') mod 256"] that
    by simp
  ultimately show ?thesis
    using assms(5) unfolding r r' earlier_def less_append [OF len] by auto
qed

lemma substr_append: "i \<le> j \<Longrightarrow> j \<le> k \<Longrightarrow> substr i j x @ substr j k x = substr i k x"
  using take_add [of "j - i" "k - j" "drop i x"] by (simp add: substr_def)

lemma id_text_less:
  assumes "length xs = 16" "length ys = 16" "map unat xs < map unat ys"
  shows "id_text xs < id_text ys"
proof -
  define h k where "h = hex_EncodeToString xs" and "k = hex_EncodeToString ys"
  have len: "length h = 32" "length k = 32" using assms(1,2) by (simp_all add: h_def k_def length_hex)
  have "x = substr 0 8 x @ substr 8 12 x @ substr 12 16 x @ substr 16 20 x @ substr 20 32 x" if "length x = 32" for x :: string
    using that by (simp add: substr_append) (simp add: substr_def)
  then have "substr 0 8 h @ substr 8 12 h @ substr 12 16 h @ substr 16 20 h @ substr 20 32 h <
      substr 0 8 k @ substr 8 12 k @ substr 12 16 k @ substr 16 20 k @ substr 20 32 k"
    using hex_less [of xs ys] assms len unfolding h_def [symmetric] k_def [symmetric] by simp
  moreover have "length (substr i j h) = length (substr i j k)" for i j using len by (simp add: substr_def)
  ultimately show ?thesis unfolding id_text_def Let_def h_def [symmetric] k_def [symmetric] by (auto simp: less_append)
qed

lemma random_seq: "unat (push_bit 8 (ucast (x AND 0x07 :: 8 word)) OR ucast (y :: 8 word) :: 16 word) < 4096"
proof -
  have x: "x AND 0x07 = take_bit 3 x" by (simp add: take_bit_eq_mask mask_eq_exp_minus_1)
  define s where "s = (push_bit 8 (ucast (x AND 0x07)) OR ucast y :: 16 word)"
  have "take_bit 12 s = s"
    by (rule bit_word_eqI) (auto simp: s_def x bit_simps dest: bit_imp_le_length)
  then have "unat s = take_bit 12 (unat s)" by (metis unsigned_take_bit_eq)
  then have "unat s < 2 ^ 12" by (metis take_bit_nat_less_exp)
  then show ?thesis by (simp add: s_def)
qed

lemma next_stamp_ok:
  assumes "stamp_ok st" "ms < 2 ^ 48" "idLast st + 1 < 2 ^ 48"
  shows "stamp_ok (next_stamp b ms st)" "earlier st (next_stamp b ms st)" "idLast (next_stamp b ms st) \<le> max (idLast st + 1) ms"
proof -
  have s: "unat (idSeq st) < 4096" "0 \<le> idLast st" "idLast st < 2 ^ 48" using assms(1) by (auto simp: stamp_ok_def)
  have u: "unat (idSeq st + 1) = unat (idSeq st) + 1" using s(1) by (simp add: unat_word_ariths)
  have c: "idSeq st + 1 \<ge> 0x1000 \<longleftrightarrow> unat (idSeq st) + 1 \<ge> 4096" by (simp add: word_le_nat_alt u)
  show "stamp_ok (next_stamp b ms st)" "earlier st (next_stamp b ms st)" "idLast (next_stamp b ms st) \<le> max (idLast st + 1) ms"
    using assms(2,3) s u c random_seq [of "b ! 6" "b ! 7"]
    by (auto simp: next_stamp_def stamp_ok_def earlier_def)
qed

lemma id_run_later:
  assumes "stamp_ok st" "\<forall>(b, ms) \<in> set calls. length b = 16 \<and> ms \<le> N" "idLast st \<le> N" "N + int (length calls) < 2 ^ 48"
    and "length b0 = 16"
  shows "(\<forall>i \<in> set (id_run calls st). id_text (id_bytes b0 st) < i) \<and> sorted_wrt (<) (id_run calls st)"
  using assms
proof (induction calls arbitrary: st N b0)
  case (Cons c calls)
  obtain b ms where c: "c = (b, ms)" by (cases c)
  let ?st = "next_stamp b ms st"
  have b: "length b = 16" "ms \<le> N" using Cons.prems(2) by (auto simp: c)
  have n: "stamp_ok ?st" "earlier st ?st" "idLast ?st \<le> N + 1"
    using next_stamp_ok [OF Cons.prems(1), of ms b] Cons.prems(3,4) b(2) by auto
  have len: "length (id_bytes x s) = 16" if "length x = 16" for x s using that by (simp add: id_bytes_def Let_def)
  have less: "id_text (id_bytes b0 st) < id_text (id_bytes b ?st)"
    using id_text_less [OF len len id_bytes_less] Cons.prems(1,5) n b by blast
  have "(\<forall>i \<in> set (id_run calls ?st). id_text (id_bytes b ?st) < i) \<and> sorted_wrt (<) (id_run calls ?st)"
    using Cons.prems(2,4) n(1,3) b by (intro Cons.IH [of _ "N + 1"]) auto
  then show ?case using less by (auto simp: c NewID_def Let_def intro: less_trans)
qed simp

section \<open>Properties\<close>

text \<open>
  C37: identifiers are minted in strictly increasing order. For every sequence of
  calls, whatever the random bytes and however the clock repeats or runs
  backwards, the ids form a strictly increasing list of strings (so they are
  pairwise different and ordering by id is ordering by creation), as long as the
  timestamps leave the 48-bit field room for the borrowed milliseconds.
\<close>

theorem NewID_increasing:
  assumes "\<forall>(b, ms) \<in> set calls. length b = 16 \<and> ms \<le> N" and "0 \<le> N" and "N + int (length calls) < 2 ^ 48"
  shows "sorted_wrt (<) (id_run calls init_ids) \<and> distinct (id_run calls init_ids)"
proof -
  have "stamp_ok init_ids" by (simp add: stamp_ok_def init_ids_def)
  then have s: "sorted_wrt (<) (id_run calls init_ids)"
    using id_run_later [of init_ids calls N "replicate 16 0"] assms by (simp add: init_ids_def)
  then show ?thesis using strict_sorted_iff by blast
qed

theorem NewID_increasing_witness:
  "sorted_wrt (<) (id_run [(replicate 16 255, 1000), (replicate 16 0, 1000), (replicate 16 7, 3)] init_ids)"
proof -
  have "\<forall>(b, ms) \<in> set [(replicate 16 (255 :: 8 word), 1000 :: int), (replicate 16 0, 1000), (replicate 16 7, 3)]. length b = 16 \<and> ms \<le> 1000"
    by simp
  from NewID_increasing [OF this] show ?thesis by simp
qed

end
