(* ===== verification/World.thy ===== *)
theory World
  imports Tenant_Frame Recursor Ids
begin

text \<open>
  The wired module, after \<^verbatim>\<open>internal/app/app.go\<close>: one state holding the store, the
  PowerDNS server, the recursor, the audit queue, the published events, the id
  generator and the clock, and the dependencies every service is built with. Each
  provider works on its own part of the state; the contracts of the services are
  discharged here for these providers.
\<close>

record world =
  w_mem :: mem
  w_pdns :: fake
  w_rec :: rfake
  w_writer :: writer
  w_events :: "(string \<times> string \<times> payload) list"
  w_ids :: id_state
  w_minted :: nat
  w_ms :: int
  w_now :: time
  w_syncs :: "string list"
  w_unowned :: int

definition on_mem :: "(mem, 'a) act \<Rightarrow> (world, 'a) act" where
  "on_mem = focus w_mem (\<lambda>m w. w\<lparr>w_mem := m\<rparr>)"

definition on_pdns :: "(fake, 'a) act \<Rightarrow> (world, 'a) act" where
  "on_pdns = focus w_pdns (\<lambda>f w. w\<lparr>w_pdns := f\<rparr>)"

definition on_rec :: "(rfake, 'a) act \<Rightarrow> (world, 'a) act" where
  "on_rec = focus w_rec (\<lambda>f w. w\<lparr>w_rec := f\<rparr>)"

text \<open>The random bytes of the n-th identifier come from \<open>rnd\<close>.\<close>

definition mint :: "(nat \<Rightarrow> 8 word list) \<Rightarrow> world \<Rightarrow> string \<times> world" where
  "mint rnd w = (case NewID (rnd (w_minted w)) (w_ms w) (w_ids w) of
     (i, st) \<Rightarrow> (i, w\<lparr>w_ids := st, w_minted := Suc (w_minted w)\<rparr>))"

definition mem_store :: "unicode \<Rightarrow> world repo" where
  "mem_store u = \<lparr>
     r_CreateZone = (\<lambda>z. on_mem (mem_CreateZone z)), r_GetZone = (\<lambda>t i. on_mem (mem_GetZone t i)),
     r_GetZoneByName = (\<lambda>t n. on_mem (mem_GetZoneByName t n)), r_UpdateZone = (\<lambda>z. on_mem (mem_UpdateZone z)),
     r_DeleteZone = (\<lambda>t i. on_mem (mem_DeleteZone t i)), r_ZoneConflict = (\<lambda>t n. on_mem (mem_ZoneConflict u t n)),
     r_AllZoneNames = on_mem mem_AllZoneNames, r_ZonesForTenant = (\<lambda>t. on_mem (mem_ZonesForTenant t)),
     r_CreateTemplate = (\<lambda>t. on_mem (mem_CreateTemplate u t)), r_GetTemplate = (\<lambda>t i. on_mem (mem_GetTemplate t i)),
     r_UpdateTemplate = (\<lambda>t. on_mem (mem_UpdateTemplate u t)), r_DeleteTemplate = (\<lambda>t i. on_mem (mem_DeleteTemplate t i)),
     r_CreateSupermaster = (\<lambda>s. on_mem (mem_CreateSupermaster s)), r_GetSupermaster = (\<lambda>t i. on_mem (mem_GetSupermaster t i)),
     r_DeleteSupermaster = (\<lambda>t i. on_mem (mem_DeleteSupermaster t i)), r_GetIPAMSync = (\<lambda>t i. on_mem (mem_GetIPAMSync t i)),
     r_UpsertIPAMSync = (\<lambda>s. on_mem (mem_UpsertIPAMSync s)), r_DeleteIPAMSync = (\<lambda>t i. on_mem (mem_DeleteIPAMSync t i)),
     r_ClearSyncZone = (\<lambda>t i. on_mem (mem_ClearSyncZone t i)), r_InsertChallenge = (\<lambda>c. on_mem (mem_InsertChallenge c)),
     r_DeleteChallenge = (\<lambda>t f v. on_mem (mem_DeleteChallenge t f v)),
     r_ChallengesOlderThan = (\<lambda>b n. on_mem (mem_ChallengesOlderThan b n))\<rparr>"

definition fake_server :: "unicode \<Rightarrow> world pdns_client" where
  "fake_server u = \<lparr>
     p_ListZoneNames = on_pdns fake_ListZoneNames, p_GetZone = (\<lambda>i. on_pdns (fake_GetZone i)),
     p_CreateZone = (\<lambda>z. on_pdns (fake_CreateZone z)), p_UpdateZoneMetadata = (\<lambda>i m. on_pdns (fake_UpdateZoneMetadata i m)),
     p_DeleteZone = (\<lambda>i. on_pdns (fake_DeleteZone i)), p_PatchRRsets = (\<lambda>i rs. on_pdns (fake_PatchRRsets i rs)),
     p_NotifyZone = (\<lambda>i. on_pdns (fake_NotifyZone u i)), p_ExportZone = (\<lambda>i. on_pdns (fake_ExportZone i)),
     p_ListSupermasters = on_pdns fake_ListSupermasters, p_CreateSupermaster = (\<lambda>s. on_pdns (fake_CreateSupermaster s)),
     p_DeleteSupermaster = (\<lambda>ip ns. on_pdns (fake_DeleteSupermaster ip ns))\<rparr>"

definition world_recursor :: "unicode \<Rightarrow> world recursor_client" where
  "world_recursor u = \<lparr>rc_Enabled = (\<lambda>w. rf_enabled (w_rec w)), rc_SyncForward = (\<lambda>z. on_rec (rfake_SyncForward u z)),
     rc_RemoveForward = (\<lambda>z. on_rec (rfake_RemoveForward u z)), rc_ListForwards = on_rec rfake_ListForwards,
     rc_Ready = on_rec rfake_Ready\<rparr>"

definition record_audit :: "unicode \<Rightarrow> (nat \<Rightarrow> 8 word list) \<Rightarrow> audit_event \<Rightarrow> (world, unit) act" where
  "record_audit u rnd e w = (case audit_Validate e of Some x \<Rightarrow> (Inl x, w)
     | None \<Rightarrow> (case mint rnd w of (i, w1) \<Rightarrow>
         focus w_writer (\<lambda>q w. w\<lparr>w_writer := q\<rparr>) (writer_Record u i (w_now w1) e) w1))"

definition publish :: "world publisher" where
  "publish tenant ty p w = w\<lparr>w_events := w_events w @ [(tenant, ty, p)]\<rparr>"

record settings =
  cfg_Ext :: ext
  cfg_Limits :: limits
  cfg_Checker :: checker
  cfg_MaxExportBytes :: int
  cfg_Random :: "nat \<Rightarrow> 8 word list"
  cfg_Static :: "string list"

text \<open>
  The constructors pass no checker to the zone and record services; the model takes any, and
  \<open>None\<close> is theirs.
\<close>

definition wire :: "settings \<Rightarrow> world deps" where
  "wire c = (let u = x_unicode (cfg_Ext c) in zones_New
     \<lparr>d_Ext = cfg_Ext c, d_Store = mem_store u, d_PDNS = fake_server u, d_Recursor = Some (world_recursor u),
      d_Events = Some publish, d_Audit = Some (record_audit u (cfg_Random c)), d_Checker = cfg_Checker c,
      d_Templates = Some (templates_Expand (cfg_Ext c) (cfg_Limits c) (mem_store u)),
      d_MaxExportBytes = cfg_MaxExportBytes c, d_Now = w_now, d_NewID = mint (cfg_Random c)\<rparr>)"

definition reconcile_of :: "settings \<Rightarrow> world reconciler" where
  "reconcile_of c = (let u = x_unicode (cfg_Ext c) in
     \<lparr>rr_Unicode = u, rr_Client = Some (world_recursor u), rr_Names = r_AllZoneNames (mem_store u), rr_Static = cfg_Static c,
      rr_ReadyAttempts = 0, rr_OnResult = Some (\<lambda>r w. w\<lparr>w_syncs := w_syncs w @ [r]\<rparr>),
      rr_PDNSNames = Some (p_ListZoneNames (fake_server u)), rr_OnUnowned = Some (\<lambda>n w. w\<lparr>w_unowned := n\<rparr>),
      rr_Cancelled = (\<lambda>w. False)\<rparr>)"

section \<open>The providers keep the contracts\<close>

definition stored :: "world \<Rightarrow> string \<Rightarrow> zone option" where
  "stored w = mget (m_zones (w_mem w))"

definition served :: "world \<Rightarrow> string \<Rightarrow> pzone option" where
  "served w = mget (f_zones (w_pdns w))"

text \<open>
  The invariant of the wired state: the store satisfies its own, the server satisfies
  \<open>Q\<close>. The server is \<open>honest\<close> when no armed failure pretends that a zone is missing,
  and \<open>calm\<close> when it answers and no failure is armed (the store may still fail).
\<close>

definition world_inv :: "(fake \<Rightarrow> bool) \<Rightarrow> unicode \<Rightarrow> world \<Rightarrow> bool" where
  "world_inv Q u w = (mem_ok u (w_mem w) \<and> Q (w_pdns w))"

definition honest :: "fake \<Rightarrow> bool" where
  "honest f = (\<forall>op e. mget (f_failNext f) op = Some (Some e) \<longrightarrow> \<not> errIs e pdns_ErrNotFound)"

definition calm :: "fake \<Rightarrow> bool" where
  "calm f = (\<not> f_Down f \<and> f_failNext f = [])"

abbreviation world_ok :: "unicode \<Rightarrow> world \<Rightarrow> bool" where
  "world_ok \<equiv> world_inv honest"

abbreviation world_calm :: "unicode \<Rightarrow> world \<Rightarrow> bool" where
  "world_calm \<equiv> world_inv calm"

text \<open>A server condition that implies honesty and that every call keeps.\<close>

definition steady :: "(fake \<Rightarrow> bool) \<Rightarrow> bool" where
  "steady Q = ((\<forall>f. Q f \<longrightarrow> honest f) \<and> (\<forall>i. keeps Q (fake_GetZone i)) \<and> (\<forall>m. keeps Q (fake_CreateZone m)) \<and>
     (\<forall>i m. keeps Q (fake_UpdateZoneMetadata i m)) \<and> (\<forall>i. keeps Q (fake_DeleteZone i)) \<and>
     (\<forall>u i. keeps Q (fake_NotifyZone u i)) \<and> (\<forall>i. keeps Q (fake_ExportZone i)) \<and>
     (\<forall>i rs. keeps Q (fake_PatchRRsets i rs)))"

lemma on_mem_run: "on_mem m w = (r, w') \<longleftrightarrow> (\<exists>s. m (w_mem w) = (r, s) \<and> w' = w\<lparr>w_mem := s\<rparr>)"
  by (simp add: on_mem_def focus_run)

lemma on_pdns_run: "on_pdns m w = (r, w') \<longleftrightarrow> (\<exists>s. m (w_pdns w) = (r, s) \<and> w' = w\<lparr>w_pdns := s\<rparr>)"
  by (simp add: on_pdns_def focus_run)

lemma on_rec_run: "on_rec m w = (r, w') \<longleftrightarrow> (\<exists>s. m (w_rec w) = (r, s) \<and> w' = w\<lparr>w_rec := s\<rparr>)"
  by (simp add: on_rec_def focus_run)

lemma on_parts [simp]:
  "served (snd (on_mem m w)) = served w" "stored (snd (on_pdns f w)) = stored w"
  "stored (snd (on_rec g w)) = stored w" "served (snd (on_rec g w)) = served w"
  "world_inv Q u w \<Longrightarrow> world_inv Q u (snd (on_rec g w))"
  by (auto simp: on_mem_def on_pdns_def on_rec_def focus_def served_def stored_def world_inv_def split: prod.split)

lemma keeps_on_mem: "keeps (mem_ok u) m \<Longrightarrow> keeps (world_inv Q u) (on_mem m)"
  by (auto simp: keeps_def on_mem_def focus_def world_inv_def split: prod.split)

lemma keeps_on_pdns: "keeps Q f \<Longrightarrow> keeps (world_inv Q u) (on_pdns f)"
  by (auto simp: keeps_def on_pdns_def focus_def world_inv_def split: prod.split)

lemma mint_frame [simp]:
  "stored (snd (mint rnd w)) = stored w" "served (snd (mint rnd w)) = served w" "world_inv Q u w \<Longrightarrow> world_inv Q u (snd (mint rnd w))"
  by (auto simp: mint_def stored_def served_def world_inv_def split: prod.split)

lemma mem_opE:
  assumes "mem_op meth body m = (r, m')"
  obtains (failed) e where "r = Inl e" "m_zones m' = m_zones m" "\<not> errIs e repo_ErrNotFound" | (ran) "body m = (r, m')"
  using assms by (auto simp: mem_op_def mem_fail_def split: if_splits)

lemma wire_simps [simp]:
  "d_Ext (wire c) = cfg_Ext c" "d_Store (wire c) = mem_store (x_unicode (cfg_Ext c))"
  "d_PDNS (wire c) = fake_server (x_unicode (cfg_Ext c))" "d_NewID (wire c) = mint (cfg_Random c)"
  "d_Recursor (wire c) = Some (world_recursor (x_unicode (cfg_Ext c)))" "d_Events (wire c) = Some publish"
  "d_Audit (wire c) = Some (record_audit (x_unicode (cfg_Ext c)) (cfg_Random c))" "d_Now (wire c) = w_now"
  "d_Templates (wire c) = Some (templates_Expand (cfg_Ext c) (cfg_Limits c) (mem_store (x_unicode (cfg_Ext c))))"
  by (simp_all add: wire_def zones_New_def Let_def)

lemma record_audit_frame [simp]:
  "stored (snd (record_audit u rnd e w)) = stored w" "served (snd (record_audit u rnd e w)) = served w"
  "world_inv Q v w \<Longrightarrow> world_inv Q v (snd (record_audit u rnd e w))"
  by (auto simp: record_audit_def focus_def mint_def stored_def served_def world_inv_def split: option.split prod.split)

text \<open>The zone operations of the store.\<close>

lemma mem_zone_laws:
  "mem_ok u m \<Longrightarrow> mget (m_zones m) i = Some z \<Longrightarrow> z_ID z = i"
  "mem_ok u m \<Longrightarrow> mget (m_zones m) i = Some y \<Longrightarrow> mget (m_zones m) j = Some z \<Longrightarrow> z_PDNSID y = z_PDNSID z \<Longrightarrow> i = j"
proof -
  show k: "z_ID z = i" if "mem_ok u m" "mget (m_zones m) i = Some z" for i z
    using that keyed_mget by (fastforce simp: mem_ok_def zones_ok_def)
  assume ok: "mem_ok u m" and y: "mget (m_zones m) i = Some y" and z: "mget (m_zones m) j = Some z" and e: "z_PDNSID y = z_PDNSID z"
  have "distinct (map z_PDNSID (mvals (m_zones m)))" using ok by (simp add: mem_ok_def zones_ok_def)
  then have "y = z" using mget_mvals [OF y] mget_mvals [OF z] e by (auto simp: distinct_map inj_on_def)
  then show "i = j" using k [OF ok y] k [OF ok z] by simp
qed

lemma mem_reads_pure:
  "m_zones (snd (mem_GetZone t i m)) = m_zones m" "m_zones (snd (mem_GetZoneByName t n m)) = m_zones m"
  "m_zones (snd (mem_ZoneConflict u t n m)) = m_zones m" "m_zones (snd (mem_ZonesForTenant t m)) = m_zones m"
  "m_zones (snd (mem_ClearSyncZone t i m)) = m_zones m" "m_zones (snd (mem_GetTemplate t i m)) = m_zones m"
  "m_zones (snd (mem_AllZoneNames m)) = m_zones m"
  by (auto simp: mem_GetZone_def mem_GetZoneByName_def mem_ZoneConflict_def mem_ZonesForTenant_def mem_ClearSyncZone_def
      mem_GetTemplate_def mem_AllZoneNames_def mem_op_def mem_fail_def split: option.split)

lemma stored_on_mem: "stored (snd (on_mem m w)) = mget (m_zones (snd (m (w_mem w))))"
  by (simp add: on_mem_def focus_def stored_def split: prod.split)

lemma mem_CreateZone_laws:
  assumes "mem_CreateZone z m = (r, m')"
  shows "r = Inl e \<Longrightarrow> m_zones m' = m_zones m"
    "r = Inr x \<Longrightarrow> mget (m_zones m) (z_ID z) = None \<and> m_zones m' = mput (z_ID z) (zone_defaults (m_Now m) z) (m_zones m)"
  using assms unfolding mem_CreateZone_def by (auto elim!: mem_opE split: if_splits)

lemma zone_defaults_stored: "z_Kind z \<noteq> [] \<Longrightarrow> z_Origin z \<noteq> [] \<Longrightarrow> stored_as z (zone_defaults n z)"
  by (cases z) (auto simp: stored_as_def zone_defaults_def Let_def)

lemma mem_GetZone_laws: "mem_GetZone t i m = (Inr z, m') \<Longrightarrow> mget (m_zones m) i = Some z \<and> z_TenantID z = t"
  unfolding mem_GetZone_def by (auto elim!: mem_opE simp: mem_zone_Inr [symmetric])

lemma mem_GetZoneByName_laws:
  assumes "mem_GetZoneByName t n m = (r, m')" and ok: "mem_ok u m"
  shows "r = Inr z \<Longrightarrow> z_TenantID z = t \<and> z_Name z = n \<and> mget (m_zones m) (z_ID z) = Some z"
    "r = Inl e \<Longrightarrow> errIs e repo_ErrNotFound \<Longrightarrow> mget (m_zones m) i = Some y \<Longrightarrow> z_TenantID y = t \<Longrightarrow> z_Name y \<noteq> n"
proof -
  have v: "x \<in> set (mvals (m_zones m)) \<Longrightarrow> mget (m_zones m) (z_ID x) = Some x" for x
    using ok mem_zone_laws(1) [OF ok] by (auto simp: mem_ok_def zones_ok_def mvals_iff)
  show "r = Inr z \<Longrightarrow> z_TenantID z = t \<and> z_Name z = n \<and> mget (m_zones m) (z_ID z) = Some z"
    using assms(1) v unfolding mem_GetZoneByName_def
    by (auto elim!: mem_opE dest!: find_SomeD split: option.splits)
  show "r = Inl e \<Longrightarrow> errIs e repo_ErrNotFound \<Longrightarrow> mget (m_zones m) i = Some y \<Longrightarrow> z_TenantID y = t \<Longrightarrow> z_Name y \<noteq> n"
    using assms(1) mget_mvals [of "m_zones m" i y] unfolding mem_GetZoneByName_def
    by (auto elim!: mem_opE simp: find_None_iff split: option.splits)
qed

lemma mem_ZoneConflict_laws:
  assumes "mem_ZoneConflict u t n m = (Inr b, m')" and ok: "mem_ok v m"
  shows "b = (\<exists>i z. mget (m_zones m) i = Some z \<and> z_TenantID z \<noteq> t \<and> Overlaps (ToLower u n) (z_Name z))"
proof -
  have "gmap (m_zones m)" using ok by (simp add: mem_ok_def zones_ok_def)
  then show ?thesis using assms(1) unfolding mem_ZoneConflict_def by (elim mem_opE) (simp_all add: list_ex_mvals, blast)
qed

lemma mem_UpdateZone_laws:
  assumes "mem_UpdateZone z m = (r, m')" and ok: "mem_ok u m"
  shows "r = Inl e \<Longrightarrow> m_zones m' = m_zones m"
    "r = Inr z' \<Longrightarrow> \<exists>cur. mget (m_zones m) (z_ID z) = Some cur \<and> z_TenantID cur = z_TenantID z \<and> merged cur z z' \<and>
       m_zones m' = mput (z_ID z) z' (m_zones m)"
proof -
  show "r = Inl e \<Longrightarrow> m_zones m' = m_zones m"
    using assms(1) unfolding mem_UpdateZone_def by (auto elim!: mem_opE simp: Let_def split: sum.splits)
  assume r: "r = Inr z'"
  then obtain cur where cur: "mem_zone m (z_TenantID z) (z_ID z) = Inr cur" and
    z': "z' = cur\<lparr>z_Kind := z_Kind z, z_Masters := z_Masters z, z_DNSSEC := z_DNSSEC z,
           z_Description := z_Description z, z_UpdatedAt := orNow (z_UpdatedAt z) (m_Now m)\<rparr>" "m_zones m' = mput (z_ID z') z' (m_zones m)"
    using assms(1) unfolding mem_UpdateZone_def by (auto elim!: mem_opE simp: Let_def split: sum.splits)
  have "mget (m_zones m) (z_ID z) = Some cur" "z_TenantID cur = z_TenantID z" "z_ID cur = z_ID z"
    using cur mem_zone_laws(1) [OF ok] by (auto simp: mem_zone_Inr)
  moreover have "merged cur z z'" using z'(1) by (auto simp: merged_def)
  ultimately show "\<exists>cur. mget (m_zones m) (z_ID z) = Some cur \<and> z_TenantID cur = z_TenantID z \<and> merged cur z z' \<and>
       m_zones m' = mput (z_ID z) z' (m_zones m)" using z' by auto
qed

lemma mem_DeleteZone_laws:
  assumes "mem_DeleteZone t i m = (r, m')"
  shows "r = Inl e \<Longrightarrow> m_zones m' = m_zones m"
    "r = Inr x \<Longrightarrow> (\<exists>z. mget (m_zones m) i = Some z \<and> z_TenantID z = t) \<and> m_zones m' = mdel i (m_zones m)"
  using assms unfolding mem_DeleteZone_def by (auto elim!: mem_opE simp: mem_zone_Inr split: sum.splits)

section \<open>The PowerDNS server\<close>

lemma served_on_pdns: "served (snd (on_pdns f w)) = mget (f_zones (snd (f (w_pdns w))))"
  by (simp add: on_pdns_def focus_def served_def split: prod.split)

lemma armed_op:
  assumes "\<And>f. f_failNext (snd (body f)) = f_failNext f" and "\<And>f. f_Down (snd (body f)) = f_Down f"
  shows "keeps honest (fake_op op i body)" "keeps calm (fake_op op i body)"
proof -
  have "(honest f \<longrightarrow> honest f') \<and> (calm f \<longrightarrow> calm f')" if run: "fake_op op i body f = (r, f')" for f r f'
  proof -
    obtain e f1 where b: "fake_begin op i f = (e, f1)" by fastforce
    have "(honest f \<longrightarrow> honest f1) \<and> (calm f \<longrightarrow> calm f1)"
      using b by (auto simp: fake_begin_def honest_def calm_def Let_def split: if_splits option.splits)
    moreover have "f_failNext f' = f_failNext f1" "f_Down f' = f_Down f1"
      using run b assms [of f1] by (auto simp: fake_op_def split: option.splits)
    ultimately show ?thesis by (simp add: honest_def calm_def)
  qed
  then show "keeps honest (fake_op op i body)" "keeps calm (fake_op op i body)" by (auto intro: keepsI)
qed

lemma steady_servers: "steady honest" "steady calm"
  unfolding steady_def fake_GetZone_def fake_CreateZone_def fake_UpdateZoneMetadata_def fake_DeleteZone_def fake_NotifyZone_def
    fake_ExportZone_def fake_PatchRRsets_def
  by (intro conjI allI armed_op impI; simp add: Let_def calm_def honest_def split: sum.split option.split)+

lemma steadyD:
  assumes "steady Q"
  shows "Q f \<Longrightarrow> honest f" "keeps Q (fake_GetZone i)" "keeps Q (fake_CreateZone m)" "keeps Q (fake_UpdateZoneMetadata i m)"
    "keeps Q (fake_DeleteZone i)" "keeps Q (fake_NotifyZone u i)" "keeps Q (fake_ExportZone i)" "keeps Q (fake_PatchRRsets i rs)"
  using assms by (simp_all add: steady_def)

lemma fake_opH:
  assumes "fake_op op i body f = (r, f')"
  obtains (failed) e where "r = Inl e" "f_zones f' = f_zones f" "honest f \<Longrightarrow> \<not> errIs e pdns_ErrNotFound"
  | (ran) f1 where "f_zones f1 = f_zones f" "body f1 = (r, f')"
proof (cases "fake_begin op i f")
  case (Pair e f1)
  have z: "f_zones f1 = f_zones f" by (rule fake_beginE [OF Pair])
  have "honest f \<Longrightarrow> e = Some x \<Longrightarrow> \<not> errIs x pdns_ErrNotFound" for x
    using Pair by (auto simp: fake_begin_def honest_def Let_def split: if_splits option.splits)
  then show ?thesis using assms Pair z failed ran by (cases e) (auto simp: fake_op_def)
qed

lemma fake_GetZone_laws:
  assumes "fake_GetZone i f = (r, f')"
  shows "f_zones f' = f_zones f" "r = Inr z \<Longrightarrow> \<exists>p. mget (f_zones f) i = Some p \<and> z = clonePZone p"
    "honest f \<Longrightarrow> r = Inl e \<Longrightarrow> errIs e pdns_ErrNotFound \<Longrightarrow> mget (f_zones f) i = None"
  using assms unfolding fake_GetZone_def
  by (auto elim!: fake_opH simp: fake_zone_def split: sum.splits option.splits)

lemma fake_CreateZone_laws:
  assumes "fake_CreateZone m f = (r, f')"
  shows "r = Inl e \<Longrightarrow> f_zones f' = f_zones f"
    "r = Inr c \<Longrightarrow> pz_Kind m \<noteq> [] \<Longrightarrow> pz_ID c = pz_Name m \<and> mget (f_zones f) (pz_Name m) = None \<and>
       (\<exists>p. f_zones f' = mput (pz_Name m) p (f_zones f) \<and> pz_Name p = pz_Name m \<and>
        pz_Kind p = pz_Kind m \<and> pz_Masters p = pz_Masters m \<and> pz_DNSSEC p = pz_DNSSEC m \<and> pz_Account p = pz_Account m)"
  using assms unfolding fake_CreateZone_def
  by (auto elim!: fake_opH simp: Let_def clonePZone_def split: sum.splits if_splits) (rule exI, rule conjI, rule refl, simp)

lemma fake_UpdateZoneMetadata_laws:
  assumes "fake_UpdateZoneMetadata i m f = (r, f')"
  shows "r = Inl e \<Longrightarrow> f_zones f' = f_zones f"
    "r = Inr x \<Longrightarrow> pz_Kind m \<noteq> [] \<Longrightarrow> pz_Account m \<noteq> [] \<Longrightarrow>
       \<exists>p. mget (f_zones f) i = Some p \<and> f_zones f' = mput i (with_meta p m) (f_zones f)"
  using assms unfolding fake_UpdateZoneMetadata_def
  by (auto elim!: fake_opH simp: fake_zone_def with_meta_def split: sum.splits option.splits)

lemma fake_DeleteZone_laws:
  assumes "fake_DeleteZone i f = (r, f')"
  shows "r = Inr x \<Longrightarrow> f_zones f' = mdel i (f_zones f)" "r = Inl e \<Longrightarrow> f_zones f' = f_zones f"
    "honest f \<Longrightarrow> r = Inl e \<Longrightarrow> errIs e pdns_ErrNotFound \<Longrightarrow> mget (f_zones f) i = None"
  using assms unfolding fake_DeleteZone_def
  by (auto elim!: fake_opH simp: fake_zone_def split: sum.splits option.splits)

lemma fake_NotifyZone_laws:
  assumes "fake_NotifyZone u i f = (r, f')"
  shows "f_zones f' = f_zones f \<or> (\<exists>p n. mget (f_zones f) i = Some p \<and> f_zones f' = mput i (p\<lparr>pz_NotifiedSerial := n\<rparr>) (f_zones f))"
  using assms unfolding fake_NotifyZone_def
  by (auto elim!: fake_opH simp: Let_def fake_zone_def split: sum.splits option.splits if_splits; blast)

lemma fake_ExportZone_pure: "f_zones (snd (fake_ExportZone i f)) = f_zones f"
  by (cases "fake_ExportZone i f") (auto simp: fake_ExportZone_def elim!: fake_opH split: sum.splits)

section \<open>The environment\<close>

lemma mem_store_simps [simp]:
  "r_CreateZone (mem_store u) z = on_mem (mem_CreateZone z)" "r_GetZone (mem_store u) t i = on_mem (mem_GetZone t i)"
  "r_GetZoneByName (mem_store u) t n = on_mem (mem_GetZoneByName t n)" "r_UpdateZone (mem_store u) z = on_mem (mem_UpdateZone z)"
  "r_DeleteZone (mem_store u) t i = on_mem (mem_DeleteZone t i)" "r_ZoneConflict (mem_store u) t n = on_mem (mem_ZoneConflict u t n)"
  "r_ZonesForTenant (mem_store u) t = on_mem (mem_ZonesForTenant t)" "r_ClearSyncZone (mem_store u) t i = on_mem (mem_ClearSyncZone t i)"
  "r_GetTemplate (mem_store u) t i = on_mem (mem_GetTemplate t i)" "r_AllZoneNames (mem_store u) = on_mem mem_AllZoneNames"
  by (simp_all add: mem_store_def)

lemma fake_server_simps [simp]:
  "p_GetZone (fake_server u) i = on_pdns (fake_GetZone i)" "p_CreateZone (fake_server u) z = on_pdns (fake_CreateZone z)"
  "p_UpdateZoneMetadata (fake_server u) i z = on_pdns (fake_UpdateZoneMetadata i z)"
  "p_DeleteZone (fake_server u) i = on_pdns (fake_DeleteZone i)" "p_NotifyZone (fake_server u) i = on_pdns (fake_NotifyZone u i)"
  "p_ExportZone (fake_server u) i = on_pdns (fake_ExportZone i)" "p_PatchRRsets (fake_server u) i rs = on_pdns (fake_PatchRRsets i rs)"
  by (simp_all add: fake_server_def)

lemma mem_store_contract: "zone_store (mem_store u) u stored (world_inv Q u)"
proof (unfold_locales, goal_cases)
  case 1 then show ?case using mem_zone_laws(1) by (auto simp: stored_def world_inv_def)
next case 2 then show ?case using mem_zone_laws(2) by (auto simp: stored_def world_inv_def)
next case 3 then show ?case by (simp add: keeps_on_mem mem_keeps)
next case 4 then show ?case by (simp add: keeps_on_mem keeps_reads mem_reads)
next case 5 then show ?case by (simp add: keeps_on_mem keeps_reads mem_reads)
next case 6 then show ?case by (simp add: keeps_on_mem mem_keeps)
next case 7 then show ?case by (simp add: keeps_on_mem mem_keeps)
next case 8 then show ?case by (simp add: keeps_on_mem keeps_reads mem_reads)
next case 9 then show ?case by (simp add: keeps_on_mem keeps_reads mem_reads)
next case 10 then show ?case by (simp add: keeps_on_mem mem_keeps keeps_ClearSyncZone)
next case 11 then show ?case by (simp add: stored_on_mem mem_reads_pure, simp add: stored_def)
next case 12 then show ?case by (simp add: stored_on_mem mem_reads_pure, simp add: stored_def)
next case 13 then show ?case by (simp add: stored_on_mem mem_reads_pure, simp add: stored_def)
next case 14 then show ?case by (simp add: stored_on_mem mem_reads_pure, simp add: stored_def)
next case 15 then show ?case by (simp add: stored_on_mem mem_reads_pure, simp add: stored_def)
next case 16 then show ?case using mem_CreateZone_laws(1) by (auto simp: on_mem_run stored_def)
next case (17 w z x w')
  then obtain m where m: "mem_CreateZone z (w_mem w) = (Inr x, m)" "w' = w\<lparr>w_mem := m\<rparr>" by (auto simp: on_mem_run)
  show ?case using mem_CreateZone_laws(2) [OF m(1) refl] zone_defaults_stored [OF 17(3,4)] m(2)
    by (auto simp: stored_def fun_eq_iff)
next case 18 then show ?case using mem_GetZone_laws by (auto simp: on_mem_run stored_def)
next case 19 then show ?case using mem_GetZoneByName_laws(1) by (auto simp: on_mem_run stored_def world_inv_def)
next case (20 w t n e w' i z)
  then obtain m where m: "mem_GetZoneByName t n (w_mem w) = (Inl e, m)" "mem_ok u (w_mem w)" by (auto simp: on_mem_run world_inv_def)
  show ?case using mem_GetZoneByName_laws(2) [OF m refl] 20 by (simp add: stored_def)
next case (21 w t n b w')
  then obtain m where m: "mem_ZoneConflict u t n (w_mem w) = (Inr b, m)" "mem_ok u (w_mem w)" by (auto simp: on_mem_run world_inv_def)
  show ?case using mem_ZoneConflict_laws [OF m] by (simp add: stored_def)
next case 22 then show ?case using mem_UpdateZone_laws(1) by (auto simp: on_mem_run stored_def world_inv_def)
next case (23 w z z' w')
  then obtain m where m: "mem_UpdateZone z (w_mem w) = (Inr z', m)" "w' = w\<lparr>w_mem := m\<rparr>" by (auto simp: on_mem_run)
  have "mem_ok u (w_mem w)" using 23 by (simp add: world_inv_def)
  from mem_UpdateZone_laws(2) [OF m(1) this refl] m(2) show ?case by (auto simp: stored_def fun_eq_iff)
next case 24 then show ?case using mem_DeleteZone_laws(1) by (auto simp: on_mem_run stored_def world_inv_def)
next case (25 w t i x w')
  then obtain m where m: "mem_DeleteZone t i (w_mem w) = (Inr x, m)" "w' = w\<lparr>w_mem := m\<rparr>" by (auto simp: on_mem_run)
  have "mem_ok u (w_mem w)" using 25 by (simp add: world_inv_def)
  from mem_DeleteZone_laws(2) [OF m(1)] m(2) this show ?case by (auto simp: stored_def fun_eq_iff)
qed

lemma fake_server_contract:
  assumes "steady Q"
  shows "zone_server (fake_server u) served (world_inv Q v)"
proof (unfold_locales, goal_cases)
  case 1 then show ?case by (simp add: served_on_pdns fake_GetZone_laws(1) [OF prod.collapse [symmetric]], simp add: served_def)
next case 2 then show ?case by (simp add: served_on_pdns fake_ExportZone_pure, simp add: served_def)
next case 3 then show ?case using fake_GetZone_laws(2) by (auto simp: on_pdns_run served_def)
next case 4 then show ?case using fake_GetZone_laws(3) steadyD(1) [OF assms] by (auto simp: on_pdns_run served_def world_inv_def)
next case (5 m w c w')
  then obtain f where f: "fake_CreateZone m (w_pdns w) = (Inr c, f)" "w' = w\<lparr>w_pdns := f\<rparr>" by (auto simp: on_pdns_run)
  from fake_CreateZone_laws(2) [OF f(1) refl 5(2)] f(2) show ?case by (auto simp: served_def fun_eq_iff)
next case 6 then show ?case using fake_CreateZone_laws(1) by (auto simp: on_pdns_run served_def)
next case (7 i m w x w')
  then obtain f where f: "fake_UpdateZoneMetadata i m (w_pdns w) = (Inr x, f)" "w' = w\<lparr>w_pdns := f\<rparr>" by (auto simp: on_pdns_run)
  from fake_UpdateZoneMetadata_laws(2) [OF f(1) refl 7(2,3)] f(2) show ?case by (auto simp: served_def fun_eq_iff)
next case 8 then show ?case using fake_UpdateZoneMetadata_laws(1) by (auto simp: on_pdns_run served_def)
next case 9 then show ?case using fake_DeleteZone_laws(1) by (auto simp: on_pdns_run served_def fun_eq_iff)
next case 10 then show ?case using fake_DeleteZone_laws(2,3) steadyD(1) [OF assms] by (auto simp: on_pdns_run served_def world_inv_def)
next case (11 i w r w')
  then obtain f where f: "fake_NotifyZone u i (w_pdns w) = (r, f)" "w' = w\<lparr>w_pdns := f\<rparr>" by (auto simp: on_pdns_run)
  from fake_NotifyZone_laws [OF f(1)] f(2) show ?case by (auto simp: served_def fun_eq_iff)
qed

lemma templates_Expand_run:
  assumes "templates_Expand L l (mem_store u) t i n w = (r, w')"
  obtains m where "w' = w\<lparr>w_mem := m\<rparr>" "snd (mem_GetTemplate t i (w_mem w)) = m"
  using assms unfolding templates_Expand_def
  by (auto elim!: and_thenE map_errE simp: on_mem_run lift_res_def)

lemma templates_Expand_frame:
  "stored (snd (templates_Expand L l (mem_store u) t i n w)) = stored w"
  "served (snd (templates_Expand L l (mem_store u) t i n w)) = served w"
  "keeps (world_inv Q v) (templates_Expand L l (mem_store u) t i n)"
proof -
  obtain r w' where run: "templates_Expand L l (mem_store u) t i n w = (r, w')" by fastforce
  show "stored (snd (templates_Expand L l (mem_store u) t i n w)) = stored w" "served (snd (templates_Expand L l (mem_store u) t i n w)) = served w"
    using run mem_reads_pure(6) by (auto elim!: templates_Expand_run simp: stored_def served_def)
  show "keeps (world_inv Q v) (templates_Expand L l (mem_store u) t i n)"
    using keepsD [OF keeps_reads [OF mem_reads(7)]]
    by (auto intro!: keepsI elim!: templates_Expand_run simp: world_inv_def)
qed

lemma publish_frame [simp]:
  "stored (publish t ty p w) = stored w" "served (publish t ty p w) = served w"
  "world_inv Q u (publish t ty p w) = world_inv Q u w"
  by (simp_all add: publish_def stored_def served_def world_inv_def)

lemma world_recursor_simps [simp]:
  "rc_SyncForward (world_recursor u) z = on_rec (rfake_SyncForward u z)"
  "rc_RemoveForward (world_recursor u) z = on_rec (rfake_RemoveForward u z)"
  "rc_ListForwards (world_recursor u) = on_rec rfake_ListForwards" "rc_Ready (world_recursor u) = on_rec rfake_Ready"
  "rc_Enabled (world_recursor u) w = rf_enabled (w_rec w)"
  by (simp_all add: world_recursor_def)

lemma wire_contract:
  assumes "steady Q"
  shows "zone_env (wire c) stored (world_inv Q (x_unicode (cfg_Ext c))) served"
proof (intro zone_env.intro)
  show "zone_store (d_Store (wire c)) (x_unicode (d_Ext (wire c))) stored (world_inv Q (x_unicode (cfg_Ext c)))"
    by (simp add: mem_store_contract)
  show "zone_server (d_PDNS (wire c)) served (world_inv Q (x_unicode (cfg_Ext c)))"
    by (simp add: fake_server_contract assms)
  show "zone_env_axioms (wire c) stored (world_inv Q (x_unicode (cfg_Ext c))) served"
    by (intro zone_env_axioms.intro)
      (auto simp: keeps_on_pdns steadyD [OF assms] templates_Expand_frame audit_Emit_def EmitZone_def syncForward_def removeForward_def)
qed

text \<open>The patch of record sets.\<close>

lemma fake_PatchRRsets_laws:
  assumes "fake_PatchRRsets i rs f = (r, f')"
  shows "r = Inl e \<Longrightarrow> f_zones f' = f_zones f"
    "r = Inr x \<Longrightarrow> \<exists>p. mget (f_zones f) i = Some p \<and> f_zones f' = mput i (p\<lparr>
       pz_RRsets := foldl patch_one (cloneRRsets (pz_RRsets p)) rs, pz_Serial := pz_Serial p + 1\<rparr>) (f_zones f)"
  using assms unfolding fake_PatchRRsets_def
  by (auto elim!: fake_opH simp: fake_zone_def split: sum.splits option.splits)

lemma record_contract:
  assumes "steady Q"
  shows "record_env (wire c) stored (world_inv Q (x_unicode (cfg_Ext c))) served"
proof (intro record_env.intro wire_contract assms record_env_axioms.intro)
  show "served w' = served w" if "p_PatchRRsets (d_PDNS (wire c)) i rs w = (Inl e, w')" for i rs w e w'
    using that fake_PatchRRsets_laws(1) by (auto simp: on_pdns_run served_def)
  show "\<exists>p p'. served w i = Some p \<and> served w' = (served w)(i \<mapsto> p') \<and>
      content_of (pz_RRsets p') = foldl spec_change (content_of (pz_RRsets p)) rs \<and> agrees z p' = agrees z p"
    if run: "p_PatchRRsets (d_PDNS (wire c)) i rs w = (Inr x, w')" for w i rs x w' z
  proof -
    obtain f where f: "fake_PatchRRsets i rs (w_pdns w) = (Inr x, f)" "w' = w\<lparr>w_pdns := f\<rparr>" using run by (auto simp: on_pdns_run)
    from fake_PatchRRsets_laws(2) [OF f(1) refl] f(2) show ?thesis
      by (auto simp: served_def fun_eq_iff content_patch agrees_def)
  qed
qed (auto simp: keeps_on_pdns steadyD [OF assms] EmitRecord_def)

interpretation zw: record_env "wire c" stored "world_ok (x_unicode (cfg_Ext c))" served for c
  by (rule record_contract [OF steady_servers(1)])

interpretation zc: record_env "wire c" stored "world_calm (x_unicode (cfg_Ext c))" served for c
  by (rule record_contract [OF steady_servers(2)])

lemma world_calm_ok: "world_calm u w \<Longrightarrow> world_ok u w"
  using steadyD(1) [OF steady_servers(2)] by (simp add: world_inv_def)

text \<open>A reliable server does not fail to delete or to update a zone it serves.\<close>

lemma calm_calls:
  assumes "world_calm u w" and "served w i = Some p"
  shows "on_pdns (fake_DeleteZone i) w \<noteq> (Inl e, w')" "on_pdns (fake_UpdateZoneMetadata i m) w \<noteq> (Inl e, w')"
  using assms
  by (auto simp: on_pdns_run fake_DeleteZone_def fake_UpdateZoneMetadata_def fake_op_def fake_begin_def calm_def world_inv_def
      served_def fake_zone_def)

section \<open>The recursor\<close>

definition forwards :: "world \<Rightarrow> string \<Rightarrow> string option" where
  "forwards w = mget (rf_forwards (w_rec w))"

lemma rfake_client_simps [simp]:
  "rc_SyncForward (rfake_client u) = rfake_SyncForward u" "rc_RemoveForward (rfake_client u) = rfake_RemoveForward u"
  "rc_ListForwards (rfake_client u) = rfake_ListForwards" "rc_Enabled (rfake_client u) = rf_enabled"
  by (simp_all add: rfake_client_def)

interpretation fwd: forwarder u "world_recursor u" forwards "\<lambda>w. rf_Target (w_rec w)" for u
proof unfold_locales
  show "forwards w' k = forwards w k"
    if "rc_SyncForward (world_recursor u) z w = (r, w')" "recursor_canon u z \<noteq> Inr k" for z w r w' k
    using that rf.sync_other [of u z "w_rec w" r _ k] by (auto simp: on_rec_run forwards_def)
  show "\<exists>k. recursor_canon u z = Inr k \<and> forwards w' k = Some (rf_Target (w_rec w))"
    if "rc_Enabled (world_recursor u) w" "rc_SyncForward (world_recursor u) z w = (Inr x, w')" for w z x w'
    using that rf.sync_done [of u "w_rec w" z x] by (auto simp: on_rec_run forwards_def)
  show "forwards w' k = forwards w k"
    if "rc_RemoveForward (world_recursor u) z w = (r, w')" "recursor_canon u z \<noteq> Inr k" for z w r w' k
    using that rf.remove_other [of u z "w_rec w" r _ k] by (auto simp: on_rec_run forwards_def)
  show "\<exists>k. recursor_canon u z = Inr k \<and> forwards w' k = None"
    if "rc_Enabled (world_recursor u) w" "rc_RemoveForward (world_recursor u) z w = (Inr x, w')" for w z x w'
    using that rf.remove_done [of u "w_rec w" z x] by (auto simp: on_rec_run forwards_def)
  show "set ks = dom (forwards w)"
    if "rc_Enabled (world_recursor u) w" "rc_ListForwards (world_recursor u) w = (Inr ks, w')" for w ks w'
    using that rf.list_done [of u "w_rec w" ks] by (auto simp: on_rec_run forwards_def)
  show "forwards w' = forwards w" if "rc_ListForwards (world_recursor u) w = (l, w')" for w l w'
    using that rf.list_pure [of u "w_rec w" l] by (auto simp: on_rec_run forwards_def)
qed (auto simp: on_rec_run dest: rf.stable [simplified])

lemma serves_reconcile: "fwd.serves (x_unicode (cfg_Ext c)) (reconcile_of c)"
  unfolding fwd.serves_def fwd.quiet_def
  by (auto simp: reconcile_of_def Let_def rr_result_def countUnowned_def forwards_def on_mem_def on_pdns_def focus_def
      fake_server_def split: option.split sum.split prod.split)

lemma AllZoneNames_run:
  assumes "mem_ok u (w_mem w)" and "fst (rr_Names (reconcile_of c) w) = Inr ms"
  shows "set ms = {z_Name z |i z. stored w i = Some z}"
proof -
  have "gmap (m_zones (w_mem w))" using assms(1) by (simp add: mem_ok_def zones_ok_def)
  moreover have "set ms = z_Name ` set (mvals (m_zones (w_mem w)))"
    using assms(2) by (auto simp: reconcile_of_def Let_def on_mem_def focus_def mem_AllZoneNames_def mem_op_def mem_fail_def split: if_splits)
  ultimately show ?thesis by (simp add: set_eq_iff image_iff Bex_def mvals_iff stored_def) blast
qed

lemma store_calls [simp]:
  "r_GetIPAMSync (mem_store u) t i = on_mem (mem_GetIPAMSync t i)" "r_UpsertIPAMSync (mem_store u) n = on_mem (mem_UpsertIPAMSync n)"
  "r_DeleteIPAMSync (mem_store u) t i = on_mem (mem_DeleteIPAMSync t i)" "r_ZonesForTenant (mem_store u) t = on_mem (mem_ZonesForTenant t)"
  "r_InsertChallenge (mem_store u) ch = on_mem (mem_InsertChallenge ch)"
  "r_DeleteChallenge (mem_store u) t f v = on_mem (mem_DeleteChallenge t f v)"
  "r_ChallengesOlderThan (mem_store u) b k = on_mem (mem_ChallengesOlderThan b k)"
  by (simp_all add: mem_store_def)

lemma mem_quiet:
  assumes "keeps (mem_ok u) f" "\<And>m. m_zones (snd (f m)) = m_zones m" "world_inv Q u w" "on_mem f w = (r, w')"
  shows "world_inv Q u w' \<and> stored w' = stored w \<and> served w' = served w"
proof -
  have w': "w' = w\<lparr>w_mem := snd (f (w_mem w))\<rparr>" using assms(4) by (auto simp: on_mem_run)
  have "mem_ok u (snd (f (w_mem w)))" using keepsD [OF assms(1)] assms(3) by (simp add: world_inv_def)
  then show ?thesis using w' assms(2,3) by (simp add: world_inv_def stored_def served_def)
qed

end
