(* ===== verification/Sample_Run.thy ===== *)
theory Sample_Run
  imports World
begin

text \<open>
  A small configuration of the module and one evaluated request, for the concrete
  instances of the properties: tenant a creates the zone a.com in an empty module.
\<close>

definition demo_settings :: settings where
  "demo_settings = \<lparr>cfg_Ext = sample_ext, cfg_Limits = DefaultLimits, cfg_Checker = None, cfg_MaxExportBytes = 1000,
     cfg_Random = (\<lambda>n. replicate 16 (word_of_nat n)), cfg_Static = []\<rparr>"

definition demo_world :: world where
  "demo_world = \<lparr>w_mem = mem_New 1, w_pdns = NewFake, w_rec = NewRFake, w_writer = newWriter 0, w_events = [], w_ids = init_ids,
     w_minted = 0, w_ms = 5, w_now = 7, w_syncs = [], w_unowned = 0\<rparr>"

definition demo_input :: create_input where
  "demo_input = \<lparr>ci_Name = ''a.com'', ci_Kind = ''native'', ci_Masters = [], ci_Nameservers = [], ci_DNSSEC = False,
     ci_Description = [], ci_TemplateID = [], ci_Origin = [], ci_RRsets = []\<rparr>"

definition demo_zone :: zone where
  "demo_zone = \<lparr>z_ID = ''00000000-0005-7000-8000-000000000000'', z_TenantID = ''a'', z_Name = ''a.com.'', z_PDNSID = ''a.com.'',
     z_Kind = ''native'', z_Masters = [], z_DNSSEC = False, z_Description = [], z_TemplateID = [], z_Origin = OriginManual,
     z_Nameservers = [], z_CreatedBy = ''u'', z_CreatedAt = 0, z_UpdatedAt = 0\<rparr>"

definition demo_served :: pzone where
  "demo_served = \<lparr>pz_ID = ''a.com.'', pz_Name = ''a.com.'', pz_Kind = ''Native'', pz_Serial = 1, pz_NotifiedSerial = 0,
     pz_Masters = [], pz_DNSSEC = False, pz_Nameservers = [], pz_Account = ''a'',
     pz_RRsets = cloneRRsets (initial_sets \<lparr>pz_ID = [], pz_Name = ''a.com.'', pz_Kind = ''Native'', pz_Serial = 0, pz_NotifiedSerial = 0,
       pz_Masters = [], pz_DNSSEC = False, pz_Nameservers = [], pz_Account = ''a'', pz_RRsets = []\<rparr>)\<rparr>"

definition prepared_world :: world where
  "prepared_world = demo_world\<lparr>w_ids := \<lparr>idLast = 5, idSeq = 0\<rparr>, w_minted := 1\<rparr>"

lemma demo_prepare: "zones_prepare (wire demo_settings) (User ''a'' ''u'' []) demo_input demo_world = (Inr demo_zone, prepared_world)"
  by code_simp
definition checked_world :: world where
  "checked_world = prepared_world\<lparr>w_pdns := NewFake\<lparr>f_Calls := [''GetZone a.com.'']\<rparr>\<rparr>"

lemma demo_ownership: "zones_ownership (wire demo_settings) demo_zone prepared_world = (Inr (), checked_world)"
  by code_simp

definition provisioned_world :: world where
  "provisioned_world = prepared_world\<lparr>w_pdns := NewFake\<lparr>f_zones := [(''a.com.'', demo_served)],
     f_Calls := [''GetZone a.com.'', ''CreateZone a.com.'']\<rparr>\<rparr>"

lemma demo_provision: "zones_provision (wire demo_settings) demo_zone [] checked_world = (Inr demo_served, provisioned_world)"
  by code_simp

definition demo_row :: zone where
  "demo_row = demo_zone\<lparr>z_CreatedAt := 7, z_UpdatedAt := 7\<rparr>"

definition committed_world :: world where
  "committed_world = provisioned_world\<lparr>w_mem := (mem_New 1)\<lparr>m_zones := [(z_ID demo_row, demo_row)]\<rparr>\<rparr>"

lemma demo_commit: "zones_commit (wire demo_settings) demo_zone demo_served provisioned_world = (Inr demo_row, committed_world)"
  by code_simp

definition demo_created :: world where
  "demo_created = committed_world\<lparr>w_ids := \<lparr>idLast = 5, idSeq = 1\<rparr>, w_minted := 2, w_writer := (newWriter 0)\<lparr>wr_dropped := 1\<rparr>,
     w_events := [(''a'', ev_ZoneCreated, ZonePayload (ZoneOf demo_row ActorUser))],
     w_rec := NewRFake\<lparr>rf_forwards := [(''a.com.'', ''172.20.0.5:53'')], rf_Calls := [''SyncForward a.com.'']\<rparr>\<rparr>"

lemma demo_report: "syncForward (wire demo_settings) (z_Name demo_row) (EmitZone (d_Events (wire demo_settings)) ev_ZoneCreated demo_row
    (s_ActorKind (User ''a'' ''u'' [])) (zones_audit (wire demo_settings) (User ''a'' ''u'' []) ZoneCreate (z_ID demo_row) (z_Name demo_row)
      OutcomeOK None committed_world)) = demo_created"
  by code_simp

lemma demo_Create: "zones_Create (wire demo_settings) (User ''a'' ''u'' []) demo_input demo_world = (Inr demo_row, demo_created)"
proof -
  have g: "zones_guard (wire demo_settings) (User ''a'' ''u'' []) ZonesManage = None" by code_simp
  have i: "zones_initial (wire demo_settings) demo_zone (ci_RRsets demo_input) w = (Inr [], w)" for w :: world
    by (simp add: zones_initial_def demo_zone_def demo_input_def ret_def)
  have "zones_create (wire demo_settings) (User ''a'' ''u'' []) demo_input demo_world = (Inr demo_row, committed_world)"
    by (simp add: zones_create_def and_then_def map_err_def demo_prepare i demo_ownership demo_provision demo_commit)
  then show ?thesis by (simp add: zones_Create_def check_def g on_result_def demo_report [simplified] ret_def)
qed

text \<open>The same request with a store that fails to insert the row.\<close>

definition failing_mem :: mem where
  "failing_mem = mem_FailNext ''CreateZone'' (mem_New 1)"

lemma failing_stages:
  "zones_prepare (wire demo_settings) (User ''a'' ''u'' []) demo_input (demo_world\<lparr>w_mem := failing_mem\<rparr>) =
     (Inr demo_zone, prepared_world\<lparr>w_mem := failing_mem\<rparr>)"
  "zones_ownership (wire demo_settings) demo_zone (prepared_world\<lparr>w_mem := failing_mem\<rparr>) =
     (Inr (), checked_world\<lparr>w_mem := failing_mem\<rparr>)"
  "zones_provision (wire demo_settings) demo_zone [] (checked_world\<lparr>w_mem := failing_mem\<rparr>) =
     (Inr demo_served, provisioned_world\<lparr>w_mem := failing_mem\<rparr>)"
  "fst (zones_commit (wire demo_settings) demo_zone demo_served (provisioned_world\<lparr>w_mem := failing_mem\<rparr>)) =
     Inl (demo_row, Opaque ''memstore: injected failure in CreateZone'')"
  by code_simp+

lemma failing_Create:
  "\<exists>w'. zones_Create (wire demo_settings) (User ''a'' ''u'' []) demo_input (demo_world\<lparr>w_mem := failing_mem\<rparr>) =
     (Inl (Opaque ''memstore: injected failure in CreateZone''), w')"
proof -
  obtain w' where w': "zones_commit (wire demo_settings) demo_zone demo_served (provisioned_world\<lparr>w_mem := failing_mem\<rparr>) =
      (Inl (demo_row, Opaque ''memstore: injected failure in CreateZone''), w')"
    using failing_stages(4) by (metis prod.collapse)
  have g: "zones_guard (wire demo_settings) (User ''a'' ''u'' []) ZonesManage = None" by code_simp
  have i: "zones_initial (wire demo_settings) demo_zone (ci_RRsets demo_input) w = (Inr [], w)" for w :: world
    by (simp add: zones_initial_def demo_zone_def demo_input_def ret_def)
  show ?thesis
    by (simp add: zones_Create_def check_def g on_result_def zones_create_def and_then_def map_err_def failing_stages i w' fail_with_def)
qed

text \<open>An update of the new zone with a store that fails to write the row.\<close>

definition demo_update :: update_input where
  "demo_update = \<lparr>ui_Kind = None, ui_Masters = None, ui_DNSSEC = Some True, ui_Description = None\<rparr>"

definition failing_world :: world where
  "failing_world = demo_created\<lparr>w_mem := mem_FailNext ''UpdateZone'' (w_mem demo_created)\<rparr>"

lemma failing_Update:
  "\<exists>w'. zones_Update (wire demo_settings) (User ''a'' ''u'' []) (z_ID demo_row) demo_update failing_world =
     (Inl (Opaque ''memstore: injected failure in UpdateZone''), w')"
proof -
  have g: "zones_guard (wire demo_settings) (User ''a'' ''u'' []) ZonesManage = None" by code_simp
  have o: "zones_owned (wire demo_settings) (User ''a'' ''u'' []) (z_ID demo_row) failing_world = (Inr demo_row, failing_world)"
    by code_simp
  have "fst (zones_update (wire demo_settings) demo_row demo_update failing_world) = Inl (Opaque ''memstore: injected failure in UpdateZone'')"
    by code_simp
  then obtain w' where "zones_update (wire demo_settings) demo_row demo_update failing_world =
      (Inl (Opaque ''memstore: injected failure in UpdateZone''), w')" by (metis prod.collapse)
  then show ?thesis by (simp add: zones_Update_def check_def g and_then_def o on_result_def fail_with_def)
qed

end
