(* ===== verification/Supermasters.thy ===== *)
theory Supermasters
  imports Sample_Run "HOL-Library.Multiset"
begin

text \<open>
  The supermasters (autoprimaries) of the shared server,
  \<^verbatim>\<open>internal/supermasters/supermasters.go\<close>. The service is built with the same store,
  server, audit recorder and clock as the zone service. The paged listing of the
  store is an argument of \<open>List\<close>.
\<close>

section \<open>Checks and classification\<close>

record super_input =
  smi_IP :: string
  smi_Nameserver :: string

definition supermasters_guard :: "'w deps \<Rightarrow> subjects \<Rightarrow> gerr option" where
  "supermasters_guard D s =
     (if s_TenantID s = [] then Some (Sent ErrForbidden)
      else if IsHuman s \<and> d_Checker D = None then None
      else Require (d_Checker D) s SupermastersManage)"

definition guardAdmin :: "'w deps \<Rightarrow> subjects \<Rightarrow> gerr option" where
  "guardAdmin D s = (case RequirePlatformAdmin s of Some e \<Rightarrow> Some e | None \<Rightarrow> supermasters_guard D s)"

definition supermasters_mapPDNS :: "gerr \<Rightarrow> gerr" where
  "supermasters_mapPDNS e =
     (if errIs e pdns_ErrConflict then Sent supermasters_ErrDuplicate
      else case api_status e of None \<Rightarrow> e
        | Some st \<Rightarrow> if 400 \<le> st \<and> st < 500 \<and> \<not> errIs e pdns_ErrNotFound then Sent supermasters_ErrRejected else e)"

definition pdnsName :: "string \<Rightarrow> string" where
  "pdnsName ns = TrimSuffix ns ''.''"

definition supermasters_outcome :: "gerr \<Rightarrow> string \<times> string" where
  "supermasters_outcome e =
     (if errIs e ErrForbidden then (OutcomeRefused, ''forbidden'')
      else if errIs e supermasters_ErrDuplicate then (OutcomeRefused, ''conflict'')
      else if errIs e supermasters_ErrNotFound then (OutcomeRefused, ''not_found'')
      else if errIs e supermasters_ErrRejected \<or> errIs e ErrMasters \<or> errIs e ErrName then (OutcomeRefused, ''bad_request'')
      else if errIs e pdns_ErrUnavailable then (OutcomeError, ''pdns_unavailable'')
      else (OutcomeError, ''error''))"

definition supermasters_audit :: "'w deps \<Rightarrow> subjects \<Rightarrow> string \<Rightarrow> supermaster \<Rightarrow> gerr option \<Rightarrow> 'w \<Rightarrow> 'w" where
  "supermasters_audit D s t sm err =
     (let (outcome, reason) = (case err of None \<Rightarrow> (OutcomeOK, []) | Some e \<Rightarrow> supermasters_outcome e)
      in audit_Emit (d_Audit D)
        \<lparr>ae_TenantID = s_TenantID s, ae_EventType = t, ae_ActorKind = ActorOf (s_ActorKind s), ae_ActorID = ActorID s,
         ae_SubjectKind = SubjectSupermaster, ae_SubjectID = sm_ID sm, ae_Outcome = outcome, ae_Reason = reason,
         ae_Details = [(''ip'', DStr (sm_IP sm)), (''nameserver'', DStr (sm_Nameserver sm))]\<rparr>)"

section \<open>Operations\<close>

definition supermasters_List ::
  "'w deps \<Rightarrow> (string \<Rightarrow> 'q \<Rightarrow> ('w, supermaster list \<times> int \<times> 'q) act) \<Rightarrow> subjects \<Rightarrow> 'q \<Rightarrow> ('w, supermaster list \<times> int \<times> 'q) act" where
  "supermasters_List D ListSupermasters s req = check (supermasters_guard D s) (ListSupermasters (s_TenantID s) req)"

definition supermasters_get :: "'w deps \<Rightarrow> subjects \<Rightarrow> string \<Rightarrow> ('w, supermaster) act" where
  "supermasters_get D s i = map_err (\<lambda>e. if errIs e repo_ErrNotFound then Sent supermasters_ErrNotFound else e)
     (r_GetSupermaster (d_Store D) (s_TenantID s) i)"

definition supermasters_Get :: "'w deps \<Rightarrow> subjects \<Rightarrow> string \<Rightarrow> ('w, supermaster) act" where
  "supermasters_Get D s i = check (supermasters_guard D s) (supermasters_get D s i)"

text \<open>
  \<open>create\<close> fills in the row it is given; the row as far as it got accompanies the
  error, for the audit entry.
\<close>

definition supermasters_insert :: "'w deps \<Rightarrow> supermaster \<Rightarrow> psuper \<Rightarrow> ('w, unit) act" where
  "supermasters_insert D sm entry = on_result (r_CreateSupermaster (d_Store D) sm) (\<lambda>r. case r of
     Inr _ \<Rightarrow> ret ()
   | Inl e \<Rightarrow> on_result (p_DeleteSupermaster (d_PDNS D) (ps_IP entry) (ps_Nameserver entry)) (\<lambda>_.
       fail_with (if errIs e repo_ErrConflict then Sent supermasters_ErrDuplicate else e)))"

definition supermasters_create :: "'w deps \<Rightarrow> subjects \<Rightarrow> super_input \<Rightarrow> supermaster \<Rightarrow> ('w, supermaster \<times> gerr, supermaster) eact" where
  "supermasters_create D s inp sm = check (map_option (Pair sm) (guardAdmin D s))
     (case IPGuard (smi_IP inp) of Inl e \<Rightarrow> fail_with (sm, e)
      | Inr ip \<Rightarrow> (case Hostname (d_Ext D) (smi_Nameserver inp) of Inl e \<Rightarrow> fail_with (sm, e)
      | Inr ns \<Rightarrow>
          let sm' = sm\<lparr>sm_IP := addr_String ip, sm_Nameserver := ns\<rparr>;
              entry = \<lparr>ps_IP = sm_IP sm', ps_Nameserver = pdnsName ns, ps_Account = s_TenantID s\<rparr>
          in map_err (Pair sm') (and_then (map_err supermasters_mapPDNS (p_CreateSupermaster (d_PDNS D) entry)) (\<lambda>_.
               and_then (supermasters_insert D sm' entry) (\<lambda>_. ret sm')))))"

definition supermasters_Create :: "'w deps \<Rightarrow> subjects \<Rightarrow> super_input \<Rightarrow> ('w, supermaster) act" where
  "supermasters_Create D s inp w = (case d_NewID D w of (i, w1) \<Rightarrow>
     on_result (supermasters_create D s inp \<lparr>sm_ID = i, sm_TenantID = s_TenantID s, sm_IP = [], sm_Nameserver = [],
         sm_CreatedBy = ActorID s, sm_CreatedAt = d_Now D w1\<rparr>) (\<lambda>r. case r of
       Inl (sm, e) \<Rightarrow> effect (supermasters_audit D s SupermasterCreate sm (Some e)) (fail_with e)
     | Inr sm \<Rightarrow> effect (supermasters_audit D s SupermasterCreate sm None) (ret sm)) w1)"

text \<open>The local delete; \<open>gone\<close> says that PowerDNS had no such entry.\<close>

definition supermasters_forget :: "'w deps \<Rightarrow> supermaster \<Rightarrow> psuper \<Rightarrow> bool \<Rightarrow> ('w, unit) act" where
  "supermasters_forget D sm entry gone = on_result (r_DeleteSupermaster (d_Store D) (sm_TenantID sm) (sm_ID sm)) (\<lambda>r. case r of
     Inr _ \<Rightarrow> ret ()
   | Inl e \<Rightarrow> on_result (if gone then ret () else p_CreateSupermaster (d_PDNS D) entry) (\<lambda>_.
       fail_with (if errIs e repo_ErrNotFound then Sent supermasters_ErrNotFound else e)))"

definition empty_super :: supermaster where
  "empty_super = \<lparr>sm_ID = [], sm_TenantID = [], sm_IP = [], sm_Nameserver = [], sm_CreatedBy = [], sm_CreatedAt = 0\<rparr>"

definition supermasters_delete :: "'w deps \<Rightarrow> subjects \<Rightarrow> string \<Rightarrow> ('w, supermaster \<times> gerr, supermaster) eact" where
  "supermasters_delete D s i = check (map_option (Pair empty_super) (guardAdmin D s))
     (and_then (map_err (Pair empty_super) (supermasters_get D s i)) (\<lambda>sm.
        let entry = \<lparr>ps_IP = sm_IP sm, ps_Nameserver = pdnsName (sm_Nameserver sm), ps_Account = sm_TenantID sm\<rparr>
        in map_err (Pair sm) (on_result (p_DeleteSupermaster (d_PDNS D) (ps_IP entry) (ps_Nameserver entry)) (\<lambda>r.
             let gone = (case r of Inl e \<Rightarrow> errIs e pdns_ErrNotFound | Inr _ \<Rightarrow> False)
             in case r of
               Inl e \<Rightarrow> if \<not> gone then fail_with (supermasters_mapPDNS e)
                 else and_then (supermasters_forget D sm entry gone) (\<lambda>_. ret sm)
             | Inr _ \<Rightarrow> and_then (supermasters_forget D sm entry gone) (\<lambda>_. ret sm)))))"

definition supermasters_Delete :: "'w deps \<Rightarrow> subjects \<Rightarrow> string \<Rightarrow> ('w, unit) act" where
  "supermasters_Delete D s i = on_result (supermasters_delete D s i) (\<lambda>r.
     let sm = (case r of Inl (sm, e) \<Rightarrow> sm | Inr sm \<Rightarrow> sm); sm' = (if sm_ID sm = [] then sm\<lparr>sm_ID := i\<rparr> else sm)
     in case r of
       Inl (_, e) \<Rightarrow> effect (supermasters_audit D s SupermasterDelete sm' (Some e)) (fail_with e)
     | Inr _ \<Rightarrow> effect (supermasters_audit D s SupermasterDelete sm' None) (ret ()))"

section \<open>The contract\<close>

lemma remove_super_last:
  "remove_super (ps_IP x) (ps_Nameserver x) xs = None \<Longrightarrow> remove_super (ps_IP x) (ps_Nameserver x) (xs @ [x]) = Some xs"
  by (induction xs) (auto split: if_splits)

lemma remove_super_Some:
  assumes "remove_super ip ns xs = Some ys"
  shows "\<exists>x. mset xs = add_mset x (mset ys) \<and> ps_IP x = ip \<and> ps_Nameserver x = ns"
  using assms
proof (induction xs arbitrary: ys)
  case (Cons a xs)
  show ?case
  proof (cases "ps_IP a = ip \<and> ps_Nameserver a = ns")
    case False
    then obtain zs where "remove_super ip ns xs = Some zs" "ys = a # zs" using Cons.prems by auto
    with Cons.IH show ?thesis by fastforce
  qed (use Cons.prems in auto)
qed simp

lemma remove_super_None: "remove_super ip ns xs = None \<longleftrightarrow> (\<forall>x \<in> set xs. \<not> (ps_IP x = ip \<and> ps_Nameserver x = ns))"
  by (induction xs) auto

lemma remove_super_filter:
  assumes "distinct (map (\<lambda>x. (ps_IP x, ps_Nameserver x)) xs)" and "remove_super ip ns xs = Some ys"
  shows "ys = filter (\<lambda>x. \<not> (ps_IP x = ip \<and> ps_Nameserver x = ns)) xs"
  using assms
proof (induction xs arbitrary: ys)
  case (Cons a xs)
  show ?case
  proof (cases "ps_IP a = ip \<and> ps_Nameserver a = ns")
    case True
    then have "\<forall>x \<in> set xs. \<not> (ps_IP x = ip \<and> ps_Nameserver x = ns)" using Cons.prems(1) by (auto simp: image_iff)
    then show ?thesis using True Cons.prems(2) by (simp add: filter_id_conv)
  next
    case False
    then obtain zs where "remove_super ip ns xs = Some zs" "ys = a # zs" using Cons.prems(2) by auto
    then show ?thesis using Cons.IH [of zs] Cons.prems(1) False by auto
  qed
qed simp

lemma remove_super_distinct:
  assumes "distinct (map (\<lambda>x. (ps_IP x, ps_Nameserver x)) xs)" and "remove_super ip ns xs = Some ys"
  shows "distinct (map (\<lambda>x. (ps_IP x, ps_Nameserver x)) ys)"
  using assms by (simp add: remove_super_filter [OF assms] distinct_map_filter)

text \<open>
  A row as the store keeps it, with the address in canonical form, and the server's
  entries with the account of those for a row's address and nameserver set to its tenant.
\<close>

definition row_stored :: "supermaster \<Rightarrow> supermaster \<Rightarrow> bool" where
  "row_stored sm row = (sm_ID row = sm_ID sm \<and> sm_TenantID row = sm_TenantID sm \<and> sm_IP row = canonIP (sm_IP sm) \<and>
     sm_Nameserver row = sm_Nameserver sm \<and> sm_CreatedBy row = sm_CreatedBy sm)"

definition claimed :: "supermaster \<Rightarrow> psuper list \<Rightarrow> psuper list" where
  "claimed sm = map (\<lambda>x. if ps_IP x = sm_IP sm \<and> ps_Nameserver x = pdnsName (sm_Nameserver sm) then x\<lparr>ps_Account := sm_TenantID sm\<rparr> else x)"

lemma claimed_keys: "map (\<lambda>x. (ps_IP x, ps_Nameserver x)) (claimed sm xs) = map (\<lambda>x. (ps_IP x, ps_Nameserver x)) xs"
  by (simp add: claimed_def)

lemma claimed_split:
  assumes "mset xs = add_mset y (mset ys)" and "ps_IP y = sm_IP sm \<and> ps_Nameserver y = pdnsName (sm_Nameserver sm)"
    and "remove_super (sm_IP sm) (pdnsName (sm_Nameserver sm)) ys = None"
  shows "mset (claimed sm xs) = add_mset \<lparr>ps_IP = sm_IP sm, ps_Nameserver = pdnsName (sm_Nameserver sm), ps_Account = sm_TenantID sm\<rparr> (mset ys)"
proof -
  define f where "f x = (if ps_IP x = sm_IP sm \<and> ps_Nameserver x = pdnsName (sm_Nameserver sm) then x\<lparr>ps_Account := sm_TenantID sm\<rparr> else x)"
    for x :: psuper
  have "image_mset f (mset ys) = image_mset (\<lambda>x. x) (mset ys)"
    by (rule image_mset_cong) (use assms(3) in \<open>auto simp: f_def remove_super_None\<close>)
  moreover have "f y = \<lparr>ps_IP = sm_IP sm, ps_Nameserver = pdnsName (sm_Nameserver sm), ps_Account = sm_TenantID sm\<rparr>"
    using assms(2) by (cases y) (auto simp: f_def)
  moreover have "mset (claimed sm xs) = image_mset f (mset xs)" by (simp add: claimed_def f_def [abs_def])
  ultimately show ?thesis using assms(1) by simp
qed

text \<open>
  What the service relies on: the rows of the store, the entries of a server that
  answers, in order, and that neither touches the other.
\<close>

locale super_env =
  fixes D :: "'w deps" and rows :: "'w \<Rightarrow> string \<Rightarrow> supermaster option" and entries :: "'w \<Rightarrow> psuper list" and inv :: "'w \<Rightarrow> bool"
  assumes row_create: "r_CreateSupermaster (d_Store D) s w = (Inr x, w') \<Longrightarrow> \<exists>row. rows w (sm_ID s) = None \<and>
      rows w' = (rows w)(sm_ID s \<mapsto> row) \<and> row_stored s row"
    and row_create_failed: "r_CreateSupermaster (d_Store D) s w = (Inl e, w') \<Longrightarrow> rows w' = rows w"
    and row_get: "inv w \<Longrightarrow> r_GetSupermaster (d_Store D) t i w = (Inr s, w') \<Longrightarrow> rows w i = Some s \<and> sm_TenantID s = t \<and> sm_ID s = i"
    and row_get_frame: "r_GetSupermaster (d_Store D) t i w = (g, w') \<Longrightarrow> rows w' = rows w"
    and row_delete: "r_DeleteSupermaster (d_Store D) t i w = (Inr x, w') \<Longrightarrow> rows w' = (rows w)(i := None)"
    and row_delete_failed: "r_DeleteSupermaster (d_Store D) t i w = (Inl e, w') \<Longrightarrow> rows w' = rows w"
    and row_frame: "r_CreateSupermaster (d_Store D) s w = (r, w') \<Longrightarrow> inv w \<Longrightarrow> inv w' \<and> entries w' = entries w"
      "r_GetSupermaster (d_Store D) t i w = (g, w') \<Longrightarrow> inv w \<Longrightarrow> inv w' \<and> entries w' = entries w"
      "r_DeleteSupermaster (d_Store D) t i w = (r, w') \<Longrightarrow> inv w \<Longrightarrow> inv w' \<and> entries w' = entries w"
    and entry_create: "inv w \<Longrightarrow> p_CreateSupermaster (d_PDNS D) n w = (r, w') \<Longrightarrow> inv w' \<and> rows w' = rows w \<and>
      (if remove_super (ps_IP n) (ps_Nameserver n) (entries w) = None then r = Inr () \<and> entries w' = entries w @ [n]
       else (\<exists>e. r = Inl e) \<and> entries w' = entries w)"
    and entry_delete: "inv w \<Longrightarrow> p_DeleteSupermaster (d_PDNS D) ip ns w = (r, w') \<Longrightarrow> inv w' \<and> rows w' = rows w \<and>
      (case remove_super ip ns (entries w) of Some xs \<Rightarrow> r = Inr () \<and> entries w' = xs
       | None \<Rightarrow> (\<exists>e. r = Inl e \<and> errIs e pdns_ErrNotFound) \<and> entries w' = entries w)"
    and quiet: "d_NewID D w = (i, w') \<Longrightarrow> inv w \<Longrightarrow> inv w' \<and> rows w' = rows w \<and> entries w' = entries w"
      "rows (audit_Emit (d_Audit D) ev w) = rows w" "entries (audit_Emit (d_Audit D) ev w) = entries w"
begin

lemma audit_quiet [simp]:
  "rows (supermasters_audit D s t sm e w) = rows w" "entries (supermasters_audit D s t sm e w) = entries w"
  by (simp_all add: supermasters_audit_def quiet split: prod.split)

definition inserted :: "supermaster \<Rightarrow> 'w \<Rightarrow> 'w \<Rightarrow> bool" where
  "inserted sm w w' = (\<exists>row. rows w (sm_ID sm) = None \<and> rows w' = (rows w)(sm_ID sm \<mapsto> row) \<and> row_stored sm row)"

lemma insert_outcome:
  assumes inv: "inv w" and e: "entries w = xs @ [x]" "remove_super (ps_IP x) (ps_Nameserver x) xs = None"
    and run: "supermasters_insert D sm x w = (r, w')"
  shows "case r of Inl e \<Rightarrow> rows w' = rows w \<and> entries w' = xs | Inr _ \<Rightarrow> entries w' = entries w \<and> inserted sm w w'"
proof -
  obtain c w1 where c: "r_CreateSupermaster (d_Store D) sm w = (c, w1)" by fastforce
  note f = row_frame(1) [OF c inv]
  show ?thesis
  proof (cases c)
    case (Inr y)
    then show ?thesis using c f run row_create [of sm w y w1] by (auto simp: supermasters_insert_def on_result_def ret_def inserted_def)
  next
    case (Inl y)
    obtain d w2 where d: "p_DeleteSupermaster (d_PDNS D) (ps_IP x) (ps_Nameserver x) w1 = (d, w2)" by fastforce
    have "rows w2 = rows w1 \<and> entries w2 = xs"
      using entry_delete [OF conjunct1 [OF f] d] f e remove_super_last [OF e(2)] by simp
    then show ?thesis using c Inl d run row_create_failed [of sm w y w1] by (auto simp: supermasters_insert_def on_result_def fail_with_def)
  qed
qed

lemma create_outcome:
  assumes inv: "inv w" and run: "supermasters_create D s inp sm w = (r, w')"
  shows "case r of Inl e \<Rightarrow> rows w' = rows w \<and> entries w' = entries w
    | Inr v \<Rightarrow> (\<exists>ip ns. guardAdmin D s = None \<and> IPGuard (smi_IP inp) = Inr ip \<and> Hostname (d_Ext D) (smi_Nameserver inp) = Inr ns \<and>
        v = sm\<lparr>sm_IP := addr_String ip, sm_Nameserver := ns\<rparr> \<and> inserted v w w' \<and>
        entries w' = entries w @ [\<lparr>ps_IP = sm_IP v, ps_Nameserver = pdnsName (sm_Nameserver v), ps_Account = s_TenantID s\<rparr>])"
proof -
  consider (no) e where "r = Inl e" "w' = w"
    | (go) ip ns where "guardAdmin D s = None" "IPGuard (smi_IP inp) = Inr ip" "Hostname (d_Ext D) (smi_Nameserver inp) = Inr ns"
    using run unfolding supermasters_create_def
    by (cases "guardAdmin D s"; cases "IPGuard (smi_IP inp)"; cases "Hostname (d_Ext D) (smi_Nameserver inp)")
      (auto simp: check_def fail_with_def)
  then show ?thesis
  proof cases
    case (go ip ns)
    define v where "v = sm\<lparr>sm_IP := addr_String ip, sm_Nameserver := ns\<rparr>"
    define x where "x = \<lparr>ps_IP = sm_IP v, ps_Nameserver = pdnsName ns, ps_Account = s_TenantID s\<rparr>"
    obtain c w1 where c: "p_CreateSupermaster (d_PDNS D) x w = (c, w1)" by fastforce
    note ec = entry_create [OF inv c]
    have ru: "map_err (Pair v) (and_then (map_err supermasters_mapPDNS (p_CreateSupermaster (d_PDNS D) x)) (\<lambda>_.
        and_then (supermasters_insert D v x) (\<lambda>_. ret v))) w = (r, w')"
      using run go unfolding supermasters_create_def v_def x_def by (simp add: check_def Let_def)
    show ?thesis
    proof (cases "remove_super (ps_IP x) (ps_Nameserver x) (entries w) = None")
      case False
      then show ?thesis using ec ru c by (auto simp: map_err_def and_then_def)
    next
      case True
      obtain q w2 where q: "supermasters_insert D v x w1 = (q, w2)" by fastforce
      have "entries w1 = entries w @ [x]" "inv w1" using ec True by auto
      note i = insert_outcome [OF this(2,1) True q]
      have r: "w' = w2" "r = (case q of Inl e \<Rightarrow> Inl (v, e) | Inr _ \<Rightarrow> Inr v)"
        using ru c ec True q by (auto simp: map_err_def and_then_def ret_def split: sum.splits)
      show ?thesis
      proof (cases q)
        case (Inl e)
        then show ?thesis using i r ec by auto
      next
        case (Inr y)
        then have "entries w' = entries w @ [\<lparr>ps_IP = sm_IP v, ps_Nameserver = pdnsName (sm_Nameserver v), ps_Account = s_TenantID s\<rparr>]"
          "inserted v w w'" using i r ec True by (auto simp: x_def v_def inserted_def)
        then show ?thesis using go r Inr by (auto simp: v_def)
      qed
    qed
  qed simp
qed

lemma Create_outcome:
  assumes inv: "inv w" and run: "supermasters_Create D s inp w = (r, w')"
  shows "case r of Inl e \<Rightarrow> rows w' = rows w \<and> entries w' = entries w
    | Inr v \<Rightarrow> guardAdmin D s = None \<and> sm_TenantID v = s_TenantID s \<and> inserted v w w' \<and>
        (\<exists>ip. IPGuard (smi_IP inp) = Inr ip \<and> sm_IP v = addr_String ip) \<and> Hostname (d_Ext D) (smi_Nameserver inp) = Inr (sm_Nameserver v) \<and>
        entries w' = entries w @ [\<lparr>ps_IP = sm_IP v, ps_Nameserver = pdnsName (sm_Nameserver v), ps_Account = s_TenantID s\<rparr>]"
proof -
  obtain i w1 where i: "d_NewID D w = (i, w1)" by fastforce
  note qt = quiet(1) [OF i inv]
  obtain q w2 where q: "supermasters_create D s inp \<lparr>sm_ID = i, sm_TenantID = s_TenantID s, sm_IP = [], sm_Nameserver = [],
         sm_CreatedBy = ActorID s, sm_CreatedAt = d_Now D w1\<rparr> w1 = (q, w2)" by fastforce
  note o = create_outcome [OF conjunct1 [OF qt] q]
  show ?thesis
  proof (cases q)
    case (Inl p)
    then show ?thesis using o run i q qt by (cases p) (auto simp: supermasters_Create_def on_result_def fail_with_def)
  next
    case (Inr v)
    then have "r = Inr v" "rows w' = rows w2" "entries w' = entries w2"
      using run i q by (auto simp: supermasters_Create_def on_result_def ret_def)
    then show ?thesis using o Inr qt by (auto simp: inserted_def)
  qed
qed

lemma forget_outcome:
  assumes inv: "inv w" and run: "supermasters_forget D sm x gone w = (r, w')"
    and free: "\<not> gone \<Longrightarrow> remove_super (ps_IP x) (ps_Nameserver x) (entries w) = None"
  shows "case r of Inl e \<Rightarrow> rows w' = rows w \<and> entries w' = (if gone then entries w else entries w @ [x])
    | Inr _ \<Rightarrow> rows w' = (rows w)(sm_ID sm := None) \<and> entries w' = entries w"
proof -
  obtain c w1 where c: "r_DeleteSupermaster (d_Store D) (sm_TenantID sm) (sm_ID sm) w = (c, w1)" by fastforce
  note f = row_frame(3) [OF c inv]
  show ?thesis
  proof (cases c)
    case (Inr y)
    then show ?thesis using c f run row_delete [of _ _ w y w1] by (auto simp: supermasters_forget_def on_result_def ret_def)
  next
    case (Inl y)
    note un = row_delete_failed [OF c [unfolded Inl]]
    show ?thesis
    proof (cases gone)
      case True
      then show ?thesis using c Inl f run un by (auto simp: supermasters_forget_def on_result_def fail_with_def ret_def)
    next
      case False
      obtain d w2 where d: "p_CreateSupermaster (d_PDNS D) x w1 = (d, w2)" by fastforce
      have "rows w2 = rows w1 \<and> entries w2 = entries w @ [x]" using entry_create [OF conjunct1 [OF f] d] f free False by simp
      then show ?thesis using c Inl d run un False by (auto simp: supermasters_forget_def on_result_def fail_with_def)
    qed
  qed
qed

lemma delete_outcome:
  assumes inv: "inv w" and run: "supermasters_delete D s i w = (r, w')"
    and uniq: "distinct (map (\<lambda>x. (ps_IP x, ps_Nameserver x)) (entries w))"
  shows "case r of Inl e \<Rightarrow> rows w' = rows w \<and> (mset (entries w') = mset (entries w) \<or>
        (\<exists>sm. rows w i = Some sm \<and> sm_TenantID sm = s_TenantID s \<and> mset (entries w') = mset (claimed sm (entries w))))
    | Inr sm \<Rightarrow> guardAdmin D s = None \<and> rows w i = Some sm \<and> sm_TenantID sm = s_TenantID s \<and> rows w' = (rows w)(i := None) \<and>
        mset (entries w') = filter_mset (\<lambda>x. \<not> (ps_IP x = sm_IP sm \<and> ps_Nameserver x = pdnsName (sm_Nameserver sm))) (mset (entries w))"
proof (cases "guardAdmin D s")
  case (Some e)
  then show ?thesis using run by (auto simp: supermasters_delete_def check_def fail_with_def)
next
  case None
  obtain g w1 where g: "r_GetSupermaster (d_Store D) (s_TenantID s) i w = (g, w1)" by fastforce
  note f = row_frame(2) [OF g inv] row_get_frame [OF g]
  show ?thesis
  proof (cases g)
    case (Inl e)
    then show ?thesis using run None g f by (auto simp: supermasters_delete_def supermasters_get_def check_def and_then_def map_err_def)
  next
    case (Inr sm)
    note row = row_get [OF inv g [unfolded Inr]]
    define x where "x = \<lparr>ps_IP = sm_IP sm, ps_Nameserver = pdnsName (sm_Nameserver sm), ps_Account = sm_TenantID sm\<rparr>"
    define entry where "entry y = (ps_IP y = sm_IP sm \<and> ps_Nameserver y = pdnsName (sm_Nameserver sm))" for y :: psuper
    obtain d w2 where d: "p_DeleteSupermaster (d_PDNS D) (ps_IP x) (ps_Nameserver x) w1 = (d, w2)" by fastforce
    note ed = entry_delete [OF conjunct1 [OF f(1)] d]
    have go: "map_err (Pair sm) (let gone = (case d of Inl e \<Rightarrow> errIs e pdns_ErrNotFound | Inr _ \<Rightarrow> False)
             in case d of
               Inl e \<Rightarrow> if \<not> gone then fail_with (supermasters_mapPDNS e)
                 else and_then (supermasters_forget D sm x gone) (\<lambda>_. ret sm)
             | Inr _ \<Rightarrow> and_then (supermasters_forget D sm x gone) (\<lambda>_. ret sm)) w2 = (r, w')"
      using run None g Inr d unfolding supermasters_delete_def supermasters_get_def x_def
      by (simp add: check_def and_then_def map_err_def on_result_def Let_def)
    show ?thesis
    proof (cases "remove_super (ps_IP x) (ps_Nameserver x) (entries w)")
      case n: None
      obtain e where e: "d = Inl e" "errIs e pdns_ErrNotFound" "entries w2 = entries w" "inv w2" "rows w2 = rows w" using ed n f by auto
      obtain q w3 where q: "supermasters_forget D sm x True w2 = (q, w3)" by fastforce
      have "filter_mset (\<lambda>y. \<not> entry y) (mset (entries w)) = mset (entries w)"
        using n by (auto simp: remove_super_None x_def entry_def filter_mset_eq_conv)
      then show ?thesis using forget_outcome [OF e(4) q] q go e row None
        by (auto simp: map_err_def and_then_def ret_def entry_def split: sum.splits)
    next
      case s: (Some ys)
      have e: "d = Inr ()" "entries w2 = ys" "inv w2" "rows w2 = rows w" using ed s f by auto
      have ys: "ys = filter (\<lambda>y. \<not> entry y) (entries w)" using remove_super_filter [OF uniq s] by (simp add: x_def entry_def)
      obtain y where y: "mset (entries w) = add_mset y (mset ys)" "entry y"
        using remove_super_Some [OF s] by (auto simp: x_def entry_def)
      have free: "remove_super (ps_IP x) (ps_Nameserver x) (entries w2) = None"
        using ys e by (auto simp: remove_super_None x_def entry_def)
      have "mset (claimed sm (entries w)) = add_mset x (mset ys)"
        using claimed_split [OF y(1), of sm] y(2) free e(2) by (simp add: x_def entry_def)
      moreover obtain q w3 where q: "supermasters_forget D sm x False w2 = (q, w3)" by fastforce
      ultimately show ?thesis using forget_outcome [OF e(3) q free] q go e row None ys
        by (auto simp: map_err_def and_then_def ret_def entry_def mset_filter split: sum.splits)
    qed
  qed
qed

lemma Delete_outcome:
  assumes inv: "inv w" and run: "supermasters_Delete D s i w = (r, w')"
    and uniq: "distinct (map (\<lambda>x. (ps_IP x, ps_Nameserver x)) (entries w))"
  shows "case r of Inl e \<Rightarrow> rows w' = rows w \<and> (mset (entries w') = mset (entries w) \<or>
        (\<exists>sm. rows w i = Some sm \<and> sm_TenantID sm = s_TenantID s \<and> mset (entries w') = mset (claimed sm (entries w))))
    | Inr _ \<Rightarrow> guardAdmin D s = None \<and> (\<exists>sm. rows w i = Some sm \<and> sm_TenantID sm = s_TenantID s \<and> rows w' = (rows w)(i := None) \<and>
        mset (entries w') = filter_mset (\<lambda>x. \<not> (ps_IP x = sm_IP sm \<and> ps_Nameserver x = pdnsName (sm_Nameserver sm))) (mset (entries w)))"
proof -
  obtain q w1 where q: "supermasters_delete D s i w = (q, w1)" by fastforce
  have e: "rows w' = rows w1" "entries w' = entries w1" "r = (case q of Inl (_, e) \<Rightarrow> Inl e | Inr _ \<Rightarrow> Inr ())"
    using run q by (auto simp: supermasters_Delete_def on_result_def Let_def fail_with_def ret_def split: sum.splits prod.splits)
  have o: "case q of Inl e \<Rightarrow> rows w1 = rows w \<and> (mset (entries w1) = mset (entries w) \<or>
        (\<exists>sm. rows w i = Some sm \<and> sm_TenantID sm = s_TenantID s \<and> mset (entries w1) = mset (claimed sm (entries w))))
    | Inr sm \<Rightarrow> guardAdmin D s = None \<and> rows w i = Some sm \<and> sm_TenantID sm = s_TenantID s \<and> rows w1 = (rows w)(i := None) \<and>
        mset (entries w1) = filter_mset (\<lambda>x. \<not> (ps_IP x = sm_IP sm \<and> ps_Nameserver x = pdnsName (sm_Nameserver sm))) (mset (entries w))"
    by (rule delete_outcome [OF inv q uniq])
  show ?thesis
  proof (cases q)
    case (Inl p)
    then show ?thesis using o e by (cases p) simp
  next
    case (Inr sm)
    then show ?thesis using o e by simp
  qed
qed

end

section \<open>The wired module\<close>

definition super_rows :: "world \<Rightarrow> string \<Rightarrow> supermaster option" where
  "super_rows w = mget (m_supermasters (w_mem w))"

definition super_entries :: "world \<Rightarrow> psuper list" where
  "super_entries w = f_supermasters (w_pdns w)"

lemma calm_op:
  assumes "calm f"
  shows "fake_op op i body f = body (f\<lparr>f_Calls := f_Calls f @ [TrimSpace (op @ '' '' @ i)]\<rparr>)"
  using assms by (simp add: fake_op_def fake_begin_def calm_def)

lemma super_calls [simp]:
  "r_CreateSupermaster (mem_store u) s = on_mem (mem_CreateSupermaster s)" "r_GetSupermaster (mem_store u) t i = on_mem (mem_GetSupermaster t i)"
  "r_DeleteSupermaster (mem_store u) t i = on_mem (mem_DeleteSupermaster t i)"
  "p_CreateSupermaster (fake_server u) x = on_pdns (fake_CreateSupermaster x)"
  "p_DeleteSupermaster (fake_server u) ip ns = on_pdns (fake_DeleteSupermaster ip ns)"
  by (simp_all add: mem_store_def fake_server_def)

lemma super_contract: "super_env (wire c) super_rows super_entries (world_calm (x_unicode (cfg_Ext c)))"
proof
  fix s w x w' assume "r_CreateSupermaster (d_Store (wire c)) s w = (Inr x, w')"
  then show "\<exists>row. super_rows w (sm_ID s) = None \<and> super_rows w' = (super_rows w)(sm_ID s \<mapsto> row) \<and>
      row_stored s row"
    by (auto simp: on_mem_run mem_CreateSupermaster_def mem_op_def mem_fail_def super_rows_def row_stored_def Let_def fun_eq_iff split: if_splits)
next
  fix s w e w' assume "r_CreateSupermaster (d_Store (wire c)) s w = (Inl e, w')"
  then show "super_rows w' = super_rows w"
    by (auto simp: on_mem_run mem_CreateSupermaster_def mem_op_def mem_fail_def super_rows_def Let_def split: if_splits)
next
  fix w t i s w' assume "world_calm (x_unicode (cfg_Ext c)) w" "r_GetSupermaster (d_Store (wire c)) t i w = (Inr s, w')"
  then show "super_rows w i = Some s \<and> sm_TenantID s = t \<and> sm_ID s = i"
    by (auto simp: on_mem_run mem_GetSupermaster_def mem_op_def mem_fail_def super_rows_def mem_supermaster_Inr world_inv_def mem_ok_def
        supermasters_ok_def dest: keyed_mget split: if_splits)
next
  fix t i w g w' assume "r_GetSupermaster (d_Store (wire c)) t i w = (g, w')"
  then show "super_rows w' = super_rows w"
    by (auto simp: on_mem_run mem_GetSupermaster_def mem_op_def mem_fail_def super_rows_def split: if_splits)
next
  fix t i w x w' assume "r_DeleteSupermaster (d_Store (wire c)) t i w = (Inr x, w')"
  then show "super_rows w' = (super_rows w)(i := None)"
    by (auto simp: on_mem_run mem_DeleteSupermaster_def mem_op_def mem_fail_def super_rows_def fun_eq_iff split: if_splits sum.splits)
next
  fix t i w e w' assume "r_DeleteSupermaster (d_Store (wire c)) t i w = (Inl e, w')"
  then show "super_rows w' = super_rows w"
    by (auto simp: on_mem_run mem_DeleteSupermaster_def mem_op_def mem_fail_def super_rows_def split: if_splits sum.splits)
next
  fix s w r w' assume "r_CreateSupermaster (d_Store (wire c)) s w = (r, w')" "world_calm (x_unicode (cfg_Ext c)) w"
  then show "world_calm (x_unicode (cfg_Ext c)) w' \<and> super_entries w' = super_entries w"
    using keepsE [OF keeps_on_mem [OF keeps_CreateSupermaster]] by (fastforce simp: on_mem_run super_entries_def)
next
  fix t i w g w' assume "r_GetSupermaster (d_Store (wire c)) t i w = (g, w')" "world_calm (x_unicode (cfg_Ext c)) w"
  then show "world_calm (x_unicode (cfg_Ext c)) w' \<and> super_entries w' = super_entries w"
    using keepsE [OF keeps_on_mem [OF keeps_reads [OF mem_reads(9)]]] by (fastforce simp: on_mem_run super_entries_def)
next
  fix t i w r w' assume "r_DeleteSupermaster (d_Store (wire c)) t i w = (r, w')" "world_calm (x_unicode (cfg_Ext c)) w"
  then show "world_calm (x_unicode (cfg_Ext c)) w' \<and> super_entries w' = super_entries w"
    using keepsE [OF keeps_on_mem [OF keeps_DeleteSupermaster]] by (fastforce simp: on_mem_run super_entries_def)
next
  fix w n r w' assume "world_calm (x_unicode (cfg_Ext c)) w" "p_CreateSupermaster (d_PDNS (wire c)) n w = (r, w')"
  then show "world_calm (x_unicode (cfg_Ext c)) w' \<and> super_rows w' = super_rows w \<and>
      (if remove_super (ps_IP n) (ps_Nameserver n) (super_entries w) = None then r = Inr () \<and> super_entries w' = super_entries w @ [n]
       else (\<exists>e. r = Inl e) \<and> super_entries w' = super_entries w)"
    by (auto simp: on_pdns_run world_inv_def calm_op fake_CreateSupermaster_def super_rows_def super_entries_def remove_super_None list_ex_iff
        calm_def split: if_splits)
next
  fix w ip ns r w' assume "world_calm (x_unicode (cfg_Ext c)) w" "p_DeleteSupermaster (d_PDNS (wire c)) ip ns w = (r, w')"
  then show "world_calm (x_unicode (cfg_Ext c)) w' \<and> super_rows w' = super_rows w \<and>
      (case remove_super ip ns (super_entries w) of Some xs \<Rightarrow> r = Inr () \<and> super_entries w' = xs
       | None \<Rightarrow> (\<exists>e. r = Inl e \<and> errIs e pdns_ErrNotFound) \<and> super_entries w' = super_entries w)"
    by (auto simp: on_pdns_run world_inv_def calm_op fake_DeleteSupermaster_def super_rows_def super_entries_def notFound_def
        calm_def split: option.splits)
next
  fix w i w' assume "d_NewID (wire c) w = (i, w')" "world_calm (x_unicode (cfg_Ext c)) w"
  then show "world_calm (x_unicode (cfg_Ext c)) w' \<and> super_rows w' = super_rows w \<and> super_entries w' = super_entries w"
    by (auto simp: mint_def super_rows_def super_entries_def world_inv_def split: prod.splits)
next
  fix ev w
  show "super_rows (audit_Emit (d_Audit (wire c)) ev w) = super_rows w" "super_entries (audit_Emit (d_Audit (wire c)) ev w) = super_entries w"
    by (auto simp: audit_Emit_def record_audit_def focus_def mint_def super_rows_def super_entries_def split: option.split prod.split)
qed

interpretation sup: super_env "wire c" super_rows super_entries "world_calm (x_unicode (cfg_Ext c))" for c
  by (rule super_contract)

section \<open>Properties\<close>

definition super_changed :: "supermaster \<Rightarrow> world \<Rightarrow> world \<Rightarrow> bool" where
  "super_changed sm w w' = (super_rows w (sm_ID sm) = None \<and> (\<exists>row. super_rows w' = (super_rows w)(sm_ID sm \<mapsto> row) \<and> row_stored sm row))"

text \<open>
  C15: Registering a supermaster is all or nothing while PowerDNS answers. It succeeds
  only for a platform administrator and an address that passes the SSRF guard; then
  exactly one row and one entry are added, and the entry carries the caller's tenant
  as its account. When it fails for any reason, a failing store included, rows and
  entries are as before.
\<close>

theorem supermaster_create_all_or_nothing:
  assumes "world_calm (x_unicode (cfg_Ext c)) w" and "supermasters_Create (wire c) s inp w = (r, w')"
  shows "case r of Inl e \<Rightarrow> super_rows w' = super_rows w \<and> super_entries w' = super_entries w
    | Inr v \<Rightarrow> IsPlatformAdmin s \<and> s_TenantID s \<noteq> [] \<and> (\<exists>ip. IPGuard (smi_IP inp) = Inr ip \<and> sm_IP v = addr_String ip) \<and>
        sm_TenantID v = s_TenantID s \<and> super_changed v w w' \<and>
        super_entries w' = super_entries w @ [\<lparr>ps_IP = sm_IP v, ps_Nameserver = pdnsName (sm_Nameserver v), ps_Account = s_TenantID s\<rparr>]"
proof -
  have "guardAdmin (wire c) s = None \<Longrightarrow> IsPlatformAdmin s \<and> s_TenantID s \<noteq> []"
    by (auto simp: guardAdmin_def RequirePlatformAdmin_def supermasters_guard_def split: if_splits)
  then show ?thesis using sup.Create_outcome [OF assms] by (cases r) (auto simp: sup.inserted_def super_changed_def)
qed

text \<open>
  PowerDNS keeps its autoprimaries under address and nameserver: no two entries have the
  same pair, and every operation keeps it so.
\<close>

definition entries_distinct :: "psuper list \<Rightarrow> bool" where
  "entries_distinct xs = distinct (map (\<lambda>x. (ps_IP x, ps_Nameserver x)) xs)"

lemma entries_distinct_server:
  "entries_distinct (f_supermasters NewFake)"
  "keeps (\<lambda>f. entries_distinct (f_supermasters f)) (fake_CreateSupermaster x)"
  "keeps (\<lambda>f. entries_distinct (f_supermasters f)) (fake_DeleteSupermaster ip ns)"
  by (auto simp: NewFake_def entries_distinct_def keeps_def fake_CreateSupermaster_def fake_DeleteSupermaster_def fake_op_def fake_begin_def
      Let_def list_ex_iff image_iff remove_super_distinct split: if_splits option.splits prod.splits)

lemma entries_distinct_mset:
  assumes "entries_distinct xs"
  shows "mset ys = mset xs \<Longrightarrow> entries_distinct ys" "mset ys = mset (claimed sm xs) \<Longrightarrow> entries_distinct ys"
    "mset ys = filter_mset P (mset xs) \<Longrightarrow> entries_distinct ys"
proof -
  have d: "entries_distinct ys" if "entries_distinct zs" "mset ys = mset zs" for zs
    using that mset_eq_imp_distinct_iff [of "map (\<lambda>x. (ps_IP x, ps_Nameserver x)) ys" "map (\<lambda>x. (ps_IP x, ps_Nameserver x)) zs"]
    by (simp add: entries_distinct_def)
  show "mset ys = mset xs \<Longrightarrow> entries_distinct ys" using d assms by simp
  show "mset ys = mset (claimed sm xs) \<Longrightarrow> entries_distinct ys" using d [of "claimed sm xs"] assms by (simp add: entries_distinct_def claimed_keys)
  show "mset ys = filter_mset P (mset xs) \<Longrightarrow> entries_distinct ys"
    using d [of "filter P xs"] assms by (simp add: entries_distinct_def distinct_map_filter)
qed

text \<open>
  C16: Removing a supermaster while PowerDNS answers, from entries no two of which have
  the same address and nameserver; that stays so. A success by a platform administrator
  removes the tenant's own row and its entry and nothing else. A failure leaves the rows
  as they are and, up to order, the entries too, except that the entry it had already
  removed is put back under the tenant's account, whatever account it had before.
\<close>

theorem supermaster_delete_restores:
  assumes "world_calm (x_unicode (cfg_Ext c)) w" and "supermasters_Delete (wire c) s i w = (r, w')"
    and "entries_distinct (super_entries w)"
  shows "entries_distinct (super_entries w') \<and> (case r of Inl e \<Rightarrow> super_rows w' = super_rows w \<and>
        (mset (super_entries w') = mset (super_entries w) \<or>
         (\<exists>sm. super_rows w i = Some sm \<and> sm_TenantID sm = s_TenantID s \<and> mset (super_entries w') = mset (claimed sm (super_entries w))))
    | Inr _ \<Rightarrow> IsPlatformAdmin s \<and> (\<exists>sm. super_rows w i = Some sm \<and> sm_TenantID sm = s_TenantID s \<and>
        super_rows w' = (super_rows w)(i := None) \<and> mset (super_entries w') =
          filter_mset (\<lambda>x. \<not> (ps_IP x = sm_IP sm \<and> ps_Nameserver x = pdnsName (sm_Nameserver sm))) (mset (super_entries w))))"
proof -
  have g: "IsPlatformAdmin s" if "guardAdmin (wire c) s = None"
    using that by (cases "IsPlatformAdmin s") (simp_all add: guardAdmin_def RequirePlatformAdmin_def)
  note o = sup.Delete_outcome [OF assms(1,2) assms(3) [unfolded entries_distinct_def]]
  note k = entries_distinct_mset [OF assms(3)]
  show ?thesis
  proof (cases r)
    case (Inl e)
    then show ?thesis using o k(1,2) by (simp only: sum.case) blast
  next
    case (Inr x)
    then show ?thesis using o g k(3) by (simp only: sum.case simp_thms) blast
  qed
qed

text \<open>A store that fails to delete the row of an entry registered under no account.\<close>

definition super_demo :: supermaster where
  "super_demo = \<lparr>sm_ID = ''s'', sm_TenantID = ''a'', sm_IP = ''10.0.0.1'', sm_Nameserver = ''ns.a.com.'', sm_CreatedBy = ''u'', sm_CreatedAt = 1\<rparr>"

definition super_entry :: psuper where
  "super_entry = \<lparr>ps_IP = ''10.0.0.1'', ps_Nameserver = ''ns.a.com'', ps_Account = []\<rparr>"

definition super_world :: world where
  "super_world = demo_world\<lparr>w_mem := mem_FailNext ''DeleteSupermaster'' ((mem_New 1)\<lparr>m_supermasters := [(''s'', super_demo)]\<rparr>),
     w_pdns := NewFake\<lparr>f_supermasters := [super_entry]\<rparr>\<rparr>"

definition super_new :: super_input where
  "super_new = \<lparr>smi_IP = ''10.0.0.9'', smi_Nameserver = ''ns.b.com''\<rparr>"

lemma super_world_calm: "world_calm u super_world"
  by (simp add: world_inv_def super_world_def calm_def NewFake_def mem_FailNext_def mem_ok_def mem_New_def zones_ok_def templates_ok_def
      supermasters_ok_def sync_ok_def challenges_ok_def mvals_def gmap_def keyed_def super_demo_def)

theorem supermaster_create_all_or_nothing_witness:
  "\<exists>v w'. supermasters_Create (wire demo_settings) (Internal ''a'') super_new super_world = (Inr v, w') \<and>
     super_entries w' = [super_entry, \<lparr>ps_IP = ''10.0.0.9'', ps_Nameserver = ''ns.b.com'', ps_Account = ''a''\<rparr>]"
proof -
  have "fst (supermasters_Create (wire demo_settings) (Internal ''a'') super_new super_world) =
      Inr \<lparr>sm_ID = ''00000000-0005-7000-8000-000000000000'', sm_TenantID = ''a'', sm_IP = ''10.0.0.9'', sm_Nameserver = ''ns.b.com.'',
        sm_CreatedBy = ActorSystem, sm_CreatedAt = 7\<rparr>" by code_simp
  then obtain w' where run: "supermasters_Create (wire demo_settings) (Internal ''a'') super_new super_world =
      (Inr \<lparr>sm_ID = ''00000000-0005-7000-8000-000000000000'', sm_TenantID = ''a'', sm_IP = ''10.0.0.9'', sm_Nameserver = ''ns.b.com.'',
        sm_CreatedBy = ActorSystem, sm_CreatedAt = 7\<rparr>, w')" by (metis prod.collapse)
  have "pdnsName ''ns.b.com.'' = ''ns.b.com''" "s_TenantID (Internal ''a'') = ''a''" by code_simp+
  then show ?thesis using supermaster_create_all_or_nothing [OF super_world_calm run] run
    by (simp add: super_world_def super_entries_def)
qed

theorem supermaster_delete_restores_witness:
  "\<exists>e w'. supermasters_Delete (wire demo_settings) (Internal ''a'') ''s'' super_world = (Inl e, w') \<and>
     super_rows w' ''s'' = Some super_demo \<and>
     (mset (super_entries w') = {#super_entry#} \<or> mset (super_entries w') = {#super_entry\<lparr>ps_Account := ''a''\<rparr>#}) \<and>
     super_entries w' = [super_entry\<lparr>ps_Account := ''a''\<rparr>]"
proof -
  define run where "run = supermasters_Delete (wire demo_settings) (Internal ''a'') ''s'' super_world"
  have "fst run = Inl (Opaque ''memstore: injected failure in DeleteSupermaster'')" unfolding run_def by code_simp
  then obtain w' where r: "run = (Inl (Opaque ''memstore: injected failure in DeleteSupermaster''), w')" by (metis prod.collapse)
  have "super_entries (snd run) = [super_entry\<lparr>ps_Account := ''a''\<rparr>]" unfolding run_def by code_simp
  then have w': "super_entries w' = [super_entry\<lparr>ps_Account := ''a''\<rparr>]" using r by simp
  have v: "super_entries super_world = [super_entry]" "super_rows super_world ''s'' = Some super_demo"
    by (simp_all add: super_entries_def super_rows_def super_world_def mem_FailNext_def)
  have c: "claimed super_demo [super_entry] = [super_entry\<lparr>ps_Account := ''a''\<rparr>]" "entries_distinct [super_entry]" by code_simp+
  show ?thesis using supermaster_delete_restores [OF super_world_calm r [unfolded run_def]] r w' v c by (auto simp: run_def)
qed

end
