(* ===== verification/Ipam_Plan.thy ===== *)
theory Ipam_Plan
  imports Validate_Names
begin

text \<open>
  Planning of the IPAM synchronisation and its event decoder,
  \<^verbatim>\<open>internal/ipamsync/plan.go\<close> and \<^verbatim>\<open>internal/ipamsync/decode.go\<close>: the zone and name of
  an address's forward and reverse record, and the shape rules of an address event.
  \<^verbatim>\<open>publicsuffix\<close> is part of the third-party record; the JSON decoder is an argument
  of \<open>Decode\<close>.
\<close>

section \<open>Addresses\<close>

text \<open>\<open>netip.ParsePrefix\<close>: the address, the slash and a decimal length without sign or leading zero.\<close>

definition ParsePrefix :: "string \<Rightarrow> (addr \<times> int) option" where
  "ParsePrefix s = (if CHR ''/'' \<notin> set s then None
     else let bits = rev (takeWhile (\<lambda>c. c \<noteq> CHR ''/'') (rev s)); ip = take (length s - Suc (length bits)) s
       in case ParseAddr ip of None \<Rightarrow> None
        | Some a \<Rightarrow> if addr_Zone a \<noteq> [] then None
          else if length bits > 1 \<and> \<not> (49 \<le> byte (hd bits) \<and> byte (hd bits) \<le> 57) then None
          else case Atoi bits of None \<Rightarrow> None
            | Some n \<Rightarrow> if n < 0 \<or> n > (if Is4 a then 32 else 128) then None else Some (a, n))"

section \<open>Planning\<close>

definition CanonicalHost :: "ext \<Rightarrow> string \<Rightarrow> string option" where
  "CanonicalHost L h = (case Hostname L h of Inl _ \<Rightarrow> None
     | Inr fq \<Rightarrow> if suffix (''.'' @ v4Suffix) fq \<or> suffix (''.'' @ v6Suffix) fq then None else Some fq)"

record forward_plan =
  fp_Zone :: string
  fp_ZoneID :: string
  fp_Existing :: bool
  fp_Name :: string
  fp_Type :: string

definition recordType :: "addr \<Rightarrow> string" where
  "recordType a = (if Is4 (Unmap a) then ''A'' else ''AAAA'')"

text \<open>The loop is that of \<open>LongestZone\<close> with a filter on the tree.\<close>

definition longest :: "zone list \<Rightarrow> string \<Rightarrow> bool \<Rightarrow> zone option" where
  "longest zs name reverse = longest_loop (\<lambda>z. IsReverse (z_Name z) = reverse) name None zs"

definition PlanForward :: "ext \<Rightarrow> zone list \<Rightarrow> string \<Rightarrow> addr \<Rightarrow> forward_plan res" where
  "PlanForward L zs host a =
     (if \<not> IsValid a then Inl (Sent ErrSkip)
      else case CanonicalHost L host of None \<Rightarrow> Inl (Sent ErrSkip)
      | Some h \<Rightarrow> let f = \<lparr>fp_Zone = [], fp_ZoneID = [], fp_Existing = False, fp_Name = h, fp_Type = recordType a\<rparr> in
          (case longest zs h False of
             Some z \<Rightarrow> Inr (f\<lparr>fp_Zone := z_Name z, fp_ZoneID := z_ID z, fp_Existing := True\<rparr>)
           | None \<Rightarrow> (case x_EffectiveTLDPlusOne L (TrimSuffix h ''.'') of None \<Rightarrow> Inl (Sent ErrSkip)
             | Some reg \<Rightarrow> (case ZoneName L reg of Inl _ \<Rightarrow> Inl (Sent ErrSkip)
               | Inr zn \<Rightarrow> if \<not> InZone h zn then Inl (Sent ErrSkip) else Inr (f\<lparr>fp_Zone := zn\<rparr>)))))"

definition nibbles :: "addr \<Rightarrow> string list" where
  "nibbles a = concat (map (\<lambda>x. [hex_nat (unat (drop_bit 4 x)), hex_nat (unat (x AND 0x0F))]) (As16 a))"

definition labels_of :: "addr \<Rightarrow> string list \<times> string" where
  "labels_of a0 = (case Unmap a0 of
     V4 a b c d \<Rightarrow> ([Itoa (uint a), Itoa (uint b), Itoa (uint c), Itoa (uint d)], v4Suffix)
   | a \<Rightarrow> (nibbles a, v6Suffix))"

definition reverseName :: "string list \<Rightarrow> string \<Rightarrow> string" where
  "reverseName parts suf = concat (map (\<lambda>p. p @ ''.'') (rev parts)) @ suf"

definition PTROwner :: "addr \<Rightarrow> string" where
  "PTROwner a = (if \<not> IsValid a then [] else case labels_of a of (parts, suf) \<Rightarrow> reverseName parts suf)"

definition ReverseZone :: "addr \<Rightarrow> int \<Rightarrow> string" where
  "ReverseZone a plen = (if \<not> IsValid a then []
     else case labels_of a of (parts, suf) \<Rightarrow>
       let (u, lo, hi, full) = (if suf = v6Suffix then (4, 4, 64, 128) else (8, 8, 24, 32));
           p = (if plen < 0 \<or> plen > full then hi else plen);
           bits = min (max (p div u * u) lo) hi
       in reverseName (take (nat (bits div u)) parts) suf)"

record reverse_plan =
  rv_Zone :: string
  rv_ZoneID :: string
  rv_Existing :: bool
  rv_Owner :: string

definition PlanReverse :: "zone list \<Rightarrow> addr \<Rightarrow> int \<Rightarrow> reverse_plan res" where
  "PlanReverse zs a plen =
     (if \<not> IsValid a then Inl (Sent ErrSkip)
      else let r = \<lparr>rv_Zone = [], rv_ZoneID = [], rv_Existing = False, rv_Owner = PTROwner a\<rparr> in
        (case longest zs (rv_Owner r) True of
           Some z \<Rightarrow> Inr (r\<lparr>rv_Zone := z_Name z, rv_ZoneID := z_ID z, rv_Existing := True\<rparr>)
         | None \<Rightarrow> Inr (r\<lparr>rv_Zone := ReverseZone a plen\<rparr>)))"

definition PrefixOf :: "string \<Rightarrow> int" where
  "PrefixOf cidr = (case ParsePrefix (TrimSpace cidr) of None \<Rightarrow> -1 | Some (_, n) \<Rightarrow> n)"

section \<open>Events\<close>

definition TypeCreated :: string where "TypeCreated = ''ipam.ip_address.created''"
definition TypeUpdated :: string where "TypeUpdated = ''ipam.ip_address.updated''"
definition TypeDeleted :: string where "TypeDeleted = ''ipam.ip_address.deleted''"
definition TypeScanned :: string where "TypeScanned = ''ipam.ip_address.scanned''"

definition MaxPayload :: nat where "MaxPayload = 4096"
definition MaxID :: nat where "MaxID = 64"
definition MaxHostname :: nat where "MaxHostname = 253"

record ipam_event =
  ev_Type :: string
  ev_Action :: string
  ev_ID :: string
  ev_Address :: string
  ev_SubnetID :: string
  ev_Hostname :: string

record ipam_payload =
  py_Action :: string
  py_ID :: string
  py_Address :: string
  py_SubnetID :: string
  py_Hostname :: string

definition id_char :: "char \<Rightarrow> bool" where
  "id_char c = (is_upper c \<or> is_lower c \<or> is_digit c \<or> c = CHR ''_'' \<or> c = CHR ''-'')"

definition idRE :: "string \<Rightarrow> bool" where
  "idRE s = (1 \<le> length s \<and> length s \<le> 64 \<and> list_all id_char s)"

text \<open>
  \<open>json\<close> decodes one value and reports whether the input ends after it; \<open>None\<close> is a
  decoding error, \<open>Some (None, _)\<close> the value null. Missing fields are empty strings.
\<close>

definition Decode :: "(string \<Rightarrow> (ipam_payload option \<times> bool) option) \<Rightarrow> string gomap \<Rightarrow> ipam_event res" where
  "Decode json fs =
     (let ty = (case mget fs ''type'' of None \<Rightarrow> [] | Some s \<Rightarrow> s);
          data = (case mget fs ''data'' of None \<Rightarrow> [] | Some s \<Rightarrow> s)
      in if ty \<noteq> TypeCreated \<and> ty \<noteq> TypeUpdated \<and> ty \<noteq> TypeDeleted \<and> ty \<noteq> TypeScanned then Inl (Sent ErrIgnored)
      else if data = [] \<or> length data > MaxPayload then Inl (Sent ErrMalformed)
      else (case json data of None \<Rightarrow> Inl (Sent ErrMalformed)
      | Some (None, _) \<Rightarrow> Inl (Sent ErrMalformed)
      | Some (Some p, eof) \<Rightarrow>
          if \<not> eof then Inl (Sent ErrMalformed)
          else if \<not> idRE (py_ID p) \<or> length (py_SubnetID p) > MaxID \<or> length (py_Hostname p) > MaxHostname \<or> length (py_Action p) > 16
          then Inl (Sent ErrMalformed)
          else (case ParseAddr (py_Address p) of None \<Rightarrow> Inl (Sent ErrMalformed)
          | Some a \<Rightarrow> if addr_Zone a \<noteq> [] then Inl (Sent ErrMalformed)
              else Inr \<lparr>ev_Type = ty, ev_Action = py_Action p, ev_ID = py_ID p, ev_Address = py_Address p,
                ev_SubnetID = py_SubnetID p, ev_Hostname = py_Hostname p\<rparr>)))"

section \<open>Facts\<close>

lemma reverseName_Join: "parts \<noteq> [] \<Longrightarrow> reverseName parts suf = Join ''.'' (rev parts) @ ''.'' @ suf"
proof -
  have "xs \<noteq> [] \<Longrightarrow> concat (map (\<lambda>p. p @ ''.'') xs) = Join ''.'' xs @ ''.''" for xs
  proof (induction xs)
    case (Cons x xs)
    then show ?case by (cases xs) auto
  qed simp
  then show "parts \<noteq> [] \<Longrightarrow> reverseName parts suf = Join ''.'' (rev parts) @ ''.'' @ suf" by (simp add: reverseName_def)
qed

text \<open>The label lists of addresses: octets under one suffix, nibbles under the other.\<close>

lemma hex_small: "n < 16 \<Longrightarrow> hex_nat n = [hex_digit n] \<and> nibble_label [hex_digit n] \<and> labelOK [hex_digit n] us"
proof -
  assume n: "n < 16"
  then have "n \<in> set [0..<16]" by simp
  moreover have "list_all (\<lambda>n. nibble_label [hex_digit n] \<and> labelOK [hex_digit n] False) [0..<16]" by code_simp
  ultimately show ?thesis using n labelOK_mono by (auto simp: list_all_iff hex_nat.simps [of n])
qed

lemma nibble_bounds: "unat (drop_bit 4 (x :: u8)) < 16" "unat ((x :: u8) AND 0x0F) < 16"
proof -
  have "unat x < 256" using unsigned_less [of x] by simp
  then show "unat (drop_bit 4 x) < 16" by (simp add: drop_bit_eq_div unat_div)
  have "x AND 0x0F = take_bit 4 x" by (simp add: take_bit_eq_mask mask_eq_exp_minus_1)
  then show "unat (x AND 0x0F) < 16" by (simp add: take_bit_eq_mod unat_mod)
qed

lemma As16_length: "addr_wf a \<Longrightarrow> length (As16 a) = 16"
  by (cases a) (auto simp: length_concat sum_list_triv o_def)

lemma length_pairs: "length (concat (map (\<lambda>x. [f x, g x]) xs)) = 2 * length xs"
  by (induction xs) auto

lemma nibbles_ok:
  assumes "addr_wf a"
  shows "length (nibbles a) = 32" "p \<in> set (nibbles a) \<Longrightarrow> \<exists>n < 16. p = [hex_digit n]"
proof -
  show "length (nibbles a) = 32" using As16_length [OF assms] by (simp add: nibbles_def length_pairs)
  show "p \<in> set (nibbles a) \<Longrightarrow> \<exists>n < 16. p = [hex_digit n]"
    using hex_small nibble_bounds unfolding nibbles_def by fastforce
qed

text \<open>A list of labels that is the start of an address in the tree \<open>suf\<close>.\<close>

definition tree_labels :: "string list \<Rightarrow> string \<Rightarrow> bool" where
  "tree_labels ps suf = (suf = v4Suffix \<and> length ps \<le> 4 \<and> list_all octet_label ps \<or>
     suf = v6Suffix \<and> length ps \<le> 32 \<and> list_all nibble_label ps)"

lemma octet_label_ok: "octet_label p \<Longrightarrow> labelOK p us \<and> length p \<le> 3"
  using labelOK_itoa itoa_nat_small by (fastforce simp: octet_label_iff)

lemma Contains_char: "Contains s [c] \<longleftrightarrow> c \<in> set s"
  by (induction s) auto

lemma nibble_label_ok:
  assumes "nibble_label p"
  shows "labelOK p us \<and> length p \<le> 3"
proof -
  obtain c where c: "p = [c]" using assms by (auto simp: nibble_label_def length_Suc_conv)
  then have "c \<in> set ''0123456789abcdef''" using assms unfolding nibble_label_def c Contains_char by blast
  moreover have "list_all (\<lambda>c. labelOK [c] False) ''0123456789abcdef''" by code_simp
  ultimately show ?thesis using c labelOK_mono by (auto simp: list_all_iff)
qed

lemma tree_labels_ok: "tree_labels ps suf \<Longrightarrow> p \<in> set ps \<Longrightarrow> labelOK p us \<and> length p \<le> 3"
  using octet_label_ok nibble_label_ok by (auto simp: tree_labels_def list_all_iff)

lemma tree_labels_take: "tree_labels ps suf \<Longrightarrow> tree_labels (take n ps) suf"
  by (auto simp: tree_labels_def list_all_iff dest: in_set_takeD)

lemma labels_of_tree:
  assumes "addr_wf a" "labels_of a = (ps, suf)"
  shows "tree_labels ps suf" "length ps = (if suf = v6Suffix then 32 else 4)"
proof -
  have o: "octet_label (Itoa (uint x))" for x :: u8
  proof -
    have "unat x < 256" using unsigned_less [of x] by simp
    then have "unat x \<le> 255" by simp
    moreover have "Itoa (uint x) = itoa_nat (unat x)" by (simp add: Itoa_def)
    ultimately show ?thesis by (auto simp: octet_label_iff)
  qed
  have sf: "v4Suffix \<noteq> v6Suffix" by code_simp
  have "tree_labels ps suf \<and> length ps = (if suf = v6Suffix then 32 else 4)"
  proof (cases "Unmap a")
    case (V4 x y z t)
    then show ?thesis using assms(2) o sf by (auto simp: labels_of_def tree_labels_def)
  next
    case (V6 g z)
    have "addr_wf (Unmap a)" by (rule Unmap_wf [OF assms(1)])
    note n = nibbles_ok [OF this]
    have "list_all nibble_label (nibbles (Unmap a))" using n(2) hex_small by (fastforce simp: list_all_iff)
    then show ?thesis using assms(2) V6 n(1) sf by (auto simp: labels_of_def tree_labels_def)
  next
    case NoAddr
    have n: "length (nibbles NoAddr) = 32" "list_all nibble_label (nibbles NoAddr)" by code_simp+
    then show ?thesis using assms(2) NoAddr sf by (auto simp: labels_of_def tree_labels_def)
  qed
  then show "tree_labels ps suf" "length ps = (if suf = v6Suffix then 32 else 4)" by blast+
qed

lemma length_Join_labels: "\<forall>p \<in> set ps. length p \<le> 3 \<Longrightarrow> length (Join ''.'' ps) \<le> 4 * length ps"
proof (induction ps)
  case (Cons p ps)
  then show ?case by (cases ps) auto
qed simp

lemma tree_name_ok:
  assumes "tree_labels ps suf" "ps \<noteq> []"
  shows "canonical False (reverseName ps suf)" "IsReverse (reverseName ps suf)" "reverseOK (reverseName ps suf)"
proof -
  let ?n = "reverseName ps suf" and ?q = "if suf = v4Suffix then [''in-addr'', ''arpa''] else [''ip6'', ''arpa'']"
  have sf: "suf = v4Suffix \<or> suf = v6Suffix" "v4Suffix \<noteq> v6Suffix" using assms(1) by (auto simp: tree_labels_def v4Suffix_def v6Suffix_def)
  have lab: "\<forall>p \<in> set ps. labelOK p True \<and> labelOK p False \<and> length p \<le> 3" using tree_labels_ok [OF assms(1)] by blast
  obtain p qs where r: "rev ps = p # qs" using assms(2) by (cases "rev ps") auto
  have n: "?n = Join ''.'' (rev ps) @ ''.'' @ suf" by (rule reverseName_Join [OF assms(2)])
  have "Join ''.'' (rev ps @ ?q) @ ''.'' = ?n"
    using assms(2) sf unfolding n by (subst Join_append) (auto simp: v4Suffix_def v6Suffix_def)
  moreover have "labelOK ''in-addr'' True" "labelOK ''ip6'' True" "labelOK ''arpa'' True" by code_simp+
  moreover have "labelOK p False" "list_all (\<lambda>l. labelOK l True) qs"
    using lab r by (metis list.set_intros(1) set_rev) (metis lab list.set_intros(2) list_all_iff r set_rev)
  moreover have "length ?n \<le> 254"
    using length_Join_labels [of "rev ps"] lab assms(1) unfolding n by (auto simp: tree_labels_def v4Suffix_def v6Suffix_def)
  ultimately show "canonical False ?n" unfolding canonical_def
    by (intro exI [of _ p] exI [of _ "qs @ ?q"]) (simp add: r)
  show "IsReverse ?n" using sf unfolding n by (auto simp: IsReverse_def suffix_def)
  have d: "list_all (\<lambda>p. CHR ''.'' \<notin> set p) (rev ps)" using lab labelOK_no_dot by (auto simp: list_all_iff)
  have sp: "Split CHR ''.'' (Join ''.'' (rev ps)) = rev ps" using Split_Join [OF _ d] assms(2) by simp
  have t: "TrimSuffix (b @ ''.'' @ x) (''.'' @ x) = b" for b x by (simp add: TrimSuffix_def suffix_def)
  show "reverseOK ?n"
  proof (cases "suf = v4Suffix")
    case True
    then have "list_all octet_label (rev ps)" "length ps \<le> 4" using assms(1) sf by (auto simp: tree_labels_def)
    moreover have "?n = Join ''.'' (rev ps) @ ''.'' @ v4Suffix" using n True by simp
    moreover have "suffix (''.'' @ v4Suffix) (Join ''.'' (rev ps) @ ''.'' @ v4Suffix)" by (auto simp: suffix_def)
    ultimately show ?thesis unfolding reverseOK_def by (simp only: t sp if_True Let_def length_rev not_less if_not_P)
  next
    case False
    then have v6: "suf = v6Suffix" using sf by simp
    then have "list_all nibble_label (rev ps)" "length ps \<le> 32" using assms(1) False by (auto simp: tree_labels_def)
    moreover have "\<not> suffix (''.'' @ v4Suffix) (Join ''.'' (rev ps) @ ''.'' @ v6Suffix)"
      by (auto simp: suffix_def v4Suffix_def v6Suffix_def append_eq_append_conv2 append_eq_Cons_conv)
    moreover have "?n = Join ''.'' (rev ps) @ ''.'' @ v6Suffix" using n v6 by simp
    ultimately show ?thesis unfolding reverseOK_def by (simp only: t sp if_False Let_def length_rev not_less if_not_P)
  qed
qed

lemma reverseName_append: "reverseName (ps @ qs) suf = reverseName qs (reverseName ps suf)"
  by (simp add: reverseName_def)

lemma reverseName_inside: "InZone (reverseName ps z) z"
proof (cases ps)
  case (Cons p qs)
  have "reverseName ps z = Join ''.'' (rev ps) @ ''.'' @ z" by (rule reverseName_Join) (simp add: Cons)
  then show ?thesis by (auto simp: InZone_def suffix_def)
qed (simp add: reverseName_def)

lemma clamp_units:
  fixes u hi x :: int
  assumes "0 < u" "hi = u * k" "0 < k"
  shows "0 < nat (min (max x u) hi div u)" "nat (min (max x u) hi div u) \<le> nat k"
proof -
  have "u * 1 \<le> hi" using assms by (simp only: assms(2)) (rule mult_left_mono; simp)
  then have m: "u \<le> min (max x u) hi" "min (max x u) hi \<le> hi" by auto
  have "1 \<le> min (max x u) hi div u" using zdiv_mono1 [OF m(1) assms(1)] assms(1) by (simp only: div_self)
  moreover have "min (max x u) hi div u \<le> k" using zdiv_mono1 [OF m(2) assms(1)] assms(1,2) by simp
  ultimately show "0 < nat (min (max x u) hi div u)" "nat (min (max x u) hi div u) \<le> nat k" by linarith+
qed

lemma ReverseZone_size:
  assumes "IsValid a" "labels_of a = (ps, suf)"
  obtains n where "ReverseZone a plen = reverseName (take n ps) suf" "0 < n" "n \<le> (if suf = v6Suffix then 16 else 3)"
proof (cases "suf = v6Suffix")
  case True
  let ?n = "nat (min (max ((if plen < 0 \<or> 128 < plen then 64 else plen) div 4 * 4) 4) 64 div 4)"
  have "ReverseZone a plen = reverseName (take ?n ps) suf" using assms True by (simp only: ReverseZone_def Let_def prod.case if_True simp_thms if_not_P)
  moreover have "0 < ?n" by (rule clamp_units(1) [of 4 64 16]) simp_all
  moreover have "?n \<le> nat 16" by (rule clamp_units(2) [of 4 64 16]) simp_all
  ultimately show thesis using that [of ?n] True by (simp only: if_True if_False nat_numeral simp_thms)
next
  case False
  let ?n = "nat (min (max ((if plen < 0 \<or> 32 < plen then 24 else plen) div 8 * 8) 8) 24 div 8)"
  have "ReverseZone a plen = reverseName (take ?n ps) suf" using assms False by (simp only: ReverseZone_def Let_def prod.case if_False simp_thms)
  moreover have "0 < ?n" by (rule clamp_units(1) [of 8 24 3]) simp_all
  moreover have "?n \<le> nat 3" by (rule clamp_units(2) [of 8 24 3]) simp_all
  ultimately show thesis using that [of ?n] False by (simp only: if_True if_False nat_numeral simp_thms)
qed

lemma reverse_zone_ok:
  assumes laws: "fqdn_law L" "split_law L" and a: "addr_wf a" "IsValid a"
  shows "InZone (PTROwner a) (ReverseZone a plen)" "ZoneName L (ReverseZone a plen) = Inr (ReverseZone a plen)"
    "RecordName L (ReverseZone a plen) (PTROwner a) = Inr (PTROwner a)"
proof -
  obtain ps suf where ls: "labels_of a = (ps, suf)" by fastforce
  note tr = labels_of_tree [OF a(1) ls]
  obtain n where n: "ReverseZone a plen = reverseName (take n ps) suf" "0 < n" by (rule ReverseZone_size [OF a(2) ls])
  have p: "PTROwner a = reverseName ps suf" using a(2) ls by (simp add: PTROwner_def)
  have ne: "ps \<noteq> []" "take n ps \<noteq> []" using tr(2) n(2) by (auto split: if_splits)
  note z = tree_name_ok [OF tree_labels_take [OF tr(1)] ne(2), folded n(1)]
  have "reverseName ps suf = reverseName (drop n ps) (ReverseZone a plen)"
    unfolding n(1) reverseName_append [symmetric] by simp
  then show inz: "InZone (PTROwner a) (ReverseZone a plen)" using p reverseName_inside by metis
  have c: "canonicalZone L (ReverseZone a plen) = Inr (ReverseZone a plen)" by (rule canonicalZone_id [OF laws z(1)])
  then show "ZoneName L (ReverseZone a plen) = Inr (ReverseZone a plen)" using z(2,3) by (simp add: ZoneName_def)
  have "owner_name (PTROwner a)" using canonical_owner [OF tree_name_ok(1) [OF tr(1) ne(1)]] p by simp
  then show "RecordName L (ReverseZone a plen) (PTROwner a) = Inr (PTROwner a)" by (rule RecordName_fixed [OF laws c _ inz])
qed

lemma longest_chosen:
  assumes "longest zs name b = Some z"
  shows "z \<in> set zs" "IsReverse (z_Name z) = b" "InZone name (z_Name z)"
    "\<forall>y \<in> set zs. IsReverse (z_Name y) = b \<and> InZone name (z_Name y) \<longrightarrow> InZone (z_Name z) (z_Name y)"
  using longest_loop_best [of "\<lambda>z. IsReverse (z_Name z) = b" name zs] assms InZone_comparable
  by (auto simp: best_ok_def longest_def)

lemma longest_none:
  "longest zs name b = None \<Longrightarrow> y \<in> set zs \<Longrightarrow> IsReverse (z_Name y) = b \<Longrightarrow> \<not> InZone name (z_Name y)"
  using longest_loop_best [of "\<lambda>z. IsReverse (z_Name z) = b" name zs] by (auto simp: best_ok_def longest_def)

text \<open>The zone a plan names: the closest of the tenant's zones in the tree, else a new one.\<close>

definition planned :: "ext \<Rightarrow> zone list \<Rightarrow> string \<Rightarrow> bool \<Rightarrow> bool \<Rightarrow> string \<Rightarrow> string \<Rightarrow> bool" where
  "planned L zs name b existing zid zn = (InZone name zn \<and> (if existing
     then (\<exists>z \<in> set zs. z_ID z = zid \<and> z_Name z = zn \<and> IsReverse zn = b \<and>
       (\<forall>y \<in> set zs. IsReverse (z_Name y) = b \<and> InZone name (z_Name y) \<longrightarrow> InZone zn (z_Name y)))
     else ZoneName L zn = Inr zn \<and> (\<forall>y \<in> set zs. IsReverse (z_Name y) = b \<longrightarrow> \<not> InZone name (z_Name y))))"

lemma planned_longest: "longest zs name b = Some z \<Longrightarrow> planned L zs name b True (z_ID z) (z_Name z)"
  using longest_chosen [of zs name b z] by (auto simp: planned_def)

section \<open>Properties\<close>

text \<open>
  C32: The plans of an address. The forward record's owner is the canonical host name and
  the reverse record's owner the PTR name; each lies in the planned zone. That zone is
  the tenant's closest zone of the right tree around the owner; when the tenant has
  none, it is a name the zone validation accepts, and for an address the validation of
  owner names accepts the PTR name in it.
\<close>

theorem plans_sound:
  assumes laws: "fqdn_law L" "split_law L" and a: "addr_wf a"
  shows "(PlanForward L zs host a = Inr f \<longrightarrow> CanonicalHost L host = Some (fp_Name f) \<and>
      planned L zs (fp_Name f) False (fp_Existing f) (fp_ZoneID f) (fp_Zone f)) \<and>
    (PlanReverse zs a plen = Inr r \<longrightarrow> rv_Owner r = PTROwner a \<and>
      planned L zs (rv_Owner r) True (rv_Existing r) (rv_ZoneID r) (rv_Zone r) \<and>
      (\<not> rv_Existing r \<longrightarrow> RecordName L (rv_Zone r) (rv_Owner r) = Inr (rv_Owner r)))"
proof (intro conjI impI)
  assume f: "PlanForward L zs host a = Inr f"
  then obtain h where h: "CanonicalHost L host = Some h" "fp_Name f = h"
    by (auto simp: PlanForward_def Let_def split: if_splits option.splits sum.splits)
  then show "CanonicalHost L host = Some (fp_Name f)" by simp
  show "planned L zs (fp_Name f) False (fp_Existing f) (fp_ZoneID f) (fp_Zone f)"
  proof (cases "longest zs h False")
    case (Some z)
    then have "fp_Existing f" "fp_ZoneID f = z_ID z" "fp_Zone f = z_Name z"
      using f h(1) by (auto simp: PlanForward_def Let_def split: if_splits)
    then show ?thesis using h planned_longest [OF Some] by simp
  next
    case None
    then obtain reg zn where zn: "ZoneName L reg = Inr zn" "InZone h zn" "fp_Zone f = zn" "\<not> fp_Existing f"
      using f h(1) by (auto simp: PlanForward_def Let_def split: if_splits option.splits sum.splits)
    then show ?thesis using ZoneName_id [OF laws zn(1)] longest_none [OF None] h by (auto simp: planned_def)
  qed
next
  assume r: "PlanReverse zs a plen = Inr r"
  then have v: "IsValid a" by (auto simp: PlanReverse_def split: if_splits)
  show "rv_Owner r = PTROwner a" using r v by (auto simp: PlanReverse_def Let_def split: option.splits)
  note z = reverse_zone_ok [OF laws a v]
  show "planned L zs (rv_Owner r) True (rv_Existing r) (rv_ZoneID r) (rv_Zone r)"
  proof (cases "longest zs (PTROwner a) True")
    case (Some y)
    then show ?thesis using r v planned_longest [OF Some] by (auto simp: PlanReverse_def)
  next
    case None
    then show ?thesis using r v z(1,2) longest_none [OF None] by (auto simp: PlanReverse_def planned_def)
  qed
  show "RecordName L (rv_Zone r) (rv_Owner r) = Inr (rv_Owner r)" if "\<not> rv_Existing r"
    using r v z(3) that by (auto simp: PlanReverse_def Let_def split: option.splits)
qed

theorem plans_sound_witness:
  "PlanReverse [] (V4 192 0 2 7) 20 = Inr \<lparr>rv_Zone = ''0.192.in-addr.arpa.'', rv_ZoneID = [], rv_Existing = False,
      rv_Owner = ''7.2.0.192.in-addr.arpa.''\<rparr> \<and>
    RecordName sample_ext ''0.192.in-addr.arpa.'' ''7.2.0.192.in-addr.arpa.'' = Inr ''7.2.0.192.in-addr.arpa.''"
proof -
  let ?r = "\<lparr>rv_Zone = ''0.192.in-addr.arpa.'', rv_ZoneID = [], rv_Existing = False, rv_Owner = ''7.2.0.192.in-addr.arpa.''\<rparr>"
  have r: "PlanReverse [] (V4 192 0 2 7) 20 = Inr ?r" by code_simp
  have "addr_wf (V4 192 0 2 7)" by simp
  from conjunct2 [OF conjunct2 [OF mp [OF conjunct2 [OF plans_sound [OF sample_laws this]] r]]] r show ?thesis by simp
qed

lemma unat_bounds: "unat (x :: u8) < 256" "unat (y :: u16) < 65536"
  using unsigned_less [of x] unsigned_less [of y] by simp_all

lemma Itoa_uint: "Itoa (uint (x :: u8)) = Itoa (uint y) \<Longrightarrow> x = y"
proof -
  assume e: "Itoa (uint x) = Itoa (uint y)"
  have "Itoa (uint x) = itoa_nat (unat x)" for x :: u8 by (simp add: Itoa_def)
  moreover have "Atoi (itoa_nat (unat x)) = Some (int (unat x))" for x :: u8
  proof (rule Atoi_itoa_nat)
    have "int (unat x) < 256" using unat_bounds(1) [of x] by linarith
    also have "(256 :: int) < 2 ^ 63" by simp
    finally show "int (unat x) < 2 ^ 63" .
  qed
  ultimately show "x = y" using e by (metis of_nat_eq_iff option.inject word_unat_eq_iff)
qed

lemma hex_label_inj:
  assumes "m < 16" "n < 16" "hex_nat m = hex_nat n"
  shows "m = n"
proof -
  have b: "byte (hex_digit k) = (if k < 10 then 48 + k else 87 + k)" if "k < 16" for k
    using that by (simp add: hex_digit_def byte_def)
  have "byte (hex_digit m) = byte (hex_digit n)" using assms by (simp add: hex_nat.simps)
  then show ?thesis using b [OF assms(1)] b [OF assms(2)] assms(1,2) by (simp split: if_splits)
qed

lemma concat_pairs_inj:
  assumes "concat (map (\<lambda>x. [f x, g x]) xs) = concat (map (\<lambda>x. [f x, g x]) ys)"
    and "\<And>x y. f x = f y \<Longrightarrow> g x = g y \<Longrightarrow> x = y"
  shows "xs = ys"
  using assms(1)
proof (induction xs arbitrary: ys)
  case Nil
  then show ?case by (cases ys) auto
next
  case (Cons x xs)
  then obtain y zs where "ys = y # zs" by (cases ys) auto
  then show ?case using Cons assms(2) by auto
qed

lemma byte_halves: "drop_bit 4 (x :: u8) = drop_bit 4 y \<Longrightarrow> x AND 0x0F = y AND 0x0F \<Longrightarrow> x = y"
proof -
  assume d: "drop_bit 4 x = drop_bit 4 y" and l: "x AND 0x0F = y AND 0x0F"
  have "z AND 0x0F = take_bit 4 z" for z :: u8 by (simp add: take_bit_eq_mask mask_eq_exp_minus_1)
  then show "x = y" using d l bits_ident [of 4 x] bits_ident [of 4 y] by (metis)
qed

lemma group_halves: "hi8 x = hi8 y \<Longrightarrow> lo8 x = lo8 y \<Longrightarrow> x = y"
proof -
  assume h: "hi8 x = hi8 y" and l: "lo8 x = lo8 y"
  have "unat (hi8 z) = unat z div 256" for z
    using unat_bounds(2) [of z] by (simp add: hi8_def unsigned_ucast_eq drop_bit_eq_div unat_div take_bit_eq_mod)
  moreover have "unat (lo8 z) = unat z mod 256" for z by (simp add: lo8_def unsigned_ucast_eq take_bit_eq_mod)
  ultimately have "unat x div 256 = unat y div 256" "unat x mod 256 = unat y mod 256" using h l by metis+
  then have "unat x = unat y" by (metis div_mult_mod_eq)
  then show "x = y" by (simp add: word_unat_eq_iff)
qed

lemma nibbles_inj: "nibbles (V6 g z) = nibbles (V6 h t) \<Longrightarrow> g = h"
proof -
  assume "nibbles (V6 g z) = nibbles (V6 h t)"
  then have "As16 (V6 g z) = As16 (V6 h t)" unfolding nibbles_def
    by (rule concat_pairs_inj) (metis byte_halves hex_label_inj nibble_bounds word_unat_eq_iff)
  then have "concat (map (\<lambda>x. [hi8 x, lo8 x]) g) = concat (map (\<lambda>x. [hi8 x, lo8 x]) h)" by simp
  then show "g = h" by (rule concat_pairs_inj) (rule group_halves)
qed

lemma reverseName_inj:
  assumes t: "tree_labels ps s" "tree_labels qs t" and ne: "ps \<noteq> []" "qs \<noteq> []" and e: "reverseName ps s = reverseName qs t"
  shows "ps = qs \<and> s = t"
proof -
  let ?l = "\<lambda>s. if s = v4Suffix then [''in-addr'', ''arpa''] else [''ip6'', ''arpa'']"
  have sf: "v4Suffix \<noteq> v6Suffix" by code_simp
  have j: "reverseName ps s = Join ''.'' (rev ps @ ?l s) @ ''.''" if "tree_labels ps s" "ps \<noteq> []" for ps s
    unfolding reverseName_Join [OF that(2)] using that sf by (subst Join_append) (auto simp: tree_labels_def v4Suffix_def v6Suffix_def)
  have d: "list_all (\<lambda>p. CHR ''.'' \<notin> set p) (rev ps @ ?l s)" if "tree_labels ps s" for ps s
    using tree_labels_ok [OF that] labelOK_no_dot by (auto simp: list_all_iff)
  have sp: "Split CHR ''.'' (Join ''.'' (rev ps @ ?l s)) = rev ps @ ?l s" if "tree_labels ps s" "ps \<noteq> []" for ps s
    using Split_Join [OF _ d [OF that(1)]] that(2) by simp
  have J: "Join ''.'' (rev ps @ ?l s) = Join ''.'' (rev qs @ ?l t)"
    using e unfolding j [OF t(1) ne(1)] j [OF t(2) ne(2)] by (rule append_same_eq [THEN iffD1])
  have "rev ps @ ?l s = Split CHR ''.'' (Join ''.'' (rev ps @ ?l s))" by (rule sp [OF t(1) ne(1), symmetric])
  also have "\<dots> = rev qs @ ?l t" unfolding J by (rule sp [OF t(2) ne(2)])
  finally have "rev ps @ ?l s = rev qs @ ?l t" .
  moreover have "length (?l s) = length (?l t)" by simp
  ultimately have "rev ps = rev qs \<and> ?l s = ?l t" using append_eq_append_conv [of "rev ps" "rev qs" "?l s" "?l t"] by blast
  moreover have "s = v4Suffix \<or> s = v6Suffix" "t = v4Suffix \<or> t = v6Suffix" using t by (auto simp: tree_labels_def)
  ultimately show ?thesis using sf by (auto split: if_splits)
qed

text \<open>
  C33: PTR owner names identify addresses: two valid addresses without a zone that have
  the same PTR owner are the same address, an IPv4 address and its IPv6-mapped form
  counting as one.
\<close>

theorem PTROwner_injective:
  assumes wf: "addr_wf a" "addr_wf b" and v: "IsValid a" "IsValid b" and z: "addr_Zone a = []" "addr_Zone b = []"
    and e: "PTROwner a = PTROwner b"
  shows "Unmap a = Unmap b"
proof -
  obtain ps s qs t where l: "labels_of a = (ps, s)" "labels_of b = (qs, t)" by fastforce
  note ta = labels_of_tree [OF wf(1) l(1)] and tb = labels_of_tree [OF wf(2) l(2)]
  have "ps \<noteq> []" "qs \<noteq> []" using ta(2) tb(2) by (auto split: if_splits)
  then have eq: "labels_of a = labels_of b" using reverseName_inj [OF ta(1) tb(1)] e l v by (simp add: PTROwner_def)
  have sf: "v4Suffix \<noteq> v6Suffix" "v6Suffix \<noteq> v4Suffix" by code_simp+
  have zn: "x = []" if "Unmap c = V6 g x" "addr_Zone c = []" for c g x using that by (cases c) (auto split: if_splits)
  have nv: "Unmap a \<noteq> NoAddr" "Unmap b \<noteq> NoAddr" using v by (metis IsValid.simps(1) IsValid_Unmap)+
  show ?thesis
  proof (cases "Unmap a"; cases "Unmap b")
    fix p q r s p' q' r' s' assume "Unmap a = V4 p q r s" "Unmap b = V4 p' q' r' s'"
    then show ?thesis using eq Itoa_uint by (simp add: labels_of_def)
  next
    fix g x h y assume u: "Unmap a = V6 g x" "Unmap b = V6 h y"
    then have "nibbles (V6 g x) = nibbles (V6 h y)" using eq by (simp add: labels_of_def)
    then show ?thesis using nibbles_inj zn z u by metis
  qed (use eq sf nv in \<open>auto simp: labels_of_def\<close>)
qed

theorem PTROwner_injective_witness: "Unmap (V6 [0, 0, 0, 0, 0, 0xFFFF, 0xC000, 0x0207] []) = Unmap (V4 192 0 2 7)"
proof -
  have "PTROwner (V6 [0, 0, 0, 0, 0, 0xFFFF, 0xC000, 0x0207] []) = PTROwner (V4 192 0 2 7)" by code_simp
  then show ?thesis by (intro PTROwner_injective) simp_all
qed

end
