(* ===== verification/Ipam_Sync.thy ===== *)
theory Ipam_Sync
  imports Tenant_Frame Ipam_Plan
begin

text \<open>
  The IPAM synchronisation, \<^verbatim>\<open>internal/ipamsync/sync.go\<close> with the dispatch of
  \<^verbatim>\<open>consumer.go\<close>: an address event makes the service re-read the address from IPAM and
  bring the tenant's forward and reverse records in line with it. IPAM is reached
  through the two functions of the dependencies. Contexts, metrics and logging are
  left out; an error wrapped with a message is the error.
\<close>

section \<open>Dependencies and inputs\<close>

record ipam_address =
  ia_ID :: string
  ia_Address :: string
  ia_SubnetID :: string
  ia_Hostname :: string

record ipam_subnet =
  isn_ID :: string
  isn_CIDR :: string

text \<open>The zone and record service share one set of dependencies; \<open>sy_Limits\<close> are the record limits.\<close>

record 'w sync_deps =
  sy_Deps :: "'w deps"
  sy_Limits :: limits
  sy_GetAddress :: "string \<Rightarrow> string \<Rightarrow> ('w, ipam_address) act"
  sy_GetSubnet :: "string \<Rightarrow> string \<Rightarrow> ('w, ipam_subnet) act"
  sy_TTL :: int

definition sync_Comment :: string where
  "sync_Comment = ''managed by IPAM sync''"

definition sync_New :: "'w sync_deps \<Rightarrow> 'w sync_deps" where
  "sync_New S = (if sy_TTL S \<le> 0 then S\<lparr>sy_TTL := 3600\<rparr> else S)"

definition lastEvent :: "string \<Rightarrow> string" where
  "lastEvent ty = (if ty = TypeUpdated then SyncUpdated else if ty = TypeScanned then SyncScanned
     else if ty = TypeDeleted then SyncDeleted else SyncCreated)"

section \<open>Audit\<close>

definition auditDetail ::
  "'w sync_deps \<Rightarrow> subjects \<Rightarrow> string \<Rightarrow> string \<Rightarrow> string \<Rightarrow> string \<Rightarrow> (string \<times> detail) list \<Rightarrow> 'w \<Rightarrow> 'w" where
  "auditDetail S s t i outcome reason details = audit_Emit (d_Audit (sy_Deps S))
     \<lparr>ae_TenantID = s_TenantID s, ae_EventType = t, ae_ActorKind = ActorOf (s_ActorKind s), ae_ActorID = ActorID s,
      ae_SubjectKind = SubjectSync, ae_SubjectID = i, ae_Outcome = outcome, ae_Reason = reason, ae_Details = details\<rparr>"

definition auditEvent :: "'w sync_deps \<Rightarrow> subjects \<Rightarrow> string \<Rightarrow> string \<Rightarrow> string \<Rightarrow> string \<Rightarrow> string \<Rightarrow> string \<Rightarrow> 'w \<Rightarrow> 'w" where
  "auditEvent S s t i outcome reason forward reverse =
     auditDetail S s t i outcome reason [(''forward'', DStr forward), (''reverse'', DStr reverse)]"

text \<open>One side that could not be written; an unmanaged host is not audited.\<close>

definition sync_outcome :: "'w sync_deps \<Rightarrow> subjects \<Rightarrow> string \<Rightarrow> string \<Rightarrow> string \<Rightarrow> string \<Rightarrow> gerr \<Rightarrow> 'w \<Rightarrow> 'w" where
  "sync_outcome S s i zn name ty e =
     (let details = [(''zone'', DStr zn), (''name'', DStr name), (''type'', DStr ty)] in
      if errIs e ErrSkip then id
      else if errIs e zones_ErrDuplicate then auditDetail S s SyncSkip i OutcomeRefused ''zone_conflict'' details
      else if errIs e zones_ErrInvalidKind then auditDetail S s SyncSkip i OutcomeRefused ''invalid_kind'' details
      else if errIs e ErrName \<or> errIs e ErrRecord \<or> errIs e ErrPublicSuffix
      then auditDetail S s SyncSkip i OutcomeRefused ''invalid_name'' details
      else auditDetail S s SyncUpsert i OutcomeError ''error'' details)"

section \<open>Zones and record sets\<close>

definition sync_zone :: "'w sync_deps \<Rightarrow> subjects \<Rightarrow> bool \<Rightarrow> string \<Rightarrow> string \<Rightarrow> ('w, zone) act" where
  "sync_zone S s existing i name =
     (if existing then zones_Owned (sy_Deps S) s i
      else on_result (zones_Create (sy_Deps S) s \<lparr>ci_Name = name, ci_Kind = KindNative, ci_Masters = [], ci_Nameservers = [],
          ci_DNSSEC = False, ci_Description = [], ci_TemplateID = [], ci_Origin = OriginIPAM, ci_RRsets = []\<rparr>) (\<lambda>r. case r of
        Inr z \<Rightarrow> ret z
      | Inl e \<Rightarrow> if errIs e zones_ErrDuplicate
          then on_result (zones_ByName (sy_Deps S) s name) (\<lambda>q. case q of Inr own \<Rightarrow> ret own | Inl _ \<Rightarrow> fail_with e)
          else fail_with e))"

text \<open>\<open>None\<close> is an absent set.\<close>

definition sync_lookup :: "'w sync_deps \<Rightarrow> subjects \<Rightarrow> zone \<Rightarrow> string \<Rightarrow> string \<Rightarrow> ('w, set_view option) act" where
  "sync_lookup S s z name ty = on_result (records_Lookup (sy_Deps S) s z \<lparr>si_Name = name, si_Type = ty\<rparr>) (\<lambda>r. case r of
     Inr v \<Rightarrow> ret (Some v)
   | Inl e \<Rightarrow> if errIs e records_ErrNotFound then ret None else fail_with e)"

definition sync_input :: "string \<Rightarrow> string \<Rightarrow> u32 \<Rightarrow> string list \<Rightarrow> record_set_input" where
  "sync_input name ty ttl vals = \<lparr>ri_Name = name, ri_Type = ty, ri_TTL = uint ttl,
     ri_Values = map (\<lambda>v. \<lparr>rv_Content = v, rv_Disabled = False\<rparr>) vals, ri_Comment = sync_Comment\<rparr>"

definition contents :: "set_view \<Rightarrow> string list" where
  "contents v = map vv_Content (sv_Values v)"

definition sync_write :: "'w sync_deps \<Rightarrow> subjects \<Rightarrow> zone \<Rightarrow> record_set_input \<Rightarrow> ('w, unit) act" where
  "sync_write S s z inp = and_then (records_Apply (sy_Deps S) (sy_Limits S) s z inp SourceIPAM) (\<lambda>_. ret ())"

definition addValue :: "'w sync_deps \<Rightarrow> subjects \<Rightarrow> zone \<Rightarrow> string \<Rightarrow> string \<Rightarrow> string \<Rightarrow> ('w, unit) act" where
  "addValue S s z name ty v = and_then (sync_lookup S s z name ty) (\<lambda>cur. case cur of
     None \<Rightarrow> sync_write S s z (sync_input name ty (word_of_int (sy_TTL S)) [v])
   | Some c \<Rightarrow> if v \<in> set (contents c) then ret ()
       else sync_write S s z (sync_input name ty (sv_TTL c) (contents c @ [v])))"

text \<open>A zone that no longer exists is fine.\<close>

definition owned_or_gone :: "'w sync_deps \<Rightarrow> subjects \<Rightarrow> string \<Rightarrow> (zone \<Rightarrow> ('w, unit) act) \<Rightarrow> ('w, unit) act" where
  "owned_or_gone S s zid f = on_result (zones_Owned (sy_Deps S) s zid) (\<lambda>r. case r of
     Inl e \<Rightarrow> if errIs e zones_ErrNotFound then ret () else fail_with e
   | Inr z \<Rightarrow> f z)"

definition removeValue :: "'w sync_deps \<Rightarrow> subjects \<Rightarrow> string \<Rightarrow> string \<Rightarrow> string \<Rightarrow> string \<Rightarrow> ('w, unit) act" where
  "removeValue S s zid name ty v = owned_or_gone S s zid (\<lambda>z.
     and_then (sync_lookup S s z name ty) (\<lambda>cur. case cur of
       None \<Rightarrow> ret ()
     | Some c \<Rightarrow> let others = filter (\<lambda>x. x \<noteq> v) (contents c) in
         if length others = length (sv_Values c) then ret ()
         else if others = [] then records_Remove (sy_Deps S) s z \<lparr>si_Name = name, si_Type = ty\<rparr> SourceIPAM
         else sync_write S s z ((sync_input name ty (sv_TTL c) others)\<lparr>ri_Comment := sv_Comment c\<rparr>)))"

definition removeSet :: "'w sync_deps \<Rightarrow> subjects \<Rightarrow> string \<Rightarrow> string \<Rightarrow> string \<Rightarrow> ('w, unit) act" where
  "removeSet S s zid name ty = owned_or_gone S s zid (\<lambda>z.
     records_Remove (sy_Deps S) s z \<lparr>si_Name = name, si_Type = ty\<rparr> SourceIPAM)"

definition setPTR :: "'w sync_deps \<Rightarrow> subjects \<Rightarrow> zone \<Rightarrow> string \<Rightarrow> string \<Rightarrow> ('w, unit) act" where
  "setPTR S s z owner host = and_then (sync_lookup S s z owner ''PTR'') (\<lambda>cur.
     if (case cur of None \<Rightarrow> False | Some c \<Rightarrow> contents c = [host]) then ret ()
     else sync_write S s z (sync_input owner ''PTR'' (word_of_int (sy_TTL S)) [host]))"

section \<open>The sides of an address\<close>

definition permanent :: "gerr \<Rightarrow> bool" where
  "permanent e = (errIs e ErrSkip \<or> errIs e zones_ErrDuplicate \<or> errIs e zones_ErrInvalidKind \<or>
     errIs e ErrName \<or> errIs e ErrRecord \<or> errIs e ErrPublicSuffix)"

text \<open>
  The outcome of a side: whether the previous references are kept, its error, and
  the error noted for the caller.
\<close>

record side_result =
  sd_keep :: bool
  sd_err :: "gerr option"
  sd_noted :: "gerr option"

definition sync_side :: "gerr option \<Rightarrow> bool \<Rightarrow> ('w, unit) act \<Rightarrow> ('w, unit) act \<Rightarrow> ('w, side_result) act" where
  "sync_side planErr moved remove write =
     (let finish = (case planErr of
          Some e \<Rightarrow> ret \<lparr>sd_keep = False, sd_err = Some e, sd_noted = None\<rparr>
        | None \<Rightarrow> on_result write (\<lambda>r. ret \<lparr>sd_keep = (case r of Inl e \<Rightarrow> \<not> permanent e | Inr _ \<Rightarrow> False),
            sd_err = err_of r, sd_noted = None\<rparr>))
      in if moved then
           (if (case planErr of Some e \<Rightarrow> \<not> permanent e | None \<Rightarrow> False)
            then ret \<lparr>sd_keep = True, sd_err = planErr, sd_noted = None\<rparr>
            else on_result remove (\<lambda>r. case r of
                Inl e \<Rightarrow> ret \<lparr>sd_keep = True, sd_err = Some e, sd_noted = Some e\<rparr>
              | Inr _ \<Rightarrow> finish))
         else finish)"

text \<open>A plan and the zone it names: the zone is the zero value when there is none.\<close>

definition sync_target :: "'w sync_deps \<Rightarrow> subjects \<Rightarrow> gerr option \<Rightarrow> bool \<Rightarrow> string \<Rightarrow> string \<Rightarrow> ('w, zone \<times> gerr option) act" where
  "sync_target S s planErr existing zid zn = (case planErr of Some e \<Rightarrow> ret (empty_zone, Some e)
     | None \<Rightarrow> on_result (sync_zone S s existing zid zn) (\<lambda>r. case r of
         Inr z \<Rightarrow> ret (z, None) | Inl e \<Rightarrow> ret (empty_zone, Some e)))"

definition empty_forward :: forward_plan where
  "empty_forward = \<lparr>fp_Zone = [], fp_ZoneID = [], fp_Existing = False, fp_Name = [], fp_Type = []\<rparr>"

definition empty_reverse :: reverse_plan where
  "empty_reverse = \<lparr>rv_Zone = [], rv_ZoneID = [], rv_Existing = False, rv_Owner = []\<rparr>"

definition sync_report :: "'w sync_deps \<Rightarrow> subjects \<Rightarrow> string \<Rightarrow> string \<Rightarrow> string \<Rightarrow> string \<Rightarrow> side_result \<Rightarrow> 'w \<Rightarrow> 'w" where
  "sync_report S s i zn name ty d = (case sd_err d of None \<Rightarrow> id | Some e \<Rightarrow> sync_outcome S s i zn name ty e)"

definition sync_forward ::
  "'w sync_deps \<Rightarrow> subjects \<Rightarrow> zone list \<Rightarrow> ipam_sync \<Rightarrow> addr \<Rightarrow> string \<Rightarrow> ipam_sync \<Rightarrow> ('w, ipam_sync \<times> side_result) act" where
  "sync_forward S s zs prev ip host nx =
     (let plan = PlanForward (d_Ext (sy_Deps S)) zs host ip; fw = (case plan of Inr f \<Rightarrow> f | Inl _ \<Rightarrow> empty_forward) in
      and_then (sync_target S s (err_of plan) (fp_Existing fw) (fp_ZoneID fw) (fp_Zone fw)) (\<lambda>(fz, ferr).
      let moved = (is_ForwardName prev \<noteq> [] \<and> (ferr \<noteq> None \<or> is_ForwardZoneID prev \<noteq> z_ID fz \<or> is_ForwardName prev \<noteq> fp_Name fw \<or>
            is_ForwardType prev \<noteq> fp_Type fw \<or> is_Address prev \<noteq> is_Address nx)) in
      and_then (sync_side ferr moved
          (removeValue S s (is_ForwardZoneID prev) (is_ForwardName prev) (is_ForwardType prev) (is_Address prev))
          (addValue S s fz (fp_Name fw) (fp_Type fw) (is_Address nx))) (\<lambda>d.
      effect (sync_report S s (is_IPAddressID prev) (fp_Zone fw) host (fp_Type fw) d)
      (ret (if sd_err d = None
            then nx\<lparr>is_ForwardZoneID := z_ID fz, is_ForwardName := fp_Name fw, is_ForwardType := fp_Type fw\<rparr>
            else if sd_keep d
            then nx\<lparr>is_ForwardZoneID := is_ForwardZoneID prev, is_ForwardName := is_ForwardName prev, is_ForwardType := is_ForwardType prev\<rparr>
            else nx, d)))))"

definition sync_prefix :: "'w sync_deps \<Rightarrow> subjects \<Rightarrow> string \<Rightarrow> ('w, int) act" where
  "sync_prefix S s subnetID = (if subnetID = [] then ret (-1)
     else on_result (sy_GetSubnet S (s_TenantID s) subnetID) (\<lambda>r. case r of
       Inr sn \<Rightarrow> ret (PrefixOf (isn_CIDR sn)) | Inl _ \<Rightarrow> ret (-1)))"

definition sync_reverse ::
  "'w sync_deps \<Rightarrow> subjects \<Rightarrow> zone list \<Rightarrow> ipam_sync \<Rightarrow> addr \<Rightarrow> string \<Rightarrow> string \<Rightarrow> ipam_sync \<Rightarrow> ('w, ipam_sync \<times> side_result) act" where
  "sync_reverse S s zs prev ip host subnetID nx = and_then (sync_prefix S s subnetID) (\<lambda>plen.
      let plan = PlanReverse zs ip plen; rv = (case plan of Inr r \<Rightarrow> r | Inl _ \<Rightarrow> empty_reverse) in
      and_then (sync_target S s (err_of plan) (rv_Existing rv) (rv_ZoneID rv) (rv_Zone rv)) (\<lambda>(rz, rerr).
      let moved = (is_ReverseName prev \<noteq> [] \<and> (rerr \<noteq> None \<or> is_ReverseZoneID prev \<noteq> z_ID rz \<or> is_ReverseName prev \<noteq> rv_Owner rv)) in
      and_then (sync_side rerr moved
          (removeSet S s (is_ReverseZoneID prev) (is_ReverseName prev) ''PTR'')
          (setPTR S s rz (rv_Owner rv) host)) (\<lambda>d.
      effect (sync_report S s (is_IPAddressID prev) (rv_Zone rv) (rv_Owner rv) ''PTR'' d)
      (ret (if sd_err d = None then nx\<lparr>is_ReverseZoneID := z_ID rz, is_ReverseName := rv_Owner rv\<rparr>
            else if sd_keep d then nx\<lparr>is_ReverseZoneID := is_ReverseZoneID prev, is_ReverseName := is_ReverseName prev\<rparr>
            else nx, d)))))"

definition empty_sync :: "string \<Rightarrow> string \<Rightarrow> ipam_sync" where
  "empty_sync t i = \<lparr>is_TenantID = t, is_IPAddressID = i, is_Address = [], is_Hostname = [], is_ForwardZoneID = [], is_ForwardName = [],
     is_ForwardType = [], is_ReverseZoneID = [], is_ReverseName = [], is_LastEvent = [], is_UpdatedAt = 0\<rparr>"

definition sync_upsert ::
  "'w sync_deps \<Rightarrow> subjects \<Rightarrow> ipam_sync \<Rightarrow> addr \<Rightarrow> string \<Rightarrow> string \<Rightarrow> string \<Rightarrow> ('w, unit) act" where
  "sync_upsert S s prev ip host subnetID le = and_then (r_ZonesForTenant (d_Store (sy_Deps S)) (s_TenantID s)) (\<lambda>zs.
     reading (d_Now (sy_Deps S)) (\<lambda>now.
       let nx0 = (empty_sync (s_TenantID s) (is_IPAddressID prev))\<lparr>is_Address := addr_String ip, is_Hostname := host,
           is_LastEvent := le, is_UpdatedAt := now\<rparr> in
       and_then (sync_forward S s zs prev ip host nx0) (\<lambda>(nx1, fd).
       and_then (sync_reverse S s zs prev ip host subnetID nx1) (\<lambda>(nx, rd).
       and_then (r_UpsertIPAMSync (d_Store (sy_Deps S)) nx) (\<lambda>_.
       effect (if sd_err fd = None \<or> sd_err rd = None
         then auditEvent S s SyncUpsert (is_IPAddressID prev) OutcomeOK [] (is_ForwardName nx) (is_ReverseName nx) else id)
       (case sd_noted fd of Some e \<Rightarrow> fail_with e | None \<Rightarrow>
         (case sd_noted rd of Some e \<Rightarrow> fail_with e | None \<Rightarrow> ret ())))))))"

section \<open>Clearing, releasing, handling\<close>

definition sync_drop :: "'w sync_deps \<Rightarrow> subjects \<Rightarrow> ipam_sync \<Rightarrow> ('w, unit) act" where
  "sync_drop S s prev =
     on_result (if is_ForwardName prev \<noteq> []
       then removeValue S s (is_ForwardZoneID prev) (is_ForwardName prev) (is_ForwardType prev) (is_Address prev) else ret ()) (\<lambda>f.
     on_result (if is_ReverseName prev \<noteq> [] then removeSet S s (is_ReverseZoneID prev) (is_ReverseName prev) ''PTR'' else ret ()) (\<lambda>r.
       case (case err_of f of Some e \<Rightarrow> Some e | None \<Rightarrow> err_of r) of
         Some e \<Rightarrow> effect (auditEvent S s SyncDelete (is_IPAddressID prev) OutcomeError ''error'' (is_ForwardName prev) (is_ReverseName prev))
           (fail_with e)
       | None \<Rightarrow> effect (if is_ForwardName prev \<noteq> [] \<or> is_ReverseName prev \<noteq> []
           then auditEvent S s SyncDelete (is_IPAddressID prev) OutcomeOK [] (is_ForwardName prev) (is_ReverseName prev) else id)
           (ret ())))"

definition sync_clear :: "'w sync_deps \<Rightarrow> subjects \<Rightarrow> ipam_sync \<Rightarrow> string \<Rightarrow> ('w, unit) act" where
  "sync_clear S s prev le = on_result (sync_drop S s prev) (\<lambda>r. reading (d_Now (sy_Deps S)) (\<lambda>now.
     let base = (empty_sync (is_TenantID prev) (is_IPAddressID prev))\<lparr>is_Address := is_Address prev, is_LastEvent := le, is_UpdatedAt := now\<rparr>;
         nx = (case r of Inr _ \<Rightarrow> base | Inl _ \<Rightarrow> base\<lparr>is_ForwardZoneID := is_ForwardZoneID prev, is_ForwardName := is_ForwardName prev,
           is_ForwardType := is_ForwardType prev, is_ReverseZoneID := is_ReverseZoneID prev, is_ReverseName := is_ReverseName prev\<rparr>)
     in and_then (r_UpsertIPAMSync (d_Store (sy_Deps S)) nx) (\<lambda>_. lift_res r)))"

definition sync_release :: "'w sync_deps \<Rightarrow> subjects \<Rightarrow> ipam_sync \<Rightarrow> ('w, unit) act" where
  "sync_release S s prev = and_then (sync_drop S s prev) (\<lambda>_.
     on_result (r_DeleteIPAMSync (d_Store (sy_Deps S)) (is_TenantID prev) (is_IPAddressID prev)) (\<lambda>r. case r of
       Inl e \<Rightarrow> if \<not> errIs e repo_ErrNotFound then fail_with e else ret () | Inr _ \<Rightarrow> ret ()))"

text \<open>Converging to the address IPAM returned; \<open>state\<close> is the recorded row, if any.\<close>

definition sync_converge :: "'w sync_deps \<Rightarrow> string \<Rightarrow> ipam_event \<Rightarrow> ipam_sync option \<Rightarrow> ipam_address \<Rightarrow> ('w, unit) act" where
  "sync_converge S t ev state a = (case ParseAddr (TrimSpace (ia_Address a)) of
     None \<Rightarrow> fail_with (Sent ErrMalformed)
   | Some ip0 \<Rightarrow> if addr_Zone ip0 \<noteq> [] \<or> ia_ID a \<noteq> ev_ID ev then fail_with (Sent ErrMalformed)
       else (case CanonicalHost (d_Ext (sy_Deps S)) (ia_Hostname a) of
         None \<Rightarrow> (case state of None \<Rightarrow> ret () | Some prev \<Rightarrow> sync_clear S (SystemFor t) prev (lastEvent (ev_Type ev)))
       | Some host \<Rightarrow> sync_upsert S (SystemFor t) (case state of Some p \<Rightarrow> p | None \<Rightarrow> empty_sync t (ev_ID ev)) (Unmap ip0) host (ia_SubnetID a)
           (lastEvent (ev_Type ev))))"

definition sync_Handle :: "'w sync_deps \<Rightarrow> string \<Rightarrow> ipam_event \<Rightarrow> ('w, unit) act" where
  "sync_Handle S t ev = (if t = [] \<or> ev_ID ev = [] then fail_with (Sent ErrMalformed)
     else on_result (r_GetIPAMSync (d_Store (sy_Deps S)) t (ev_ID ev)) (\<lambda>g.
       if (case g of Inl e \<Rightarrow> \<not> errIs e repo_ErrNotFound | Inr _ \<Rightarrow> False) then lift_res (map_sum id (\<lambda>_. ()) g)
       else let state = (case g of Inr p \<Rightarrow> Some p | Inl _ \<Rightarrow> None) in
         on_result (sy_GetAddress S t (ev_ID ev)) (\<lambda>r. case r of
           Inl e \<Rightarrow> if errIs e ipam_ErrNotFound
             then (case state of None \<Rightarrow> ret () | Some prev \<Rightarrow> sync_release S (SystemFor t) prev) else fail_with e
         | Inr a \<Rightarrow> sync_converge S t ev state a)))"

text \<open>One stream entry of a tenant: decoded, dropped when malformed, handled otherwise.\<close>

definition dispatch ::
  "(string \<Rightarrow> (ipam_payload option \<times> bool) option) \<Rightarrow> (string \<Rightarrow> 'w \<Rightarrow> 'w) option \<Rightarrow> 'w sync_deps \<Rightarrow> string \<Rightarrow> string gomap \<Rightarrow> 'w \<Rightarrow> 'w" where
  "dispatch json onDrop S t fs w = (case Decode json fs of
     Inl e \<Rightarrow> if errIs e ErrIgnored then w else (case onDrop of None \<Rightarrow> w | Some f \<Rightarrow> f ''malformed'' w)
   | Inr ev \<Rightarrow> snd (sync_Handle S t ev w))"

section \<open>The contract\<close>

text \<open>
  The record contract extended by the sync state and IPAM, which touch neither the
  zones of the store nor those of the server.
\<close>

locale sync_env = record_env "sy_Deps S" zs inv ps for S :: "'w sync_deps" and zs inv ps +
  assumes sync_state: "inv w \<Longrightarrow> r_GetIPAMSync (d_Store (sy_Deps S)) t i w = (g, w') \<Longrightarrow> inv w' \<and> zs w' = zs w \<and> ps w' = ps w"
      "inv w \<Longrightarrow> r_UpsertIPAMSync (d_Store (sy_Deps S)) n w = (r, w') \<Longrightarrow> inv w' \<and> zs w' = zs w \<and> ps w' = ps w"
      "inv w \<Longrightarrow> r_DeleteIPAMSync (d_Store (sy_Deps S)) t i w = (r, w') \<Longrightarrow> inv w' \<and> zs w' = zs w \<and> ps w' = ps w"
    and ipam_reads: "inv w \<Longrightarrow> sy_GetAddress S t i w = (a, w') \<Longrightarrow> inv w' \<and> zs w' = zs w \<and> ps w' = ps w"
      "inv w \<Longrightarrow> sy_GetSubnet S t i w = (b, w') \<Longrightarrow> inv w' \<and> zs w' = zs w \<and> ps w' = ps w"
begin

lemma keeps_sync_frames:
  "keeps (kept w0 t) (r_GetIPAMSync (d_Store (sy_Deps S)) u i)" "keeps (kept w0 t) (r_UpsertIPAMSync (d_Store (sy_Deps S)) n)"
  "keeps (kept w0 t) (r_DeleteIPAMSync (d_Store (sy_Deps S)) u i)" "keeps (kept w0 t) (sy_GetAddress S u i)"
  "keeps (kept w0 t) (sy_GetSubnet S u i)" "keeps (kept w0 t) (r_ZonesForTenant (d_Store (sy_Deps S)) u)"
  by (rule keeps_kept_still, unfold still_def, erule (1) sync_state ipam_reads)+
    (rule keeps_kept_still, use run_frame(5) keepsE [OF store_inv(7)] in \<open>fastforce simp: still_def\<close>)

lemma audits_kept:
  "kept w0 t w \<Longrightarrow> kept w0 t (auditDetail S s k i out rs dt w)" "kept w0 t w \<Longrightarrow> kept w0 t (auditEvent S s k i out rs f r w)"
  "kept w0 t w \<Longrightarrow> kept w0 t (sync_outcome S s i zn n ty e w)" "kept w0 t w \<Longrightarrow> kept w0 t (sync_report S s i zn n ty d w)"
proof -
  show a: "kept w0 t w \<Longrightarrow> kept w0 t (auditDetail S s k i out rs dt w)" for k out rs dt
    by (simp add: kept_def alien_def auditDetail_def other_frame)
  show "kept w0 t w \<Longrightarrow> kept w0 t (auditEvent S s k i out rs f r w)" by (simp add: auditEvent_def a)
  show o: "kept w0 t w \<Longrightarrow> kept w0 t (sync_outcome S s i zn n ty e w)" for e by (simp add: sync_outcome_def Let_def a)
  show "kept w0 t w \<Longrightarrow> kept w0 t (sync_report S s i zn n ty d w)" by (simp add: sync_report_def o split: option.split)
qed

lemma gives_sync_zone:
  assumes laws: "fqdn_law (d_Ext (sy_Deps S))" "split_law (d_Ext (sy_Deps S))" and s: "s_TenantID s = t"
  shows "gives (kept w0 t) (safe w0 t) (sync_zone S s existing i n)"
proof (cases existing)
  case True
  then show ?thesis using gives_Owned [OF s] by (simp add: sync_zone_def)
next
  case False
  have "gives (kept w0 t) (safe w0 t) (on_result (zones_ByName (sy_Deps S) s n)
      (\<lambda>q. case q of Inr own \<Rightarrow> ret own | Inl _ \<Rightarrow> fail_with e))" for e :: gerr
    by (rule gives_on_result [OF gives_ByName [OF s]]) (auto intro: gives_ret gives_fail_with)
  then show ?thesis unfolding sync_zone_def using False
    by (auto intro!: gives_on_result [OF gives_Create [OF laws s]] gives_ret gives_fail_with)
qed

lemma gives_target:
  assumes laws: "fqdn_law (d_Ext (sy_Deps S))" "split_law (d_Ext (sy_Deps S))" and s: "s_TenantID s = t"
  shows "gives (kept w0 t) (\<lambda>(z, e). e = None \<longrightarrow> safe w0 t z) (sync_target S s planErr existing i n)"
  unfolding sync_target_def
  by (cases planErr) (auto intro!: gives_on_result [OF gives_sync_zone [OF laws s]] gives_ret)

lemma keeps_lookup: "keeps (kept w0 t) (sync_lookup S s z n ty)"
  unfolding sync_lookup_def by (intro act_keeps keeps_Lookup)

lemma keeps_writes:
  assumes "safe w0 t z"
  shows "keeps (kept w0 t) (sync_write S s z inp)" "keeps (kept w0 t) (addValue S s z n ty v)" "keeps (kept w0 t) (setPTR S s z n h)"
proof -
  show w: "keeps (kept w0 t) (sync_write S s z inp)" for inp
    unfolding sync_write_def by (intro act_keeps keeps_safe_Apply [OF assms])
  show "keeps (kept w0 t) (addValue S s z n ty v)" "keeps (kept w0 t) (setPTR S s z n h)"
    unfolding addValue_def setPTR_def by (intro act_keeps keeps_lookup w)+
qed

lemma keeps_removals:
  assumes s: "s_TenantID s = t"
  shows "keeps (kept w0 t) (removeValue S s zid n ty v)" "keeps (kept w0 t) (removeSet S s zid n ty)"
proof -
  have g: "keeps (kept w0 t) (owned_or_gone S s zid f)" if "\<And>z. safe w0 t z \<Longrightarrow> keeps (kept w0 t) (f z)" for f
    unfolding owned_or_gone_def
    by (rule keeps_on_gives [OF gives_Owned [OF s]]) (simp_all add: that keeps_ret keeps_fail_with)
  show "keeps (kept w0 t) (removeValue S s zid n ty v)" unfolding removeValue_def
    by (rule g) (intro act_keeps keeps_lookup keeps_safe_Remove keeps_writes(1))
  show "keeps (kept w0 t) (removeSet S s zid n ty)" unfolding removeSet_def by (rule g) (rule keeps_safe_Remove)
qed

lemma keeps_side: "keeps I rm \<Longrightarrow> (e = None \<Longrightarrow> keeps I wr) \<Longrightarrow> keeps I (sync_side e b rm wr)"
  unfolding sync_side_def by (cases e) (auto intro!: act_keeps)

lemma keeps_sides:
  assumes laws: "fqdn_law (d_Ext (sy_Deps S))" "split_law (d_Ext (sy_Deps S))" and s: "s_TenantID s = t"
  shows "keeps (kept w0 t) (sync_forward S s zl prev ip h nx)" "keeps (kept w0 t) (sync_reverse S s zl prev ip h sub nx)"
  unfolding sync_forward_def sync_reverse_def Let_def sync_prefix_def
  by (auto intro!: act_keeps keeps_then_gives [OF gives_target [OF laws s]] keeps_side keeps_removals [OF s] keeps_writes audits_kept keeps_sync_frames)

lemma keeps_drop: "s_TenantID s = t \<Longrightarrow> keeps (kept w0 t) (sync_drop S s prev)"
  unfolding sync_drop_def by (auto intro!: act_keeps keeps_removals audits_kept)

lemma keeps_Handle:
  assumes laws: "fqdn_law (d_Ext (sy_Deps S))" "split_law (d_Ext (sy_Deps S))"
  shows "keeps (kept w0 t) (sync_Handle S t ev)"
proof -
  have s: "s_TenantID (SystemFor t) = t" by (simp add: SystemFor_def)
  have u: "keeps (kept w0 t) (sync_upsert S (SystemFor t) prev ip h sub le)" for prev ip h sub le
    unfolding sync_upsert_def Let_def
    by (auto intro!: act_keeps keeps_sides [OF laws s] keeps_sync_frames audits_kept)
  have c: "keeps (kept w0 t) (sync_clear S (SystemFor t) prev le)" "keeps (kept w0 t) (sync_release S (SystemFor t) prev)" for prev le
    unfolding sync_clear_def sync_release_def Let_def by (intro act_keeps keeps_drop [OF s] keeps_sync_frames)+
  show ?thesis unfolding sync_Handle_def sync_converge_def Let_def
    by (intro act_keeps u c keeps_sync_frames)
qed

end

end
