(* ===== verification/Zone_Lifecycle.thy ===== *)
theory Zone_Lifecycle
  imports Sample_Run
begin

text \<open>
  The zone life cycle in the wired module: what every sequence of requests keeps,
  what a failed and a successful request leave behind, and how the resolver follows.
  The facts about single operations come from the contracts of \<open>Zone_Contract\<close>,
  discharged in \<open>World\<close> for the store, the server and the recursor of the model.
\<close>

section \<open>Requests\<close>

text \<open>
  One step of the running module, seen from the zone service: a request of any
  caller, whatever its outcome, or a step of the surroundings. PowerDNS and the
  recursor may change in any way at any time (outages, edits behind the module's
  back), the clocks move, storage failures are armed, and the other services work
  on their own tables of the store.
\<close>

inductive zone_step :: "settings \<Rightarrow> world \<Rightarrow> world \<Rightarrow> bool" for c where
  create: "zones_Create (wire c) s inp w = (r, w') \<Longrightarrow> zone_step c w w'"
| update: "zones_Update (wire c) s i upd w = (r, w') \<Longrightarrow> zone_step c w w'"
| delete: "zones_Delete (wire c) s i w = (d, w') \<Longrightarrow> zone_step c w w'"
| notify: "zones_Notify (wire c) s i w = (d, w') \<Longrightarrow> zone_step c w w'"
| get: "zones_Get (wire c) s i w = (g, w') \<Longrightarrow> zone_step c w w'"
| by_name: "zones_ByName (wire c) s n w = (r, w') \<Longrightarrow> zone_step c w w'"
| find: "zones_FindForName (wire c) s n w = (r, w') \<Longrightarrow> zone_step c w w'"
| export: "zones_Export (wire c) s i w = (x, w') \<Longrightarrow> zone_step c w w'"
| outside: "honest f \<Longrightarrow> zone_step c w (w\<lparr>w_pdns := f, w_rec := g, w_ms := ms, w_now := now\<rparr>)"
| store: "mem_step (x_unicode (cfg_Ext c)) (w_mem w) m \<Longrightarrow> m_zones m = m_zones (w_mem w) \<Longrightarrow> zone_step c w (w\<lparr>w_mem := m\<rparr>)"

text \<open>Zones of different tenants are disjoint name spaces.\<close>

definition tenants_apart :: "world \<Rightarrow> bool" where
  "tenants_apart w = (\<forall>i j y z. stored w i = Some y \<and> stored w j = Some z \<and> z_TenantID y \<noteq> z_TenantID z \<longrightarrow>
     \<not> Overlaps (z_Name y) (z_Name z))"

definition well_formed :: "world \<Rightarrow> bool" where
  "well_formed w = (\<forall>i z. stored w i = Some z \<longrightarrow> zone_wf z)"

text \<open>Every stored zone is served with the stored metadata and the owner's account.\<close>

definition in_step :: "world \<Rightarrow> bool" where
  "in_step w = (\<forall>i z. stored w i = Some z \<longrightarrow> (\<exists>p. served w (z_PDNSID z) = Some p \<and> agrees z p))"

lemma zones_sound_iff: "zw.zones_sound c w \<longleftrightarrow> world_ok (x_unicode (cfg_Ext c)) w \<and> tenants_apart w \<and> well_formed w"
  unfolding zw.zones_sound_def zw.disjoint_def zw.well_def tenants_apart_def well_formed_def ..

lemma views:
  "zw.well w = well_formed w" "zw.synced w = in_step w" "zc.well w = well_formed w" "zc.synced w = in_step w"
  unfolding zw.well_def zw.synced_def zc.well_def zc.synced_def well_formed_def in_step_def by (rule refl)+

lemma zone_step_sound:
  assumes laws: "fqdn_law (cfg_Ext c)" "split_law (cfg_Ext c)" and "zone_step c w w'" and "zw.zones_sound c w"
  shows "zw.zones_sound c w'"
  using assms(3,4)
proof (cases rule: zone_step.cases)
  case (create s inp r)
  then show ?thesis using keepsE [OF zw.keeps_zones_Create] laws assms(4) by simp
next
  case (store m)
  have "mem_ok (x_unicode (cfg_Ext c)) m" using mem_step_ok [OF store(2)] assms(4) by (simp add: zones_sound_iff world_inv_def)
  then show ?thesis
    using store(1,3) assms(4) by (auto simp: zones_sound_iff world_inv_def tenants_apart_def well_formed_def stored_def)
next
  case (outside f g ms now)
  then show ?thesis using assms(4) by (auto simp: zones_sound_iff world_inv_def tenants_apart_def well_formed_def stored_def)
qed (use assms(4) in \<open>auto dest: keepsE [OF zw.keeps_zones_Update] keepsE [OF zw.keeps_zones_Delete] keepsE [OF zw.keeps_zones_Notify]
   keepsE [OF zw.keeps_zones_reads(2)] keepsE [OF zw.keeps_zones_reads(3)] keepsE [OF zw.keeps_zones_reads(4)] keepsE [OF zw.keeps_zones_reads(5)]\<close>)

text \<open>A freshly started module.\<close>

definition fresh :: "world \<Rightarrow> bool" where
  "fresh w = (\<exists>now. w_mem w = mem_New now \<and> honest (w_pdns w))"

lemma reachable_sound:
  assumes laws: "fqdn_law (cfg_Ext c)" "split_law (cfg_Ext c)" and "(zone_step c)\<^sup>*\<^sup>* w0 w" and "fresh w0"
  shows "zw.zones_sound c w"
  using assms(3)
proof (induction rule: rtranclp_induct)
  case base
  then show ?case using assms(4) unfolding zones_sound_iff fresh_def
    by (auto simp: world_inv_def mem_ok_New tenants_apart_def well_formed_def stored_def) (simp_all add: mem_New_def)
next
  case (step v w)
  then show ?case using zone_step_sound [OF laws] by blast
qed

lemma demo_facts:
  "(zone_step demo_settings)\<^sup>*\<^sup>* demo_world demo_created" "fresh demo_world" "fqdn_law (cfg_Ext demo_settings)"
  "split_law (cfg_Ext demo_settings)" "stored demo_created (z_ID demo_row) = Some demo_row" "z_TenantID demo_row = ''a''"
proof -
  show "(zone_step demo_settings)\<^sup>*\<^sup>* demo_world demo_created" using zone_step.create [OF demo_Create] by blast
  show "fresh demo_world" by (auto simp: fresh_def demo_world_def honest_def NewFake_def)
  show "fqdn_law (cfg_Ext demo_settings)" "split_law (cfg_Ext demo_settings)" by (simp_all add: demo_settings_def)
  show "stored demo_created (z_ID demo_row) = Some demo_row" by (simp add: stored_def demo_created_def committed_world_def)
  show "z_TenantID demo_row = ''a''" by (simp add: demo_row_def demo_zone_def)
qed

lemma demo_state:
  "mem_ok u (w_mem demo_created)" "m_failNext (w_mem demo_created) = []" "calm (w_pdns demo_created)"
  "zones_guard (wire demo_settings) (User ''a'' ''u'' []) ZonesManage = None"
proof -
  have "mem_CreateZone demo_row (mem_New 1) = (Inr (), w_mem demo_created)" by code_simp
  with keepsD [OF keeps_CreateZone mem_ok_New] show "mem_ok u (w_mem demo_created)" by (metis snd_conv)
  show "m_failNext (w_mem demo_created) = []" "calm (w_pdns demo_created)"
    by (simp_all add: demo_created_def committed_world_def mem_New_def provisioned_world_def NewFake_def calm_def)
  show "zones_guard (wire demo_settings) (User ''a'' ''u'' []) ZonesManage = None" by code_simp
qed

lemma demo_agrees: "agrees demo_row demo_served"
  by code_simp

lemma demo_created_view:
  "stored demo_created = [z_ID demo_row \<mapsto> demo_row]" "served demo_created = [z_PDNSID demo_row \<mapsto> demo_served]"
  by (auto simp: stored_def served_def demo_created_def committed_world_def provisioned_world_def demo_row_def demo_zone_def fun_eq_iff)

lemma demo_in_step: "well_formed demo_created" "in_step demo_created"
  using reachable_sound [OF demo_facts(3,4,1,2)] demo_agrees
  by (auto simp: zones_sound_iff in_step_def demo_created_view split: if_splits)

text \<open>
  C1: Tenant isolation. Starting from an empty store, after any sequence of zone
  requests from any callers, in any order and with any failures of storage,
  PowerDNS and the recursor in between, no zone of one tenant is equal to, above or
  below a zone of another tenant.
\<close>

theorem tenants_never_overlap:
  assumes "fqdn_law (cfg_Ext c)" "split_law (cfg_Ext c)" and "(zone_step c)\<^sup>*\<^sup>* w0 w" and "fresh w0"
  shows "tenants_apart w"
  using reachable_sound [OF assms] by (simp add: zones_sound_iff)

theorem tenants_never_overlap_witness:
  "stored demo_created (z_ID demo_row) = Some demo_row \<and> tenants_apart demo_created"
  using tenants_never_overlap [OF demo_facts(3,4,1,2)] demo_facts(5) by blast

text \<open>
  C13: The type of a stored zone. After any sequence of requests every stored zone has
  a canonical name that is also its PowerDNS id, an owner, a known kind, primaries
  exactly when the kind needs them, no duplicated primary or name server, and a
  bounded description.
\<close>

theorem stored_zones_well_formed:
  assumes "fqdn_law (cfg_Ext c)" "split_law (cfg_Ext c)" and "(zone_step c)\<^sup>*\<^sup>* w0 w" and "fresh w0"
    and "stored w i = Some z"
  shows "zone_wf z"
  using reachable_sound [OF assms(1-4)] assms(5) by (auto simp: zones_sound_iff well_formed_def)
theorem stored_zones_well_formed_witness: "zone_wf demo_row"
  by (rule stored_zones_well_formed [OF demo_facts(3,4,1,2,5)])

section \<open>Atomicity of create and update\<close>

text \<open>
  C2: A refused creation leaves no trace. When PowerDNS answers, a creation that fails
  for any reason (invalid input, a name taken, an unknown template, a failing store)
  leaves the stored zones and the served zones exactly as they were.
\<close>

theorem failed_create_changes_nothing:
  assumes "fqdn_law (cfg_Ext c)" "split_law (cfg_Ext c)" and calm: "world_calm (x_unicode (cfg_Ext c)) w"
    and run: "zones_Create (wire c) s inp w = (Inl e, w')"
  shows "stored w' = stored w \<and> served w' = served w"
proof -
  have "zc.rolled_back c w w'" using zc.zones_Create_outcome(2) [OF _ _ calm run refl] assms(1,2) by simp
  then show ?thesis using calm_calls(1) unfolding zc.rolled_back_def by fastforce
qed

theorem failed_create_changes_nothing_witness:
  "\<exists>e w'. zones_Create (wire demo_settings) (User ''a'' ''u'' []) demo_input (demo_world\<lparr>w_mem := failing_mem\<rparr>) = (Inl e, w') \<and>
     stored w' = Map.empty \<and> served w' = Map.empty"
proof -
  obtain w' where w': "zones_Create (wire demo_settings) (User ''a'' ''u'' []) demo_input (demo_world\<lparr>w_mem := failing_mem\<rparr>) =
     (Inl (Opaque ''memstore: injected failure in CreateZone''), w')" using failing_Create by blast
  have "world_calm (x_unicode (cfg_Ext demo_settings)) (demo_world\<lparr>w_mem := failing_mem\<rparr>)"
    by (simp add: world_inv_def failing_mem_def mem_FailNext_def mem_ok_New demo_world_def calm_def NewFake_def)
  from failed_create_changes_nothing [OF demo_facts(3,4) this w'] w' show ?thesis
    by (auto simp: stored_def served_def failing_mem_def mem_FailNext_def mem_New_def demo_world_def NewFake_def)
qed

lemma update_failed_still:
  assumes calm: "world_calm (x_unicode (cfg_Ext c)) w" and "well_formed w" "in_step w"
    and run: "zones_Update (wire c) s i upd w = (Inl e, w')"
  shows "stored w' = stored w \<and> served w' = served w"
proof -
  consider "zc.still c w w'" | prev where "stored w i = Some prev" "zc.not_updated c prev w w'"
    using zc.zones_Update_outcome(2) [OF calm _ run refl] assms(2) by (auto simp: views)
  then show ?thesis
  proof cases
    case (2 prev)
    obtain p where p: "served w (z_PDNSID prev) = Some p" using assms(3) 2(1) by (auto simp: in_step_def)
    have dom: "served w' (z_PDNSID prev) \<noteq> None" using 2(2) p unfolding zc.not_updated_def by fastforce
    show ?thesis using zc.not_updated_synced [OF _ 2] assms(3) calm_calls(2) dom by (auto simp: views)
  qed (simp add: zc.still_def)
qed

text \<open>
  C21: A refused update leaves no trace. When PowerDNS answers and the stored zones are
  in step with the served ones, an update that fails (even in the store, after
  PowerDNS was changed) leaves the stored and the served zones as they were.
\<close>

theorem failed_update_changes_nothing:
  assumes calm: "world_calm (x_unicode (cfg_Ext c)) w" and "well_formed w" "in_step w"
    and run: "zones_Update (wire c) s i upd w = (Inl e, w')"
  shows "stored w' = stored w \<and> served w' = served w"
  by (rule update_failed_still [OF assms])

theorem failed_update_changes_nothing_witness:
  "\<exists>e w'. zones_Update (wire demo_settings) (User ''a'' ''u'' []) (z_ID demo_row) demo_update failing_world = (Inl e, w') \<and>
     stored w' = [z_ID demo_row \<mapsto> demo_row] \<and> served w' = [z_PDNSID demo_row \<mapsto> demo_served]"
proof -
  obtain w' where w': "zones_Update (wire demo_settings) (User ''a'' ''u'' []) (z_ID demo_row) demo_update failing_world =
     (Inl (Opaque ''memstore: injected failure in UpdateZone''), w')" using failing_Update by blast
  have v: "stored failing_world = stored demo_created" "served failing_world = served demo_created"
    by (simp_all add: stored_def served_def failing_world_def mem_FailNext_def)
  have c: "world_calm (x_unicode (cfg_Ext demo_settings)) failing_world"
    using demo_state(1,3) by (simp add: world_inv_def failing_world_def mem_FailNext_def)
  have "well_formed failing_world" "in_step failing_world" using demo_in_step v by (simp_all add: well_formed_def in_step_def)
  from failed_update_changes_nothing [OF c this w'] w' v demo_created_view show ?thesis by metis
qed

text \<open>
  C7: What a creation does. It succeeds only for a name that validation makes
  canonical, that no tenant has stored, that overlaps no zone of another tenant and
  that PowerDNS does not serve (an existing zone is never adopted); afterwards the
  zone is stored for the caller's tenant and served with the stored metadata and the
  tenant as account, and every other zone is as before.
\<close>

theorem create_never_adopts:
  assumes "fqdn_law (cfg_Ext c)" "split_law (cfg_Ext c)" and ok: "world_ok (x_unicode (cfg_Ext c)) w"
    and run: "zones_Create (wire c) s inp w = (Inr z, w')"
  shows "ZoneName (cfg_Ext c) (ci_Name inp) = Inr (z_Name z) \<and> z_TenantID z = s_TenantID s \<and>
    served w (z_Name z) = None \<and> (\<forall>i y. stored w i = Some y \<longrightarrow> z_Name y \<noteq> z_Name z \<and>
      (z_TenantID y \<noteq> s_TenantID s \<longrightarrow> \<not> Overlaps (z_Name z) (z_Name y))) \<and>
    (\<exists>row p. stored_as z row \<and> agrees z p \<and> pz_Account p = s_TenantID s \<and>
       stored w (z_ID z) = None \<and> stored w' = (stored w)(z_ID z \<mapsto> row) \<and> served w' = (served w)(z_Name z \<mapsto> p))"
proof -
  have cr: "zw.created z w w'" and t: "z_TenantID z = s_TenantID s" and n: "ZoneName (cfg_Ext c) (ci_Name inp) = Inr (z_Name z)"
    using zw.zones_Create_outcome(3) [OF _ _ ok run refl] assms(1,2) by simp_all
  have sep: "z_Name y \<noteq> z_Name z \<and> (z_TenantID y \<noteq> s_TenantID s \<longrightarrow> \<not> Overlaps (z_Name z) (z_Name y))" if "stored w i = Some y" for i y
    using cr that t unfolding zw.created_def zw.separate_def by (metis InZone_refl Overlaps_def)
  show ?thesis using cr t n sep unfolding zw.created_def by (auto simp: agrees_def)
qed

theorem create_never_adopts_witness:
  "\<exists>row p. stored_as demo_row row \<and> agrees demo_row p \<and> pz_Account p = ''a'' \<and>
     stored demo_created = (stored demo_world)(z_ID demo_row \<mapsto> row) \<and> served demo_created = (served demo_world)(''a.com.'' \<mapsto> p)"
proof -
  have "world_ok (x_unicode (cfg_Ext demo_settings)) demo_world"
    by (simp add: world_inv_def demo_world_def mem_ok_New honest_def NewFake_def)
  from create_never_adopts [OF demo_facts(3,4) this demo_Create] show ?thesis
    by (auto simp: User_def demo_row_def demo_zone_def)
qed

section \<open>Foreign zones\<close>

text \<open>
  An action fails without any effect: at most an armed storage failure is used up; the
  tables of the store, PowerDNS, the recursor, the audit queue, the events and the id
  generator are as before.
\<close>

definition refused :: "(world, 'a) act \<Rightarrow> world \<Rightarrow> bool" where
  "refused m w = (\<exists>e fn. m w = (Inl e, w\<lparr>w_mem := (w_mem w)\<lparr>m_failNext := fn\<rparr>\<rparr>))"

lemma foreign_owned:
  assumes "\<forall>z. stored w i = Some z \<longrightarrow> z_TenantID z \<noteq> s_TenantID s"
  shows "refused (zones_owned (wire c) s i) w"
proof -
  obtain e where e: "mem_zone (w_mem w) (s_TenantID s) i = Inl e"
    using assms mem_zone_Inr [of "w_mem w" "s_TenantID s" i] by (cases "mem_zone (w_mem w) (s_TenantID s) i") (auto simp: stored_def)
  have same: "w = w\<lparr>w_mem := (w_mem w)\<lparr>m_failNext := m_failNext (w_mem w)\<rparr>\<rparr>" by simp
  show ?thesis using e unfolding refused_def
    by (auto simp: zones_owned_def on_result_def on_mem_def focus_def mem_GetZone_def mem_op_def mem_fail_def fail_with_def) (use same in metis)
qed

lemma refused_first: "refused m w \<Longrightarrow> refused (and_then m k) w"
  by (auto simp: refused_def and_then_def)

lemma refused_check: "refused m w \<Longrightarrow> refused (check g m) w"
proof (cases g)
  case (Some e)
  have "w = w\<lparr>w_mem := (w_mem w)\<lparr>m_failNext := m_failNext (w_mem w)\<rparr>\<rparr>" by simp
  then show ?thesis unfolding refused_def check_def Some fail_with_def by (metis option.simps(5))
qed (simp add: check_def)

text \<open>
  C5: Zones of other tenants are out of reach. For an id that is not a zone of the
  caller's tenant, reading, updating, deleting, exporting and notifying all fail, and
  nothing happens in the store, PowerDNS, the recursor, the audit queue, the event
  stream or the id generator.
\<close>

theorem foreign_zone_out_of_reach:
  assumes "\<forall>z. stored w i = Some z \<longrightarrow> z_TenantID z \<noteq> s_TenantID s"
  shows "refused (zones_Get (wire c) s i) w \<and> refused (zones_Update (wire c) s i upd) w \<and> refused (zones_Delete (wire c) s i) w \<and>
    refused (zones_Export (wire c) s i) w \<and> refused (zones_Notify (wire c) s i) w"
  unfolding zones_Get_def zones_Owned_def zones_Update_def zones_Delete_def zones_Export_def zones_Notify_def
  by (intro conjI refused_check refused_first foreign_owned [OF assms])

theorem foreign_zone_out_of_reach_witness:
  "refused (zones_Delete (wire demo_settings) (User ''b'' ''u'' []) (z_ID demo_row)) demo_created \<and>
   stored demo_created (z_ID demo_row) = Some demo_row"
proof -
  have "\<forall>z. stored demo_created (z_ID demo_row) = Some z \<longrightarrow> z_TenantID z \<noteq> s_TenantID (User ''b'' ''u'' [])"
    using demo_facts(5,6) by (simp add: User_def)
  from foreign_zone_out_of_reach [OF this] demo_facts(5) show ?thesis by blast
qed

section \<open>Deletion\<close>

lemma mem_quiet_ops:
  assumes "m_failNext m = []"
  shows "mem_GetZone t i m = (mem_zone m t i, m)"
    "\<exists>m1. mem_ClearSyncZone t i m = (Inr (), m1) \<and> m_zones m1 = m_zones m \<and> m_failNext m1 = []"
    "mem_zone m t i = Inr z \<Longrightarrow> \<exists>m1. mem_DeleteZone t i m = (Inr (), m1)"
  using assms
  by (auto simp: mem_GetZone_def mem_ClearSyncZone_def mem_DeleteZone_def mem_op_def mem_fail_def Let_def split: option.split)

lemma calm_DeleteZone:
  assumes "calm (w_pdns w)"
  obtains r f where "on_pdns (fake_DeleteZone i) w = (r, w\<lparr>w_pdns := f\<rparr>)" "\<And>e. r = Inl e \<Longrightarrow> errIs e pdns_ErrNotFound"
proof -
  obtain r f where r: "fake_DeleteZone i (w_pdns w) = (r, f)" by fastforce
  have nf: "errIs notFound pdns_ErrNotFound" by code_simp
  have "errIs e pdns_ErrNotFound" if "r = Inl e" for e
    using r that assms nf by (auto simp: fake_DeleteZone_def fake_op_def fake_begin_def calm_def fake_zone_def split: option.splits)
  then show ?thesis using that r by (simp add: on_pdns_def focus_def)
qed

lemma zones_delete_completes:
  assumes mf: "m_failNext (w_mem w) = []" and calm: "calm (w_pdns w)" and z: "stored w (z_ID z) = Some z"
  shows "\<exists>w'. zones_delete (wire c) z w = (Inr (), w')"
proof -
  let ?u = "x_unicode (cfg_Ext c)"
  obtain d f where d: "on_pdns (fake_DeleteZone (z_PDNSID z)) w = (d, w\<lparr>w_pdns := f\<rparr>)" "\<And>e. d = Inl e \<Longrightarrow> errIs e pdns_ErrNotFound"
    using calm_DeleteZone [OF calm] by blast
  obtain g where g: "removeForward (wire c) (z_Name z) (w\<lparr>w_pdns := f\<rparr>) = w\<lparr>w_pdns := f, w_rec := g\<rparr>"
    by (cases "rfake_RemoveForward ?u (z_Name z) (w_rec w)") (simp add: removeForward_def on_rec_def focus_def)
  obtain m1 where m1: "mem_ClearSyncZone (z_TenantID z) (z_ID z) (w_mem w) = (Inr (), m1)" "m_zones m1 = m_zones (w_mem w)" "m_failNext m1 = []"
    using mem_quiet_ops(2) [OF mf] by blast
  have "mem_zone m1 (z_TenantID z) (z_ID z) = Inr z" using z m1(2) by (simp add: mem_zone_Inr stored_def)
  then obtain m2 where m2: "mem_DeleteZone (z_TenantID z) (z_ID z) m1 = (Inr (), m2)" using mem_quiet_ops(3) [OF m1(3)] by blast
  show ?thesis using d g m1 m2
    by (cases d) (simp_all add: zones_delete_def on_result_def and_then_def on_mem_def focus_def)
qed

text \<open>
  C14: A deletion completes. When neither the store nor PowerDNS fails, a permitted
  deletion of a zone of the caller's tenant succeeds and removes the zone from the
  store and from PowerDNS; also when PowerDNS no longer has the zone, so a deletion
  that failed half-way is completed by repeating it.
\<close>

theorem delete_completes:
  assumes perm: "zones_guard (wire c) s ZonesManage = None" and ok: "mem_ok (x_unicode (cfg_Ext c)) (w_mem w)"
    and mf: "m_failNext (w_mem w) = []" and calm: "calm (w_pdns w)"
    and own: "stored w i = Some z" "z_TenantID z = s_TenantID s"
  shows "\<exists>w'. zones_Delete (wire c) s i w = (Inr (), w') \<and> stored w' = (stored w)(i := None) \<and>
    served w' = (served w)(z_PDNSID z := None)"
proof -
  have id: "z_ID z = i" using mem_zone_laws(1) [OF ok] own(1) by (simp add: stored_def)
  obtain w1 where w1: "zones_delete (wire c) z w = (Inr (), w1)" using zones_delete_completes [OF mf calm] own(1) id by blast
  have "mem_zone (w_mem w) (s_TenantID s) i = Inr z" using own by (simp add: mem_zone_Inr stored_def)
  then have "zones_owned (wire c) s i w = (Inr z, w)"
    using mem_quiet_ops(1) [OF mf] by (simp add: zones_owned_def on_result_def on_mem_def focus_def ret_def)
  then obtain w' where w': "zones_Delete (wire c) s i w = (Inr (), w')"
    using perm w1 by (simp add: zones_Delete_def check_def and_then_def on_result_def ret_def)
  have "world_ok (x_unicode (cfg_Ext c)) w" using ok calm steadyD(1) [OF steady_servers(2)] by (simp add: world_inv_def)
  from zw.zones_Delete_outcome(3) [OF this w' refl] w' own(1) show ?thesis by auto
qed

theorem delete_completes_witness:
  "\<exists>w'. zones_Delete (wire demo_settings) (User ''a'' ''u'' []) (z_ID demo_row) demo_created = (Inr (), w') \<and>
     stored w' = (stored demo_created)(z_ID demo_row := None) \<and> served w' = (served demo_created)(z_PDNSID demo_row := None)"
  using delete_completes [OF demo_state(4) demo_state(1-3) demo_facts(5)] demo_facts(6) by (simp add: User_def)

section \<open>Store and server stay in step\<close>

text \<open>
  C22: Store and server stay in step. When PowerDNS answers, creations and updates,
  successful or refused and whatever the store does, and successful deletions keep
  every stored zone served with the stored kind, primaries and DNSSEC flag and with
  the owner's account.
\<close>

theorem zones_stay_in_step:
  assumes "fqdn_law (cfg_Ext c)" "split_law (cfg_Ext c)" and calm: "world_calm (x_unicode (cfg_Ext c)) w"
    and wf: "well_formed w" and st: "in_step w"
  shows "in_step (snd (zones_Create (wire c) s inp w)) \<and> in_step (snd (zones_Update (wire c) s i upd w)) \<and>
    (zones_Delete (wire c) s i w = (Inr (), w') \<longrightarrow> in_step w')"
proof (intro conjI impI)
  have st': "zc.synced w" using st by (simp add: views)
  obtain r v where cr: "zones_Create (wire c) s inp w = (r, v)" by fastforce
  have "zc.synced v" using zc.synced_Create [OF _ _ calm st' cr] assms(1,2) by simp
  then show "in_step (snd (zones_Create (wire c) s inp w))" using cr by (simp add: views)
  obtain q x where up: "zones_Update (wire c) s i upd w = (q, x)" by fastforce
  show "in_step (snd (zones_Update (wire c) s i upd w))"
  proof (cases q)
    case (Inl e)
    then have "stored x = stored w \<and> served x = served w" using update_failed_still [OF calm wf st] up by blast
    then show ?thesis using st up by (simp add: in_step_def)
  next
    case (Inr z')
    then obtain prev nx where p: "stored w i = Some prev" "zones_next (cfg_Ext c) prev upd = Inr nx" "zc.updated prev nx z' w x"
      using zc.zones_Update_outcome(3) [OF calm _ up] wf by (auto simp: views)
    have "z_ID prev = i" using mem_zone_laws(1) calm p(1) by (auto simp: world_inv_def stored_def)
    then have "zc.synced x" using zc.synced_updated [OF calm st' _ _ p(3)] p(1,2) by simp
    then show ?thesis using up by (simp add: views)
  qed
next
  assume d: "zones_Delete (wire c) s i w = (Inr (), w')"
  obtain z where z: "stored w i = Some z" "stored w' = (stored w)(i := None)" "served w' = (served w)(z_PDNSID z := None)"
    using zc.zones_Delete_outcome(3) [OF calm d refl] by blast
  have "zc.synced w'" by (rule zc.synced_deleted [OF calm _ z]) (use st in \<open>simp add: views\<close>)
  then show "in_step w'" by (simp add: views)
qed

theorem zones_stay_in_step_witness:
  "in_step (snd (zones_Update (wire demo_settings) (User ''a'' ''u'' []) (z_ID demo_row) demo_update failing_world)) \<and>
   in_step (snd (zones_Create (wire demo_settings) (User ''b'' ''u'' []) demo_input demo_created))"
proof -
  have c: "world_calm (x_unicode (cfg_Ext demo_settings)) demo_created" "world_calm (x_unicode (cfg_Ext demo_settings)) failing_world"
    using demo_state(1,3) by (simp_all add: world_inv_def failing_world_def mem_FailNext_def)
  have v: "stored failing_world = stored demo_created" "served failing_world = served demo_created"
    by (simp_all add: stored_def served_def failing_world_def mem_FailNext_def)
  have f: "well_formed failing_world" "in_step failing_world" using demo_in_step v by (simp_all add: well_formed_def in_step_def)
  show ?thesis
    using zones_stay_in_step [OF demo_facts(3,4) c(1) demo_in_step] zones_stay_in_step [OF demo_facts(3,4) c(2) f] by blast
qed

section \<open>Resolver forwarding\<close>

lemma canon_zone:
  assumes "canonical us z"
  shows "recursor_canon u z = Inr z"
proof -
  obtain l ls where z: "z = Join ''.'' (l # ls) @ ''.''" and l: "labelOK l us" using assms by (auto simp: canonical_def)
  have "Join ''.'' (l # ls) \<noteq> []" using labelOK_nonempty [OF l] by (cases ls) auto
  moreover have "TrimSpace z = z" "ToLower u z = z"
    using plain_name_trim(1) [OF canonical_plain [OF assms]] lower_canonical [OF assms] by simp_all
  ultimately show ?thesis by (auto simp: recursor_canon_def Let_def TrimSuffix_def z)
qed

text \<open>
  C6: A reconciliation pass makes the resolver agree with the store. After a pass
  without errors every stored zone is forwarded to the configured target, the
  configured static forwards and the root are as before, and every other forward is
  gone (those left behind by deleted zones or by missed updates).
\<close>

theorem reconcile_restores_forwards:
  assumes ok: "mem_ok (x_unicode (cfg_Ext c)) (w_mem w)" and wf: "well_formed w" and en: "rf_enabled (w_rec w)"
    and keys: "\<forall>k. forwards w k \<noteq> None \<longrightarrow> recursor_canon (x_unicode (cfg_Ext c)) k = Inr k \<or> k = ''.''"
    and run: "Reconcile (reconcile_of c) w = (Inr (), w')"
  shows "forwards w' k = (if \<exists>i z. stored w i = Some z \<and> z_Name z = k then Some (rf_Target (w_rec w))
    else if k = ''.'' \<or> k \<in> canonicalForward (x_unicode (cfg_Ext c)) ` set (cfg_Static c) then forwards w k else None)"
proof -
  let ?u = "x_unicode (cfg_Ext c)"
  have en': "rc_Enabled (world_recursor ?u) w" using en by simp
  obtain ms where ms: "fst (rr_Names (reconcile_of c) w) = Inr ms"
    using fwd.Reconcile_run [OF serves_reconcile en' run] by force
  have set: "set ms = {z_Name z |i z. stored w i = Some z}" by (rule AllZoneNames_run [OF ok ms])
  have canon: "recursor_canon ?u z = Inr z" if "z \<in> set ms" for z
    using that wf canon_zone unfolding set well_formed_def zone_wf_def by blast
  have dom: "recursor_canon ?u z = Inr z \<or> z = ''.''" if "z \<in> dom (forwards w)" for z using that keys by auto
  have kept: "set (kept_names (reconcile_of c) []) = insert ''.'' (canonicalForward ?u ` set (cfg_Static c))"
    by (simp add: kept_names_def reconcile_of_def Let_def)
  show ?thesis
    using fwd.Reconcile_exact [OF serves_reconcile en' run ms canon dom, of k] unfolding set kept by auto
qed


definition stale_world :: world where
  "stale_world = demo_created\<lparr>w_rec := NewRFake\<lparr>rf_forwards := [(''old.com.'', ''10.0.0.1:53''), (''.'', ''9.9.9.9:53'')]\<rparr>\<rparr>"

lemma stale_run: "fst (Reconcile (reconcile_of demo_settings) stale_world) = Inr ()"
  by code_simp

theorem reconcile_restores_forwards_witness:
  "\<exists>w'. Reconcile (reconcile_of demo_settings) stale_world = (Inr (), w') \<and> forwards w' ''a.com.'' = Some ''172.20.0.5:53'' \<and>
     forwards w' ''old.com.'' = None \<and> forwards w' ''.'' = Some ''9.9.9.9:53''"
proof -
  obtain w' where run: "Reconcile (reconcile_of demo_settings) stale_world = (Inr (), w')" using stale_run by (metis prod.collapse)
  have ok: "mem_ok (x_unicode (cfg_Ext demo_settings)) (w_mem stale_world)" "well_formed stale_world" "rf_enabled (w_rec stale_world)"
    using demo_state(1) demo_in_step(1) by (simp_all add: stale_world_def well_formed_def stored_def NewRFake_def)
  have c: "recursor_canon (x_unicode (cfg_Ext demo_settings)) ''old.com.'' = Inr ''old.com.''" by code_simp
  have keys: "\<forall>k. forwards stale_world k \<noteq> None \<longrightarrow> recursor_canon (x_unicode (cfg_Ext demo_settings)) k = Inr k \<or> k = ''.''"
    using c by (auto simp: forwards_def stale_world_def split: if_splits)
  note ex = reconcile_restores_forwards [OF ok keys run]
  have st: "stored stale_world = [z_ID demo_row \<mapsto> demo_row]"
    by (rule trans [OF _ demo_created_view(1)]) (simp add: stored_def stale_world_def)
  have n: "z_Name demo_row = ''a.com.''" by (simp add: demo_row_def demo_zone_def)
  have s: "cfg_Static demo_settings = []" by (simp add: demo_settings_def)
  have "(\<exists>i z. stored stale_world i = Some z \<and> z_Name z = k) \<longleftrightarrow> k = ''a.com.''" for k
    unfolding st using n by auto
  note ex' = ex [unfolded this s]
  show ?thesis using ex' [of "''a.com.''"] ex' [of "''old.com.''"] ex' [of "''.''"] run
    by (simp add: stale_world_def forwards_def NewRFake_def)
qed

lemma unready_call:
  assumes "rf_enabled f" and "rf_NotReady f \<or> rf_Down f" and "rf_failNext f = []"
  shows "rfake_Ready f = (Inl (Sent recursor_ErrUnavailable), f\<lparr>rf_Calls := rf_Calls f @ [''Ready'']\<rparr>)"
proof -
  have "TrimSpace (''Ready'' @ '' '') = ''Ready''" by code_simp
  then show ?thesis using assms by (auto simp: rfake_Ready_def rfake_op_def rfake_begin_def Let_def)
qed

lemma unready_loop:
  assumes "rf_enabled (w_rec w)" and "rf_NotReady (w_rec w) \<or> rf_Down (w_rec w)" and "rf_failNext (w_rec w) = []"
    and "\<And>v. \<not> rr_Cancelled R v"
  shows "ready_loop R (world_recursor u) (Suc n) err w = (Inl (Sent recursor_ErrUnavailable),
    w\<lparr>w_rec := (w_rec w)\<lparr>rf_Calls := rf_Calls (w_rec w) @ replicate (Suc n) ''Ready''\<rparr>\<rparr>)"
  using assms(1-3)
proof (induction n arbitrary: err w)
  case 0
  then show ?case by (simp add: on_rec_def focus_def unready_call finish_def)
next
  case (Suc n)
  let ?w = "w\<lparr>w_rec := (w_rec w)\<lparr>rf_Calls := rf_Calls (w_rec w) @ [''Ready'']\<rparr>\<rparr>"
  have "ready_loop R (world_recursor u) (Suc (Suc n)) err w =
      ready_loop R (world_recursor u) (Suc n) (Some (Sent recursor_ErrUnavailable)) ?w"
    using Suc.prems assms(4) by (simp add: on_rec_def focus_def unready_call)
  also have "\<dots> = (Inl (Sent recursor_ErrUnavailable),
      w\<lparr>w_rec := (w_rec w)\<lparr>rf_Calls := rf_Calls (w_rec w) @ replicate (Suc (Suc n)) ''Ready''\<rparr>\<rparr>)"
    using Suc.IH [of ?w] Suc.prems by simp
  finally show ?case .
qed

text \<open>
  C23: Waiting for the resolver ends. While the resolver is down or not ready, a
  reconciliation on demand asks it exactly thirty times and then gives up with
  "unavailable"; no forward is changed and neither the store nor PowerDNS is called.
\<close>

theorem reconcile_gives_up:
  assumes "rf_enabled (w_rec w)" and "rf_NotReady (w_rec w) \<or> rf_Down (w_rec w)" and "rf_failNext (w_rec w) = []"
  shows "ReconcileNow (reconcile_of c) w = (Inl (Sent recursor_ErrUnavailable),
    w\<lparr>w_rec := (w_rec w)\<lparr>rf_Calls := rf_Calls (w_rec w) @ replicate 30 ''Ready''\<rparr>\<rparr>)"
proof -
  have c: "rr_Client (reconcile_of c) = Some (world_recursor (x_unicode (cfg_Ext c)))" "rr_readyAttempts (reconcile_of c) = 30"
    "\<not> rr_Cancelled (reconcile_of c) v" for v
    by (simp_all add: reconcile_of_def Let_def rr_readyAttempts_def)
  have n: "nat 30 = Suc 29" by simp
  show ?thesis using assms c unready_loop [OF assms c(3), of "x_unicode (cfg_Ext c)" 29 None]
    unfolding ReconcileNow_def rr_enabled_def c n by simp
qed

theorem reconcile_gives_up_witness:
  "\<exists>w'. ReconcileNow (reconcile_of demo_settings) (demo_created\<lparr>w_rec := rfake_SetReady False NewRFake\<rparr>) =
      (Inl (Sent recursor_ErrUnavailable), w') \<and> rf_Calls (w_rec w') = replicate 30 ''Ready''"
proof -
  let ?w = "demo_created\<lparr>w_rec := rfake_SetReady False NewRFake\<rparr>"
  have "rf_enabled (w_rec ?w)" "rf_NotReady (w_rec ?w) \<or> rf_Down (w_rec ?w)" "rf_failNext (w_rec ?w) = []" "rf_Calls (w_rec ?w) = []"
    by (simp_all add: rfake_SetReady_def NewRFake_def)
  with reconcile_gives_up [of ?w demo_settings] show ?thesis by simp
qed

section \<open>Concurrent creations\<close>

text \<open>
  The steps of two creations that run at the same time: both pass their ownership
  checks before either of them writes.
\<close>

definition create_both :: "'w deps \<Rightarrow> zone \<Rightarrow> zone \<Rightarrow> ('w, zone \<times> gerr, zone \<times> zone) eact" where
  "create_both D y z = and_then (map_err (Pair y) (zones_ownership D y)) (\<lambda>_. and_then (map_err (Pair z) (zones_ownership D z)) (\<lambda>_.
     and_then (map_err (Pair y) (zones_provision D y [])) (\<lambda>p. and_then (zones_commit D y p) (\<lambda>y'.
     and_then (map_err (Pair z) (zones_provision D z [])) (\<lambda>q. and_then (zones_commit D z q) (\<lambda>z'. ret (y', z')))))))"

definition other_zone :: zone where
  "other_zone = demo_zone\<lparr>z_ID := ''00000000-0005-7001-8000-000000000000'', z_TenantID := ''b'', z_Name := ''x.a.com.'',
     z_PDNSID := ''x.a.com.''\<rparr>"

definition race_checked :: world where
  "race_checked = prepared_world\<lparr>w_pdns := NewFake\<lparr>f_Calls := [''GetZone a.com.'', ''GetZone x.a.com.'']\<rparr>\<rparr>"

definition race_first :: world where
  "race_first = race_checked\<lparr>w_mem := (mem_New 1)\<lparr>m_zones := [(z_ID demo_row, demo_row)]\<rparr>,
    w_pdns := NewFake\<lparr>f_zones := [(''a.com.'', demo_served)],
     f_Calls := [''GetZone a.com.'', ''GetZone x.a.com.'', ''CreateZone a.com.'']\<rparr>\<rparr>"

definition race_provisioned :: world where
  "race_provisioned = race_checked\<lparr>w_pdns := NewFake\<lparr>f_zones := [(''a.com.'', demo_served)],
     f_Calls := [''GetZone a.com.'', ''GetZone x.a.com.'', ''CreateZone a.com.'']\<rparr>\<rparr>"

lemma race_stages:
  "zones_ownership (wire demo_settings) other_zone checked_world = (Inr (), race_checked)"
  "zones_provision (wire demo_settings) demo_zone [] race_checked = (Inr demo_served, race_provisioned)"
  "zones_commit (wire demo_settings) demo_zone demo_served race_provisioned = (Inr demo_row, race_first)"
  by code_simp+

definition race_second :: "pzone \<times> world" where
  "race_second = (case zones_provision (wire demo_settings) other_zone [] race_first of (Inr q, w) \<Rightarrow> (q, w) | _ \<Rightarrow> (demo_served, race_first))"

lemma race_second:
  "zones_provision (wire demo_settings) other_zone [] race_first = (Inr (fst race_second), snd race_second)"
  "pz_ID (fst race_second) = ''x.a.com.''" "w_mem (snd race_second) = w_mem race_first" "w_now (snd race_second) = 7"
  by code_simp+

definition race_final :: world where
  "race_final = snd (zones_commit (wire demo_settings) other_zone (fst race_second) (snd race_second))"

lemma race_last:
  "fst (zones_commit (wire demo_settings) other_zone (fst race_second) (snd race_second)) =
     Inr (other_zone\<lparr>z_CreatedAt := 7, z_UpdatedAt := 7\<rparr>)"
  "m_zones (w_mem race_final) = [(z_ID demo_row, demo_row), (z_ID other_zone, other_zone\<lparr>z_CreatedAt := 7, z_UpdatedAt := 7\<rparr>)]"
  by code_simp+

text \<open>
  C24: The overlap check is not atomic with the insert. When two tenants create a zone
  and a zone below it at the same time, both creations can pass their checks and
  succeed, and the zones of two tenants overlap. (Equal names cannot be created
  twice, the insert itself refuses them; only the overlap rule depends on the check.)
\<close>

theorem concurrent_creates_can_overlap:
  "\<exists>y z w'. create_both (wire demo_settings) demo_zone other_zone prepared_world = (Inr (y, z), w') \<and>
     z_TenantID y \<noteq> z_TenantID z \<and> Overlaps (z_Name y) (z_Name z) \<and>
     stored w' (z_ID y) = Some y \<and> stored w' (z_ID z) = Some z \<and> \<not> tenants_apart w'"
proof -
  let ?z = "other_zone\<lparr>z_CreatedAt := 7, z_UpdatedAt := 7\<rparr>"
  have run: "create_both (wire demo_settings) demo_zone other_zone prepared_world = (Inr (demo_row, ?z), race_final)"
    using race_last(1) unfolding race_final_def
    by (cases "zones_commit (wire demo_settings) other_zone (fst race_second) (snd race_second)")
      (simp add: create_both_def and_then_def map_err_def demo_ownership race_stages race_second(1) ret_def)
  have t: "z_TenantID demo_row \<noteq> z_TenantID ?z" "Overlaps (z_Name demo_row) (z_Name ?z)" "z_ID demo_row \<noteq> z_ID other_zone"
    by code_simp+
  have st: "stored race_final (z_ID demo_row) = Some demo_row" "stored race_final (z_ID ?z) = Some ?z"
    using t(3) by (simp_all add: stored_def race_last(2))
  then have "\<not> tenants_apart race_final" using t(1,2) unfolding tenants_apart_def by blast
  with run t st show ?thesis by blast
qed

end
