(* ===== verification/Record_Service.thy ===== *)
theory Record_Service
  imports Zone_Lifecycle
begin

text \<open>
  The record service in the wired module: the contents of the served zones under any
  sequence of record requests, what a write does, and what a read returns after it.
\<close>

section \<open>A sample record set\<close>

definition demo_record :: record_set_input where
  "demo_record = \<lparr>ri_Name = ''www'', ri_Type = ''a'', ri_TTL = 3600, ri_Values = [\<lparr>rv_Content = ''10.0.0.1'', rv_Disabled = False\<rparr>],
     ri_Comment = []\<rparr>"

definition demo_rrset :: rrset where
  "demo_rrset = \<lparr>rs_Name = ''www.a.com.'', rs_Type = ''A'', rs_TTL = 3600, rs_ChangeType = ChangeReplace,
     rs_Records = [\<lparr>rec_Content = ''10.0.0.1'', rec_Disabled = False\<rparr>], rs_Comments = Some []\<rparr>"

definition demo_filled :: world where
  "demo_filled = demo_created\<lparr>w_pdns := (w_pdns demo_created)\<lparr>f_zones :=
     [(''a.com.'', demo_served\<lparr>pz_RRsets := demo_rrset # pz_RRsets demo_served\<rparr>)]\<rparr>\<rparr>"

lemma demo_apply: "fst (records_apply (wire demo_settings) DefaultLimits demo_row demo_record demo_created) = Inr demo_rrset"
  by code_simp

lemma demo_laws: "fqdn_law (cfg_Ext demo_settings)" "split_law (cfg_Ext demo_settings)" "upper_law (cfg_Ext demo_settings)"
  by (simp_all add: demo_settings_def)

lemma demo_calm: "world_calm u demo_created" "world_ok u demo_created" "world_ok u demo_filled"
proof -
  show c: "world_calm u demo_created" using demo_state by (simp add: world_inv_def)
  then show "world_ok u demo_created" by (rule world_calm_ok)
  then show "world_ok u demo_filled" by (simp add: world_inv_def demo_filled_def honest_def)
qed

lemma demo_Apply:
  "\<exists>w'. records_Apply (wire demo_settings) DefaultLimits (Internal ''a'') demo_row demo_record SourceAPI demo_created =
     (Inr (toView sample_ext demo_rrset), w')"
proof -
  obtain w' where "records_apply (wire demo_settings) DefaultLimits demo_row demo_record demo_created = (Inr demo_rrset, w')"
    using demo_apply by (metis prod.collapse)
  moreover have "Require None (withoutUser (Internal ''a'')) ZonesManage = None" by code_simp
  ultimately show ?thesis by (simp add: records_Apply_def check_def on_result_def ret_def demo_settings_def)
qed

lemma demo_Update:
  "\<exists>w'. records_Update (wire demo_settings) DefaultLimits (User ''a'' ''u'' []) (z_ID demo_row) \<lparr>si_Name = ''www'', si_Type = ''A''\<rparr>
     (demo_record\<lparr>ri_Name := ''web''\<rparr>) demo_filled = (Inr (toView sample_ext (demo_rrset\<lparr>rs_Name := ''web.a.com.''\<rparr>)), w')"
proof -
  have "fst (records_update (wire demo_settings) DefaultLimits demo_row \<lparr>si_Name = ''www'', si_Type = ''A''\<rparr> (demo_record\<lparr>ri_Name := ''web''\<rparr>)
      demo_filled) = Inr (demo_rrset\<lparr>rs_Name := ''web.a.com.''\<rparr>, ''www.a.com.'', ''A'')" by code_simp
  then obtain w' where "records_update (wire demo_settings) DefaultLimits demo_row \<lparr>si_Name = ''www'', si_Type = ''A''\<rparr>
      (demo_record\<lparr>ri_Name := ''web''\<rparr>) demo_filled = (Inr (demo_rrset\<lparr>rs_Name := ''web.a.com.''\<rparr>, ''www.a.com.'', ''A''), w')"
    by (metis prod.collapse)
  moreover have "records_load (wire demo_settings) (User ''a'' ''u'' []) (z_ID demo_row) ZonesManage demo_filled = (Inr demo_row, demo_filled)"
    by code_simp
  ultimately show ?thesis by (simp add: records_Update_def and_then_def on_result_def ret_def demo_settings_def)
qed

section \<open>Contents under record requests\<close>

text \<open>
  A step of the record service, with any caller, input and outcome, or a step of the
  surroundings that leaves PowerDNS alone.
\<close>

inductive record_step :: "settings \<Rightarrow> world \<Rightarrow> world \<Rightarrow> bool" for c where
  upsert: "records_Upsert (wire c) (cfg_Limits c) s zid inp w = (r, w') \<Longrightarrow> record_step c w w'"
| apply_in: "records_Apply (wire c) (cfg_Limits c) s z inp src w = (r, w') \<Longrightarrow> record_step c w w'"
| update: "records_Update (wire c) (cfg_Limits c) s zid k inp w = (r, w') \<Longrightarrow> record_step c w w'"
| delete: "records_Delete (wire c) s zid k w = (d, w') \<Longrightarrow> record_step c w w'"
| remove: "records_Remove (wire c) s z k src w = (d, w') \<Longrightarrow> record_step c w w'"
| outage: "honest f \<Longrightarrow> f_zones f = f_zones (w_pdns w) \<Longrightarrow> record_step c w (w\<lparr>w_pdns := f, w_rec := g, w_ms := ms, w_now := now\<rparr>)"
| store: "mem_step (x_unicode (cfg_Ext c)) (w_mem w) m \<Longrightarrow> record_step c w (w\<lparr>w_mem := m\<rparr>)"

definition tidy_world :: "world \<Rightarrow> bool" where
  "tidy_world w = (\<forall>i p. served w i = Some p \<longrightarrow> tidy (content_of (pz_RRsets p)))"

lemma record_sound_iff: "zw.record_sound c w \<longleftrightarrow> world_ok (x_unicode (cfg_Ext c)) w \<and> tidy_world w"
  unfolding zw.record_sound_def zw.tidy_zones_def tidy_world_def ..

lemma record_step_sound:
  assumes laws: "fqdn_law (cfg_Ext c)" "split_law (cfg_Ext c)" "upper_law (cfg_Ext c)"
    and step: "record_step c w w'" and w: "zw.record_sound c w"
  shows "zw.record_sound c w'"
  using step
proof (cases rule: record_step.cases)
  case (store m)
  have "mem_ok (x_unicode (cfg_Ext c)) m" using mem_step_ok [OF store(2)] w by (simp add: record_sound_iff world_inv_def)
  then show ?thesis using store(1) w unfolding record_sound_iff by (simp add: world_inv_def tidy_world_def served_def)
next
  case (outage f g ms now)
  then show ?thesis using w unfolding record_sound_iff by (simp add: world_inv_def tidy_world_def served_def)
qed (use w laws in \<open>simp_all add: keepsE [OF zw.keeps_Apply] keepsE [OF zw.keeps_record_requests(1)]
   keepsE [OF zw.keeps_record_requests(2)] keepsE [OF zw.keeps_record_requests(3)] keepsE [OF zw.keeps_record_requests(4)]\<close>)

text \<open>
  C11: A CNAME stands alone. In every zone whose contents are in order (canonical owner
  names, upper-case types, no other set beside a CNAME) every sequence of record
  requests from any callers, with any outcomes and failures, keeps them in order.
\<close>

theorem cname_stands_alone:
  assumes laws: "fqdn_law (cfg_Ext c)" "split_law (cfg_Ext c)" "upper_law (cfg_Ext c)"
    and run: "(record_step c)\<^sup>*\<^sup>* w0 w" and "world_ok (x_unicode (cfg_Ext c)) w0" "tidy_world w0"
  shows "tidy_world w"
proof -
  have "zw.record_sound c w" using run
  proof (induction rule: rtranclp_induct)
    case base
    then show ?case using assms(5,6) by (simp add: record_sound_iff)
  next
    case (step v w)
    then show ?case using record_step_sound [OF laws] by blast
  qed
  then show ?thesis by (simp add: record_sound_iff)
qed

lemma demo_tidy: "tidy_world demo_created"
proof -
  have c: "k = (''a.com.'', ''SOA'')" if "content_of (pz_RRsets demo_served) k = Some v" for k v
    using that by (cases k) (auto simp: demo_served_def initial_sets_def plain_set_def content_of_def lookup_set_def same_set_def
        cloneRRsets_def cloneRRset_def split: if_splits)
  have r: "RecordName sample_ext ''a.com.'' ''@'' = Inr ''a.com.''" and t: "plain_type ''SOA''" by code_simp+
  have n: "plain_name ''a.com.''" by (rule RecordName_owner [OF sample_laws r]) (rule owner_plain)
  have "content_of (pz_RRsets demo_served) (a, ''CNAME'') = None" for a
    using c [of "(a, ''CNAME'')"] by (cases "content_of (pz_RRsets demo_served) (a, ''CNAME'')") simp_all
  then have "tidy (content_of (pz_RRsets demo_served))" using c n t unfolding tidy_def by blast
  then show ?thesis by (auto simp: tidy_world_def demo_created_view split: if_splits)
qed

theorem cname_stands_alone_witness: "\<exists>w. record_step demo_settings demo_created w \<and> tidy_world w"
proof -
  obtain w' where "records_Apply (wire demo_settings) DefaultLimits (Internal ''a'') demo_row demo_record SourceAPI demo_created =
     (Inr (toView sample_ext demo_rrset), w')" using demo_Apply by blast
  then have s: "record_step demo_settings demo_created w'" by (intro record_step.apply_in) (simp add: demo_settings_def)
  then have "(record_step demo_settings)\<^sup>*\<^sup>* demo_created w'" by blast
  from cname_stands_alone [OF demo_laws this demo_calm(2) demo_tidy] s show ?thesis by blast
qed

section \<open>Single requests\<close>

lemma loaded_zone:
  assumes ok: "world_ok (x_unicode (cfg_Ext c)) w" and run: "records_load (wire c) s zid perm w = (r, w1)"
  shows "zw.still c w w1" "r = Inr z \<Longrightarrow> stored w zid = Some z \<and> z_TenantID z = s_TenantID s"
proof -
  have "zw.still c w w1 \<and> (r = Inr z \<longrightarrow> stored w zid = Some z \<and> z_TenantID z = s_TenantID s)"
    using run unfolding records_load_def zones_Owned_def
  proof (elim checkE)
    assume "zones_owned (wire c) s zid w = (r, w1)"
    then show ?thesis using zw.owned_outcome [OF ok] by blast
  qed (use ok in \<open>simp_all add: zw.still_refl\<close>)
  then show "zw.still c w w1" "r = Inr z \<Longrightarrow> stored w zid = Some z \<and> z_TenantID z = s_TenantID s" by blast+
qed

text \<open>The wire view of a set shows what the contents of the zone hold.\<close>

definition shown :: "set_view \<Rightarrow> u32 \<times> record_line list \<Rightarrow> bool" where
  "shown v x = (sv_TTL v = fst x \<and> sv_Values v = map (\<lambda>x. \<lparr>vv_Content = rec_Content x, vv_Disabled = rec_Disabled x\<rparr>) (snd x))"

lemma toView_set:
  assumes "fqdn_law L" "split_law L" "upper_law L" "RecordSet L l zn inp sets = Inr rr"
  shows "sv_Name (toView L rr) = rs_Name rr" "sv_Type (toView L rr) = rs_Type rr" "shown (toView L rr) (rs_TTL rr, rs_Records rr)"
proof -
  obtain t where "editableType L t = Inr (rs_Type rr)" using RecordSet_ok [OF assms(4)] by metis
  then have "upper L (rs_Type rr) = rs_Type rr" using editableType_listed(1) [OF assms(3)] EditableTypes_upper by blast
  then show "sv_Name (toView L rr) = rs_Name rr" "sv_Type (toView L rr) = rs_Type rr" "shown (toView L rr) (rs_TTL rr, rs_Records rr)"
    by (simp_all add: toView_def shown_def)
qed

lemma world_reports [simp]:
  "stored (records_audit (wire c) s t z n ty e w) = stored w" "served (records_audit (wire c) s t z n ty e w) = served w"
  "stored (EmitRecord (d_Events (wire c)) z n ty a src w) = stored w" "served (EmitRecord (d_Events (wire c)) z n ty a src w) = served w"
  "stored (EmitRecord (Some publish) z n ty a src w) = stored w" "served (EmitRecord (Some publish) z n ty a src w) = served w"
  using zw.record_event_frame [of c] by (simp_all add: zw.records_audit_frame)

text \<open>
  C12: Moving a record set is one atomic change. A successful update writes the new set
  and, when its name or type differs, removes the old one; all other sets of the
  zone, all other zones and the store stay as they are. A failed update changes
  nothing.
\<close>

theorem record_update_atomic:
  assumes laws: "fqdn_law (cfg_Ext c)" "split_law (cfg_Ext c)" "upper_law (cfg_Ext c)" and ok: "world_ok (x_unicode (cfg_Ext c)) w"
    and run: "records_Update (wire c) l s zid k inp w = (r, w')"
  shows "stored w' = stored w \<and> (case r of
      Inl e \<Rightarrow> served w' = served w
    | Inr v \<Rightarrow> (\<exists>z old p p' x. stored w zid = Some z \<and> z_TenantID z = s_TenantID s \<and>
        record_key (cfg_Ext c) z k = Inr old \<and> served w (z_PDNSID z) = Some p \<and> served w' = (served w)(z_PDNSID z \<mapsto> p') \<and>
        content_of (pz_RRsets p') = (content_of (pz_RRsets p))(old := None, (sv_Name v, sv_Type v) \<mapsto> x) \<and> shown v x))"
  using run unfolding records_Update_def
proof (cases rule: and_thenE)
  case (err e)
  then show ?thesis using loaded_zone(1) [OF ok err(1)] by (simp add: zw.still_def)
next
  case (ok z w1)
  note ld = loaded_zone [OF assms(4) ok(1)]
  have w1: "world_ok (x_unicode (cfg_Ext c)) w1" "stored w1 = stored w" "served w1 = served w" using ld(1) by (simp_all add: zw.still_def)
  from ok(2) obtain u w2 where u: "records_update (wire c) l z k inp w1 = (u, w2)" and
    fin: "(case u of Inl e \<Rightarrow> effect (records_audit (wire c) s RecordUpsert z (ri_Name inp) (upper (d_Ext (wire c)) (ri_Type inp)) (Some e)) (fail_with e)
     | Inr (rr, oldName, oldType) \<Rightarrow>
         effect (\<lambda>w. EmitRecord (d_Events (wire c)) z (rs_Name rr) (rs_Type rr) ActionUpserted SourceAPI
           (records_audit (wire c) s RecordUpsert z (rs_Name rr) (rs_Type rr) None w))
         (effect (\<lambda>w. if oldName \<noteq> rs_Name rr \<or> oldType \<noteq> rs_Type rr
            then EmitRecord (d_Events (wire c)) z oldName oldType ActionDeleted SourceAPI
              (records_audit (wire c) s RecordDelete z oldName oldType None w) else w)
         (ret (toView (d_Ext (wire c)) rr)))) w2 = (r, w')" by (elim on_resultE)
  note o = zw.update_set_outcome [OF w1(1) u]
  show ?thesis
  proof (cases u)
    case (Inl e)
    then have "zw.still c w1 w2" using o(2) by blast
    then show ?thesis using fin Inl w1 by (auto simp: fail_with_def zw.still_def)
  next
    case (Inr q)
    obtain rr n t where q: "q = (rr, n, t)" by (cases q)
    obtain p where p: "record_key (cfg_Ext c) z k = Inr (n, t)" "served w1 (z_PDNSID z) = Some p"
      "RecordSet (cfg_Ext c) l (z_Name z) inp (filter (\<lambda>r. \<not> same_fold (cfg_Ext c) n t r) (cloneRRsets (pz_RRsets p))) = Inr rr"
      "zw.rewritten (z_PDNSID z) (content_of (pz_RRsets p)) (spec_change ((content_of (pz_RRsets p))((n, t) := None)) rr) w1 w2"
      using o(3) Inr q by auto
    have v: "r = Inr (toView (cfg_Ext c) rr)" "stored w' = stored w2" "served w' = served w2" using fin Inr q by (auto simp: ret_def)
    have "spec_change d rr = d((rs_Name rr, rs_Type rr) \<mapsto> (rs_TTL rr, rs_Records rr))" for d
      using RecordSet_plain(3) [OF laws p(3)] by (simp add: spec_change_def)
    then show ?thesis using v p w1 ld(2) toView_set [OF laws p(3)] unfolding zw.rewritten_def by auto
  qed
qed

theorem record_update_atomic_witness:
  "\<exists>w' x p'. served w' = (served demo_filled)(''a.com.'' \<mapsto> p') \<and> content_of (pz_RRsets p') =
     (content_of (demo_rrset # pz_RRsets demo_served))((''www.a.com.'', ''A'') := None, (''web.a.com.'', ''A'') \<mapsto> x)"
proof -
  let ?v = "toView sample_ext (demo_rrset\<lparr>rs_Name := ''web.a.com.''\<rparr>)"
  have v: "sv_Name ?v = ''web.a.com.''" "sv_Type ?v = ''A''" by code_simp+
  have k: "record_key (cfg_Ext demo_settings) demo_row \<lparr>si_Name = ''www'', si_Type = ''A''\<rparr> = Inr (''www.a.com.'', ''A'')" by code_simp
  have st: "stored demo_filled (z_ID demo_row) = Some demo_row" using demo_facts(5) by (simp add: demo_filled_def stored_def)
  have sv: "served demo_filled ''a.com.'' = Some (demo_served\<lparr>pz_RRsets := demo_rrset # pz_RRsets demo_served\<rparr>)"
    by (simp add: demo_filled_def served_def)
  have pid: "z_PDNSID demo_row = ''a.com.''" by (simp add: demo_row_def demo_zone_def)
  obtain w' where "records_Update (wire demo_settings) DefaultLimits (User ''a'' ''u'' []) (z_ID demo_row) \<lparr>si_Name = ''www'', si_Type = ''A''\<rparr>
     (demo_record\<lparr>ri_Name := ''web''\<rparr>) demo_filled = (Inr ?v, w')" using demo_Update by blast
  from record_update_atomic [OF demo_laws demo_calm(3) this] show ?thesis using st sv k pid v by auto
qed

lemma find_same_fold:
  assumes "tidy (content_of sets)" "plain_name n" "plain_type t"
  shows "List.find (same_fold L n t) sets = lookup_set sets n t"
  unfolding lookup_set_def
proof (rule find_cong [OF refl])
  fix r assume r: "r \<in> set sets"
  have "plain_name (rs_Name r)" "plain_type (rs_Type r)" using assms(1) content_key [OF r] by (auto simp: tidy_def)
  then show "same_fold L n t r = same_set r n t"
    using plain_fold [OF _ assms(2)] EqualFold_upper [OF _ assms(3)] by (simp add: same_fold_def same_set_def)
qed

lemma calm_rrsets:
  assumes "world_calm (x_unicode (cfg_Ext c)) w" and "served w (z_PDNSID z) = Some p"
  shows "\<exists>w'. records_rrsets (wire c) z w = (Inr (cloneRRsets (pz_RRsets p)), w')"
proof -
  obtain w' where "p_GetZone (d_PDNS (wire c)) (z_PDNSID z) w = (Inr (clonePZone p), w')"
    using assms by (auto simp: on_pdns_def fake_GetZone_def fake_op_def fake_begin_def calm_def world_inv_def served_def fake_zone_def focus_def)
  then show ?thesis by (simp add: records_rrsets_def and_then_def map_err_def ret_def clonePZone_def)
qed

text \<open>
  C17: A caller reads what it wrote. After a successful write of a record set, looking
  the set up under the name and type given in the request finds it, with the name,
  type, TTL and values of the answer to the write, while PowerDNS answers.
\<close>

theorem record_read_back:
  assumes laws: "fqdn_law (cfg_Ext c)" "split_law (cfg_Ext c)" "upper_law (cfg_Ext c)"
    and calm: "world_calm (x_unicode (cfg_Ext c)) w" and tidy: "tidy_world w"
    and run: "records_Apply (wire c) l s z inp src w = (Inr v, w')" and may: "Require None (withoutUser s') ZonesRead = None"
  shows "\<exists>v' w2. records_Lookup (wire c) s' z \<lparr>si_Name = ri_Name inp, si_Type = ri_Type inp\<rparr> w' = (Inr v', w2) \<and>
     sv_Name v' = sv_Name v \<and> sv_Type v' = sv_Type v \<and> sv_TTL v' = sv_TTL v \<and> sv_Values v' = sv_Values v"
proof -
  obtain g w1 where g: "records_apply (wire c) l z inp w = (g, w1)" by fastforce
  have inv: "world_calm (x_unicode (cfg_Ext c)) w'"
    using keepsE [OF zc.keeps_Apply run] laws calm tidy by (simp add: zc.record_sound_def zc.tidy_zones_def tidy_world_def)
  have sound: "tidy_world w'"
    using keepsE [OF zc.keeps_Apply run] laws calm tidy by (simp add: zc.record_sound_def zc.tidy_zones_def tidy_world_def)
  obtain rr where rr: "g = Inr rr" "v = toView (cfg_Ext c) rr" "served w' = served w1"
    using run g by (cases g) (auto simp: records_Apply_def check_Inr on_result_def fail_with_def ret_def)
  obtain p :: pzone where p: "RecordSet (cfg_Ext c) l (z_Name z) inp (cloneRRsets (pz_RRsets p)) = Inr rr"
      "zc.rewritten (z_PDNSID z) (content_of (pz_RRsets p)) (spec_change (content_of (pz_RRsets p)) rr) w w1"
    using zc.apply_outcome(3) [OF calm g rr(1)] unfolding wire_simps by blast
  note pl = RecordSet_plain [OF laws p(1)]
  obtain p' where p': "served w' (z_PDNSID z) = Some p'" "content_of (pz_RRsets p') (rs_Name rr, rs_Type rr) = Some (rs_TTL rr, rs_Records rr)"
    using p(2) rr(3) pl(3) by (auto simp: zc.rewritten_def spec_change_def)
  have td: "tidy (content_of (cloneRRsets (pz_RRsets p')))" using sound p'(1) by (auto simp: tidy_world_def)
  have key: "RecordName (cfg_Ext c) (z_Name z) (ri_Name inp) = Inr (rs_Name rr)" "upper (cfg_Ext c) (TrimSpace (ri_Type inp)) = rs_Type rr"
    by (rule RecordSet_key [OF laws(1,2) p(1)])+
  have "content_of (cloneRRsets (pz_RRsets p')) (rs_Name rr, rs_Type rr) = Some (rs_TTL rr, rs_Records rr)" using p'(2) by simp
  then obtain r where r: "lookup_set (cloneRRsets (pz_RRsets p')) (rs_Name rr) (rs_Type rr) = Some r" "rs_TTL r = rs_TTL rr" "rs_Records r = rs_Records rr"
    "rs_Name r = rs_Name rr" "rs_Type r = rs_Type rr"
    unfolding content_of_def by (auto simp: lookup_set_def same_set_def find_Some_iff)
  obtain w2 where "records_rrsets (wire c) z w' = (Inr (cloneRRsets (pz_RRsets p')), w2)" using calm_rrsets [OF inv p'(1)] by blast
  then have "records_Lookup (wire c) s' z \<lparr>si_Name = ri_Name inp, si_Type = ri_Type inp\<rparr> w' = (Inr (toView (cfg_Ext c) r), w2)"
    using may key find_same_fold [OF td pl(1,2)] r(1) by (simp add: records_Lookup_def check_def and_then_def lift_res_def ret_def)
  then show ?thesis using r(2-5) rr(2) by (auto simp: toView_def)
qed

theorem record_read_back_witness:
  "\<exists>w v' w2. records_Lookup (wire demo_settings) (Internal ''a'') demo_row \<lparr>si_Name = ''www'', si_Type = ''a''\<rparr> w = (Inr v', w2) \<and>
     sv_Name v' = ''www.a.com.'' \<and> sv_TTL v' = 3600"
proof -
  obtain w' where run: "records_Apply (wire demo_settings) DefaultLimits (Internal ''a'') demo_row demo_record SourceAPI demo_created =
     (Inr (toView sample_ext demo_rrset), w')" using demo_Apply by blast
  have "Require None (withoutUser (Internal ''a'')) ZonesRead = None" by code_simp
  from record_read_back [OF demo_laws demo_calm(1) demo_tidy run this] show ?thesis
    by (auto simp: demo_record_def toView_def demo_rrset_def)
qed

end
