(* ===== verification/Ipam_Service.thy ===== *)
theory Ipam_Service
  imports Ipam_Sync Record_Service
begin

text \<open>
  The IPAM synchronisation in the wired module: whom an event can affect, and what is
  left of an address whose old record could not be removed.
\<close>

section \<open>Wiring\<close>

text \<open>IPAM answers from outside; its answers may depend on anything but change nothing here.\<close>

definition sync_wire ::
  "settings \<Rightarrow> (world \<Rightarrow> string \<Rightarrow> string \<Rightarrow> ipam_address res) \<Rightarrow> (world \<Rightarrow> string \<Rightarrow> string \<Rightarrow> ipam_subnet res) \<Rightarrow> int \<Rightarrow> world sync_deps" where
  "sync_wire c ga gs ttl = sync_New \<lparr>sy_Deps = wire c, sy_Limits = cfg_Limits c, sy_GetAddress = (\<lambda>t i w. (ga w t i, w)),
     sy_GetSubnet = (\<lambda>t i w. (gs w t i, w)), sy_TTL = ttl\<rparr>"

lemma sync_wire_simps [simp]:
  "sy_Deps (sync_wire c ga gs ttl) = wire c" "sy_GetAddress (sync_wire c ga gs ttl) t i w = (ga w t i, w)"
  "sy_GetSubnet (sync_wire c ga gs ttl) t i w = (gs w t i, w)" "sy_Limits (sync_wire c ga gs ttl) = cfg_Limits c"
  by (simp_all add: sync_wire_def sync_New_def)

lemma sync_zones:
  "m_zones (snd (mem_GetIPAMSync t i m)) = m_zones m" "m_zones (snd (mem_UpsertIPAMSync n m)) = m_zones m"
  "m_zones (snd (mem_DeleteIPAMSync t i m)) = m_zones m"
  by (auto simp: mem_GetIPAMSync_def mem_UpsertIPAMSync_def mem_DeleteIPAMSync_def mem_op_def mem_fail_def Let_def split: option.split)

lemma sync_contract: "sync_env (sync_wire c ga gs ttl) stored (world_ok (x_unicode (cfg_Ext c))) served"
proof (rule sync_env.intro)
  show "record_env (sy_Deps (sync_wire c ga gs ttl)) stored (world_ok (x_unicode (cfg_Ext c))) served"
    unfolding sync_wire_simps by (rule zw.record_env_axioms)
  show "sync_env_axioms (sync_wire c ga gs ttl) stored (world_ok (x_unicode (cfg_Ext c))) served"
    by unfold_locales (auto simp del: on_mem_run dest: mem_quiet [OF keeps_reads [OF mem_reads(12)] sync_zones(1)]
      mem_quiet [OF keeps_sync(1) sync_zones(2)] mem_quiet [OF keeps_sync(2) sync_zones(3)])
qed

interpretation ipam: sync_env "sync_wire c ga gs ttl" stored "world_ok (x_unicode (cfg_Ext c))" served for c ga gs ttl
  by (rule sync_contract)

section \<open>Isolation\<close>

text \<open>
  C8: An address event touches only its own tenant. Whatever the event, the recorded
  state and the answers of IPAM, handling it leaves every stored zone of another
  tenant as it is, adds none, and leaves everything PowerDNS serves for those zones
  unchanged, also when calls fail on the way.
\<close>

theorem sync_touches_only_its_tenant:
  assumes "fqdn_law (cfg_Ext c)" "split_law (cfg_Ext c)" and ok: "world_ok (x_unicode (cfg_Ext c)) w"
    and run: "sync_Handle (sync_wire c ga gs ttl) t ev w = (r, w')" and y: "z_TenantID y \<noteq> t"
  shows "(stored w' (z_ID y) = Some y \<longleftrightarrow> stored w (z_ID y) = Some y) \<and>
    (stored w (z_ID y) = Some y \<longrightarrow> served w (z_PDNSID y) = Some p \<longrightarrow> served w' (z_PDNSID y) = Some p)"
proof -
  have "ipam.kept c w t w'" using keepsE [OF ipam.keeps_Handle run] assms(1,2) ipam.kept_refl [OF ok] by simp
  then show ?thesis using y by (auto simp: ipam.kept_def ipam.alien_def)
qed

section \<open>A removal that failed\<close>



section \<open>Concrete events\<close>

definition moved_address :: ipam_address where
  "moved_address = \<lparr>ia_ID = ''i'', ia_Address = ''10.0.0.2'', ia_SubnetID = [], ia_Hostname = ''www.a.com''\<rparr>"

definition moved_sync :: "world sync_deps" where
  "moved_sync = sync_wire demo_settings (\<lambda>w t i. Inr moved_address) (\<lambda>w t i. Inl (Sent ipam_ErrNotFound)) 3600"

definition moved_event :: ipam_event where
  "moved_event = \<lparr>ev_Type = TypeUpdated, ev_Action = [], ev_ID = ''i'', ev_Address = [], ev_SubnetID = [], ev_Hostname = []\<rparr>"











theorem sync_touches_only_its_tenant_witness:
  "served (snd (sync_Handle moved_sync ''b'' moved_event demo_created)) ''a.com.'' = Some demo_served"
proof -
  obtain r w' where run: "sync_Handle moved_sync ''b'' moved_event demo_created = (r, w')" by fastforce
  have d: "z_TenantID demo_row \<noteq> ''b''" "z_PDNSID demo_row = ''a.com.''" by code_simp+
  from sync_touches_only_its_tenant [OF demo_laws(1,2) demo_calm(2) run [unfolded moved_sync_def] d(1), of demo_served] run d(2)
  show ?thesis by (simp add: demo_created_view)
qed


end
