(* ===== verification/Acme.thy ===== *)
theory Acme
  imports Tenant_Frame
begin

text \<open>
  ACME DNS-01 challenges, \<^verbatim>\<open>internal/acmechallenge/acmechallenge.go\<close> and
  \<^verbatim>\<open>sweeper.go\<close>. The service shares the zone and record services, the store, the audit
  recorder, the clock and the id generator with the rest of the module. The mutexes
  that serialise the operations on one name in the process make each operation one
  step, as it is here; the metrics and log lines are left out.
\<close>

section \<open>Requests\<close>

definition acme_Prefix :: string where
  "acme_Prefix = ''_acme-challenge.''"

definition acme_DefaultTTL :: int where
  "acme_DefaultTTL = 60"

definition value_char :: "char \<Rightarrow> bool" where
  "value_char c = (is_upper c \<or> is_lower c \<or> is_digit c \<or> c = CHR ''_'' \<or> c = CHR ''-'')"

definition valueRE :: "string \<Rightarrow> bool" where
  "valueRE s = (length s = 43 \<and> list_all value_char s)"

record acme_request =
  rq_Domain :: string
  rq_FQDN :: string
  rq_Value :: string

record 'w acme_deps =
  ac_Deps :: "'w deps"
  ac_Limits :: limits
  ac_AllowedCaller :: string
  ac_TTL :: int

definition acme_New :: "'w acme_deps \<Rightarrow> 'w acme_deps" where
  "acme_New A = (if ac_TTL A \<le> 0 then A\<lparr>ac_TTL := acme_DefaultTTL\<rparr> else A)"

definition acme_canonical :: "ext \<Rightarrow> string \<Rightarrow> string option" where
  "acme_canonical L name = (let n = x_Fqdn L (lower L (TrimSpace name)) in
     if n = ''.'' \<or> Contains n ''..'' \<or> list_ex (\<lambda>c. c \<in> {CHR '' '', CHR ''*'', CHR 0x5C, CHR 0x22}) n then None
     else if x_IsDomainName L n then Some n else None)"

definition acme_check :: "ext \<Rightarrow> acme_request \<Rightarrow> string res" where
  "acme_check L r = (if \<not> valueRE (rq_Value r) then Inl (Sent acme_ErrInvalid)
     else (case acme_canonical L (TrimPrefix (TrimSpace (rq_Domain r)) ''*.'') of
       None \<Rightarrow> Inl (Sent acme_ErrInvalid)
     | Some domain \<Rightarrow> (case acme_canonical L (rq_FQDN r) of
         None \<Rightarrow> Inl (Sent acme_ErrInvalid)
       | Some fqdn \<Rightarrow> if fqdn \<noteq> acme_Prefix @ domain then Inl (Sent acme_ErrInvalid) else Inr fqdn)))"

definition quoted :: "string \<Rightarrow> string" where
  "quoted v = [CHR 0x22] @ v @ [CHR 0x22]"

section \<open>Audit\<close>

definition acme_reasonOf :: "gerr \<Rightarrow> string" where
  "acme_reasonOf e =
     (if errIs e ErrForbidden then ''forbidden''
      else if errIs e acme_ErrInvalid then ''invalid_challenge''
      else if errIs e acme_ErrNotFound then ''zone_not_found''
      else if errIs e acme_ErrPrecondition then ''precondition''
      else if errIs e pdns_ErrUnavailable then ''pdns_unavailable''
      else ''error'')"

definition acme_audit :: "'w acme_deps \<Rightarrow> subjects \<Rightarrow> string \<Rightarrow> string \<Rightarrow> string \<Rightarrow> gerr option \<Rightarrow> 'w \<Rightarrow> 'w" where
  "acme_audit A s t zn fqdn err =
     (let reason = (case err of None \<Rightarrow> [] | Some e \<Rightarrow> acme_reasonOf e);
          failed = (reason = ''error'' \<or> reason = ''pdns_unavailable'');
          details = [(''zone'', DStr zn), (''name'', DStr fqdn)]
      in audit_Emit (d_Audit (ac_Deps A))
        \<lparr>ae_TenantID = (if s_TenantID s = [] then NilTenant else s_TenantID s),
         ae_EventType = (if err = None \<or> failed then t else ChallengeRefused),
         ae_ActorKind = ActorOf (s_ActorKind s), ae_ActorID = ActorID s, ae_SubjectKind = SubjectChallenge, ae_SubjectID = fqdn,
         ae_Outcome = (if err = None then OutcomeOK else if failed then OutcomeError else OutcomeRefused), ae_Reason = reason,
         ae_Details = (if err = None then details else details @ [(''op'', DStr t)])\<rparr>)"

definition uuidRE :: "string \<Rightarrow> bool" where
  "uuidRE s = uuid_text s"

definition Refused :: "'w acme_deps \<Rightarrow> string \<Rightarrow> string \<Rightarrow> 'w \<Rightarrow> 'w" where
  "Refused A peer tenantID = audit_Emit (d_Audit (ac_Deps A))
     \<lparr>ae_TenantID = (if uuidRE tenantID then tenantID else NilTenant), ae_EventType = ChallengeRefused, ae_ActorKind = ActorModule,
      ae_ActorID = (if peer = [] then ''unknown'' else peer), ae_SubjectKind = SubjectChallenge, ae_SubjectID = [],
      ae_Outcome = OutcomeRefused, ae_Reason = ''forbidden'', ae_Details = []\<rparr>"

section \<open>Operations\<close>

text \<open>
  The subjects, zone and name known so far accompany the error of \<open>resolve\<close>, for the
  audit entry.
\<close>

definition acme_resolve ::
  "'w acme_deps \<Rightarrow> subjects \<Rightarrow> acme_request \<Rightarrow> ('w, subjects \<times> zone \<times> string \<times> gerr, subjects \<times> zone \<times> string) eact" where
  "acme_resolve A s r = (case Challenger s (ac_AllowedCaller A) of
     Inl e \<Rightarrow> fail_with (s, empty_zone, [], e)
   | Inr ch \<Rightarrow> (case acme_check (d_Ext (ac_Deps A)) r of
       Inl e \<Rightarrow> fail_with (ch, empty_zone, [], e)
     | Inr fqdn \<Rightarrow> on_result (zones_FindForName (ac_Deps A) ch fqdn) (\<lambda>q. case q of
         Inl e \<Rightarrow> fail_with (ch, empty_zone, fqdn, if errIs e zones_ErrNotFound then Sent acme_ErrNotFound else e)
       | Inr z \<Rightarrow> if NeedsMasters (z_Kind z) then fail_with (ch, z, fqdn, Sent acme_ErrPrecondition)
           else ret (ch, z, fqdn))))"

text \<open>The TXT set at the name; \<open>None\<close> is an absent set.\<close>

definition acme_current :: "'w acme_deps \<Rightarrow> subjects \<Rightarrow> zone \<Rightarrow> string \<Rightarrow> ('w, set_view option) act" where
  "acme_current A s z fqdn =
     on_result (records_Lookup (ac_Deps A) s z \<lparr>si_Name = fqdn, si_Type = ''CNAME''\<rparr>) (\<lambda>r. case r of
       Inr _ \<Rightarrow> fail_with (Sent acme_ErrPrecondition)
     | Inl e \<Rightarrow> if \<not> errIs e records_ErrNotFound then fail_with e
         else on_result (records_Lookup (ac_Deps A) s z \<lparr>si_Name = fqdn, si_Type = ''TXT''\<rparr>) (\<lambda>q. case q of
           Inr rs \<Rightarrow> ret (Some rs)
         | Inl e \<Rightarrow> if errIs e records_ErrNotFound then ret None else fail_with e))"

definition mapWrite :: "gerr \<Rightarrow> gerr" where
  "mapWrite e = (if errIs e ErrRecord \<or> errIs e zones_ErrInvalidKind then Wrap acme_ErrPrecondition e else e)"

definition same_value :: "value_view \<Rightarrow> record_value" where
  "same_value v = \<lparr>rv_Content = vv_Content v, rv_Disabled = vv_Disabled v\<rparr>"

definition acme_record :: "'w acme_deps \<Rightarrow> subjects \<Rightarrow> zone \<Rightarrow> string \<Rightarrow> string \<Rightarrow> ('w, unit) act" where
  "acme_record A s z fqdn v w = (case d_NewID (ac_Deps A) w of (i, w1) \<Rightarrow>
     on_result (r_InsertChallenge (d_Store (ac_Deps A)) \<lparr>c_ID = i, c_TenantID = z_TenantID z, c_ZoneID = z_ID z, c_FQDN = fqdn, c_Value = v,
       c_RequestedBy = s_PeerSPIFFE s, c_CreatedAt = d_Now (ac_Deps A) w1\<rparr>) (\<lambda>_. ret ()) w1)"

definition acme_present :: "'w acme_deps \<Rightarrow> subjects \<Rightarrow> zone \<Rightarrow> string \<Rightarrow> string \<Rightarrow> ('w, unit) act" where
  "acme_present A s z fqdn v = and_then (acme_current A s z fqdn) (\<lambda>cur.
     let vals = (case cur of None \<Rightarrow> [] | Some rs \<Rightarrow> sv_Values rs); com = (case cur of None \<Rightarrow> [] | Some rs \<Rightarrow> sv_Comment rs)
     in if list_ex (\<lambda>x. vv_Content x = quoted v) vals then acme_record A s z fqdn v
        else and_then (map_err mapWrite (records_Apply (ac_Deps A) (ac_Limits A) s z
            \<lparr>ri_Name = fqdn, ri_Type = ''TXT'', ri_TTL = ac_TTL A,
             ri_Values = map same_value vals @ [\<lparr>rv_Content = quoted v, rv_Disabled = False\<rparr>], ri_Comment = com\<rparr> SourceACME))
          (\<lambda>_. acme_record A s z fqdn v))"

definition acme_drop :: "'w acme_deps \<Rightarrow> subjects \<Rightarrow> zone \<Rightarrow> set_view \<Rightarrow> string \<Rightarrow> string \<Rightarrow> ('w, unit) act" where
  "acme_drop A s z rs fqdn v =
     (let left = filter (\<lambda>x. vv_Content x \<noteq> quoted v) (sv_Values rs)
      in if \<not> list_ex (\<lambda>x. vv_Content x = quoted v) (sv_Values rs) then ret ()
         else if left = [] then map_err mapWrite (records_Remove (ac_Deps A) s z \<lparr>si_Name = fqdn, si_Type = ''TXT''\<rparr> SourceACME)
         else map_err mapWrite (and_then (records_Apply (ac_Deps A) (ac_Limits A) s z
             \<lparr>ri_Name = fqdn, ri_Type = ''TXT'', ri_TTL = uint (sv_TTL rs), ri_Values = map same_value left, ri_Comment = sv_Comment rs\<rparr>
             SourceACME) (\<lambda>_. ret ())))"

definition acme_remove :: "'w acme_deps \<Rightarrow> subjects \<Rightarrow> zone \<Rightarrow> string \<Rightarrow> string \<Rightarrow> ('w, unit) act" where
  "acme_remove A s z fqdn v = and_then (acme_current A s z fqdn) (\<lambda>cur.
     and_then (case cur of None \<Rightarrow> ret () | Some rs \<Rightarrow> acme_drop A s z rs fqdn v) (\<lambda>_.
     on_result (r_DeleteChallenge (d_Store (ac_Deps A)) (z_TenantID z) fqdn v) (\<lambda>_. ret ())))"

definition acme_call ::
  "'w acme_deps \<Rightarrow> string \<Rightarrow> (subjects \<Rightarrow> zone \<Rightarrow> string \<Rightarrow> ('w, unit) act) \<Rightarrow> subjects \<Rightarrow> acme_request \<Rightarrow> ('w, string) act" where
  "acme_call A t f s r = on_result (acme_resolve A s r) (\<lambda>q. case q of
     Inl (ch, z, fqdn, e) \<Rightarrow> effect (acme_audit A ch t (z_Name z) fqdn (Some e)) (fail_with e)
   | Inr (ch, z, fqdn) \<Rightarrow> on_result (f ch z fqdn) (\<lambda>u.
       effect (acme_audit A ch t (z_Name z) fqdn (err_of u)) (case u of Inl e \<Rightarrow> fail_with e | Inr _ \<Rightarrow> ret (z_Name z))))"

definition Present :: "'w acme_deps \<Rightarrow> subjects \<Rightarrow> acme_request \<Rightarrow> ('w, string) act" where
  "Present A s r = acme_call A ChallengePresent (\<lambda>ch z fqdn. acme_present A ch z fqdn (rq_Value r)) s r"

definition CleanUp :: "'w acme_deps \<Rightarrow> subjects \<Rightarrow> acme_request \<Rightarrow> ('w, string) act" where
  "CleanUp A s r = acme_call A ChallengeCleanup (\<lambda>ch z fqdn. acme_remove A ch z fqdn (rq_Value r)) s r"

section \<open>Sweeping\<close>

definition sweepBatch :: int where
  "sweepBatch = 100"

definition swept :: "'w acme_deps \<Rightarrow> challenge \<Rightarrow> string \<Rightarrow> gerr option \<Rightarrow> 'w \<Rightarrow> 'w" where
  "swept A c zn err = audit_Emit (d_Audit (ac_Deps A))
     \<lparr>ae_TenantID = c_TenantID c, ae_EventType = ChallengeSwept, ae_ActorKind = ActorSystem, ae_ActorID = ActorSystem,
      ae_SubjectKind = SubjectChallenge, ae_SubjectID = c_FQDN c, ae_Outcome = (if err = None then OutcomeOK else OutcomeError),
      ae_Reason = (case err of None \<Rightarrow> [] | Some e \<Rightarrow> acme_reasonOf e),
      ae_Details = [(''zone'', DStr zn), (''name'', DStr (c_FQDN c))]\<rparr>"

text \<open>One row: whether a value was removed.\<close>

definition sweep_one :: "'w acme_deps \<Rightarrow> challenge \<Rightarrow> ('w, bool) act" where
  "sweep_one A c = (let sys = Internal (c_TenantID c) in
     on_result (zones_Owned (ac_Deps A) sys (c_ZoneID c)) (\<lambda>r. case r of
       Inr z \<Rightarrow> on_result (acme_remove A sys z (c_FQDN c) (c_Value c)) (\<lambda>u.
         effect (swept A c (z_Name z) (err_of u)) (ret (err_of u = None)))
     | Inl e \<Rightarrow> if errIs e zones_ErrNotFound
         then on_result (r_DeleteChallenge (d_Store (ac_Deps A)) (c_TenantID c) (c_FQDN c) (c_Value c)) (\<lambda>_. ret False)
         else effect (swept A c [] (Some e)) (ret False)))"

primrec sweep_rows :: "'w acme_deps \<Rightarrow> challenge list \<Rightarrow> ('w, int) act" where
  "sweep_rows A [] = ret 0"
| "sweep_rows A (c # cs) = and_then (sweep_one A c) (\<lambda>b. and_then (sweep_rows A cs) (\<lambda>n. ret (if b then n + 1 else n)))"

definition Sweep :: "'w acme_deps \<Rightarrow> time \<Rightarrow> ('w, int) act" where
  "Sweep A maxAge = reading (d_Now (ac_Deps A)) (\<lambda>now.
     and_then (r_ChallengesOlderThan (d_Store (ac_Deps A)) (now - maxAge) sweepBatch) (sweep_rows A))"


section \<open>The owner of a challenge\<close>

lemma runes_ascii_append: "is_ascii a \<Longrightarrow> runes (a @ s) = map byte a @ runes s"
proof (induction a)
  case (Cons c a)
  then have "byte c < 128" "is_ascii a" by (auto simp: is_ascii_def)
  then show ?case using Cons by (simp add: Let_def)
qed simp

lemma ToLower_append:
  assumes "is_ascii a"
  shows "ToLower u (a @ s) = map lower_byte a @ ToLower u s"
proof (cases "is_ascii s")
  case True
  then show ?thesis using assms by (simp add: ToLower_def is_ascii_def)
next
  case False
  have b: "encode_rune (rune_lower u (byte c)) = [lower_byte c]" if "byte c < 128" for c
    using that by (auto simp: rune_lower_def encode_rune_def lower_byte_def is_upper_def)
  have "concat (map (\<lambda>r. encode_rune (rune_lower u r)) (map byte a)) = map lower_byte a" using assms
    by (induction a) (auto simp: is_ascii_def b)
  moreover have "\<not> is_ascii (a @ s)" using False by (simp add: is_ascii_def)
  ultimately show ?thesis using False assms by (simp add: ToLower_def runes_ascii_append del: map_map)
qed

lemma acme_canonical_dot:
  assumes "fqdn_law L" "acme_canonical L s = Some n"
  shows "suffix ''.'' n"
proof -
  have n: "n = x_Fqdn L (lower L (TrimSpace s))" "CHR 0x5C \<notin> set n"
    using assms(2) by (auto simp: acme_canonical_def Let_def list_ex_iff split: if_splits)
  then have "CHR 0x5C \<notin> set (lower L (TrimSpace s))" using fqdn_law_cases [OF assms(1), of "lower L (TrimSpace s)"] by auto
  from fqdn_law_plain [OF assms(1) this] show ?thesis using n(1) by (auto simp: suffix_def)
qed

lemma challenge_owner:
  assumes law: "fqdn_law L" and c: "acme_check L r = Inr fqdn" and n: "RecordName L zn fqdn = Inr n"
  shows "prefix acme_Prefix n"
proof -
  obtain d where d: "fqdn = acme_Prefix @ d" and f: "acme_canonical L (rq_FQDN r) = Some fqdn"
    using c by (auto simp: acme_check_def split: if_splits option.splits)
  have dot: "suffix ''.'' fqdn" by (rule acme_canonical_dot [OF law f])
  have ne: "fqdn \<noteq> []" "hd fqdn = CHR ''_''" "fqdn \<noteq> ''@''" by (simp_all add: d acme_Prefix_def)
  have l: "last fqdn = CHR ''.''" using dot by (auto simp: suffix_def)
  have "printable CHR ''_''" "printable CHR ''.''" by code_simp+
  then have t: "TrimSpace fqdn = fqdn" by (intro TrimSpace_id) (simp_all add: ne l)
  obtain x labels where s: "split_name L fqdn = Inr (x, labels)" "n = x"
    using n dot ne by (auto simp: RecordName_def t Let_def split: sum.splits if_splits)
  have "n = x_Fqdn L (lower L fqdn)" using s by (auto simp: split_name_def t Let_def split: if_splits)
  moreover have "is_ascii acme_Prefix" "map lower_byte acme_Prefix = acme_Prefix" by code_simp+
  then have "lower L fqdn = acme_Prefix @ lower L d" unfolding d by (metis ToLower_append)
  ultimately show ?thesis using fqdn_law_cases [OF law, of "lower L fqdn"] by auto
qed

lemma upper_TXT: "upper L (TrimSpace ''TXT'') = ''TXT''"
proof -
  have "TrimSpace ''TXT'' = ''TXT''" "is_ascii ''TXT''" "map upper_byte ''TXT'' = ''TXT''" by code_simp+
  then show ?thesis by (simp add: ToUpper_def)
qed

section \<open>The contract\<close>

text \<open>
  The record contract extended by the tenant's zone list and the bookkeeping of the
  challenges, which touches neither the zones of the store nor those of the server.
\<close>

locale acme_env = record_env "ac_Deps A" zs inv ps for A :: "'w acme_deps" and zs inv ps +
  assumes tenant_zones: "inv w \<Longrightarrow> r_ZonesForTenant (d_Store (ac_Deps A)) t w = (Inr l, w') \<Longrightarrow> z \<in> set l \<Longrightarrow>
      zs w (z_ID z) = Some z \<and> z_TenantID z = t"
    and challenge_rows: "inv w \<Longrightarrow> r_InsertChallenge (d_Store (ac_Deps A)) c w = (r, w') \<Longrightarrow> inv w' \<and> zs w' = zs w \<and> ps w' = ps w"
      "inv w \<Longrightarrow> r_DeleteChallenge (d_Store (ac_Deps A)) t f v w = (r, w') \<Longrightarrow> inv w' \<and> zs w' = zs w \<and> ps w' = ps w"
      "inv w \<Longrightarrow> r_ChallengesOlderThan (d_Store (ac_Deps A)) b n w = (q, w') \<Longrightarrow> inv w' \<and> zs w' = zs w \<and> ps w' = ps w"
begin

text \<open>Since \<open>w0\<close> at most the sets \<open>k\<close> of the zone \<open>z\<close> has changed.\<close>

definition touched :: "'w \<Rightarrow> zone \<Rightarrow> (string \<times> string) set \<Rightarrow> 'w \<Rightarrow> bool" where
  "touched w0 z k w = (inv w \<and> zs w = zs w0 \<and> (ps w = ps w0 \<or> (k \<noteq> {} \<and> (\<exists>p p'. ps w0 (z_PDNSID z) = Some p \<and>
     ps w = (ps w0)(z_PDNSID z \<mapsto> p') \<and> (\<forall>q. q \<notin> k \<longrightarrow> content_of (pz_RRsets p') q = content_of (pz_RRsets p) q)))))"

lemma touched_refl: "inv w \<Longrightarrow> touched w z k w"
  by (simp add: touched_def)

lemma touched_still: "touched w0 z k w \<Longrightarrow> still w w' \<Longrightarrow> touched w0 z k w'"
  by (simp add: touched_def still_def)

lemma keeps_touched_still: "(\<And>w r w'. inv w \<Longrightarrow> m w = (r, w') \<Longrightarrow> still w w') \<Longrightarrow> keeps (touched w0 z k) m"
  by (rule keepsI) (metis touched_still touched_def)

lemma touched_rewritten:
  assumes t: "touched w0 z k w" and r: "rewritten (z_PDNSID z) c c' w w'" and i: "inv w'"
    and c: "\<And>q. q \<notin> k \<Longrightarrow> c' q = c q" and ne: "k \<noteq> {}"
  shows "touched w0 z k w'"
proof -
  obtain p p' where p: "zs w' = zs w" "ps w (z_PDNSID z) = Some p" "ps w' = (ps w)(z_PDNSID z \<mapsto> p')"
    "content_of (pz_RRsets p) = c" "content_of (pz_RRsets p') = c'" using r unfolding rewritten_def by blast
  obtain p0 where p0: "ps w0 (z_PDNSID z) = Some p0" "ps w' = (ps w0)(z_PDNSID z \<mapsto> p')"
    "\<And>q. q \<notin> k \<Longrightarrow> content_of (pz_RRsets p) q = content_of (pz_RRsets p0) q"
    using t p(2,3) unfolding touched_def by (metis fun_upd_same fun_upd_upd option.inject)
  have "content_of (pz_RRsets p') q = content_of (pz_RRsets p0) q" if "q \<notin> k" for q using c p p0(3) that by simp
  moreover have "zs w' = zs w0" using t p(1) by (simp add: touched_def)
  ultimately show ?thesis using i p0(1,2) ne unfolding touched_def by (intro conjI disjI2 exI [of _ p0] exI [of _ p']) simp_all
qed

lemma lookup_still: "inv w \<Longrightarrow> records_Lookup (ac_Deps A) s y j w = (r, w') \<Longrightarrow> still w w'"
  unfolding records_Lookup_def
  by (auto elim!: checkE and_thenE simp: lift_res_def still_refl dest: rrsets_outcome(1) split: option.splits)

lemma keeps_reports:
  "touched w0 z k w \<Longrightarrow> touched w0 z k (acme_audit A s t zn f e w)" "touched w0 z k w \<Longrightarrow> touched w0 z k (swept A c zn e w)"
  by (simp_all add: touched_def acme_audit_def swept_def other_frame Let_def)

lemma keeps_bookkeeping:
  "keeps (touched w0 z k) (acme_record A s y f v)" "keeps (touched w0 z k) (r_DeleteChallenge (d_Store (ac_Deps A)) t f v)"
  "keeps (touched w0 z k) (r_ChallengesOlderThan (d_Store (ac_Deps A)) b n)"
proof -
  show "keeps (touched w0 z k) (acme_record A s y f v)"
  proof (rule keeps_touched_still)
    fix w r w' assume w: "inv w" and run: "acme_record A s y f v w = (r, w')"
    obtain i w1 where n: "d_NewID (ac_Deps A) w = (i, w1)" by fastforce
    have w1: "inv w1" "zs w1 = zs w" "ps w1 = ps w" using other_frame(1-3) [of w] n w by simp_all
    then show "still w w'" using run n challenge_rows(1) [OF w1(1)]
      by (auto simp: acme_record_def on_result_def ret_def still_def split: prod.splits)
  qed
  show "keeps (touched w0 z k) (r_DeleteChallenge (d_Store (ac_Deps A)) t f v)"
    "keeps (touched w0 z k) (r_ChallengesOlderThan (d_Store (ac_Deps A)) b n)"
    by (rule keeps_touched_still, unfold still_def, erule (1) challenge_rows)+
qed

text \<open>The set a challenge may change: its owner name as the record service reads it.\<close>

definition txt_keys :: "zone \<Rightarrow> string \<Rightarrow> (string \<times> string) set" where
  "txt_keys z fqdn = {(n, ''TXT'') | n. RecordName (d_Ext (ac_Deps A)) (z_Name z) fqdn = Inr n}"

lemma keeps_touched_Apply:
  assumes laws: "fqdn_law (d_Ext (ac_Deps A))" "split_law (d_Ext (ac_Deps A))" and i: "ri_Name inp = fqdn" "ri_Type inp = ''TXT''"
  shows "keeps (touched w0 z (txt_keys z fqdn)) (records_Apply (ac_Deps A) l s z inp src)"
proof (rule keepsI)
  fix w r w' assume run: "records_Apply (ac_Deps A) l s z inp src w = (r, w')" and w: "touched w0 z (txt_keys z fqdn) w"
  then have inv: "inv w" by (simp add: touched_def)
  obtain g w1 where g: "records_apply (ac_Deps A) l z inp w = (g, w1)" by fastforce
  note o = apply_outcome [OF inv g]
  have w1: "touched w0 z (txt_keys z fqdn) w1"
  proof (cases g)
    case (Inl e)
    then show ?thesis using o(2) touched_still [OF w] by blast
  next
    case (Inr rr)
    then obtain p :: pzone where p: "RecordSet (d_Ext (ac_Deps A)) l (z_Name z) inp (cloneRRsets (pz_RRsets p)) = Inr rr"
      "rewritten (z_PDNSID z) (content_of (pz_RRsets p)) (spec_change (content_of (pz_RRsets p)) rr) w w1" using o(3) by blast
    have k: "(rs_Name rr, rs_Type rr) \<in> txt_keys z fqdn"
      using RecordSet_key [OF laws p(1)] i upper_TXT by (simp add: txt_keys_def)
    show ?thesis by (rule touched_rewritten [OF w p(2) o(1)]) (use k in \<open>auto simp: spec_change_def\<close>)
  qed
  have "w' = w \<or> zs w' = zs w1 \<and> ps w' = ps w1 \<and> inv w'"
    using run g o(1) by (cases g) (auto simp: records_Apply_def on_result_def elim!: checkE)
  then show "touched w0 z (txt_keys z fqdn) w'" using w w1 by (auto simp: touched_def)
qed

lemma keeps_touched_Remove:
  "keeps (touched w0 z (txt_keys z fqdn)) (records_Remove (ac_Deps A) s z \<lparr>si_Name = fqdn, si_Type = ''TXT''\<rparr> src)"
proof (rule keepsI)
  fix w r w' assume run: "records_Remove (ac_Deps A) s z \<lparr>si_Name = fqdn, si_Type = ''TXT''\<rparr> src w = (r, w')"
    and w: "touched w0 z (txt_keys z fqdn) w"
  then have inv: "inv w" by (simp add: touched_def)
  obtain g w1 where g: "records_remove (ac_Deps A) z \<lparr>si_Name = fqdn, si_Type = ''TXT''\<rparr> w = (g, w1)" by fastforce
  note o = remove_outcome [OF inv g]
  have w1: "touched w0 z (txt_keys z fqdn) w1"
  proof (cases g)
    case (Inl e)
    then show ?thesis using o(2) touched_still [OF w] by blast
  next
    case (Inr key)
    then obtain p :: pzone where p: "record_key (d_Ext (ac_Deps A)) z \<lparr>si_Name = fqdn, si_Type = ''TXT''\<rparr> = Inr key"
      "rewritten (z_PDNSID z) (content_of (pz_RRsets p)) ((content_of (pz_RRsets p))(key := None)) w w1" using o(3) by blast
    have k: "key \<in> txt_keys z fqdn"
      using p(1) upper_TXT by (auto simp: txt_keys_def record_key_def Let_def split: sum.splits if_splits)
    show ?thesis by (rule touched_rewritten [OF w p(2) o(1)]) (use k in auto)
  qed
  have "w' = w \<or> zs w' = zs w1 \<and> ps w' = ps w1 \<and> inv w'"
    using run g o(1) by (cases g) (auto simp: records_Remove_def records_removed_def on_result_def elim!: checkE split: if_splits prod.splits)
  then show "touched w0 z (txt_keys z fqdn) w'" using w w1 by (auto simp: touched_def)
qed

lemma keeps_touched_current: "keeps (touched w0 z k) (acme_current A s y f)"
  unfolding acme_current_def by (intro act_keeps keeps_touched_still lookup_still)

lemma keeps_challenge:
  assumes laws: "fqdn_law (d_Ext (ac_Deps A))" "split_law (d_Ext (ac_Deps A))"
  shows "keeps (touched w0 z (txt_keys z f)) (acme_present A s z f v)" "keeps (touched w0 z (txt_keys z f)) (acme_remove A s z f v)"
  unfolding acme_present_def acme_remove_def acme_drop_def
  by (intro act_keeps keeps_touched_current keeps_bookkeeping keeps_touched_Apply [OF laws] keeps_touched_Remove; simp)+

lemma find_outcome:
  assumes "inv w" and run: "zones_FindForName (ac_Deps A) s f w = (r, w')"
  shows "still w w'" "r = Inr z \<Longrightarrow> zs w (z_ID z) = Some z \<and> z_TenantID z = s_TenantID s"
proof -
  have l: "LongestZone l n = Some z \<Longrightarrow> z \<in> set l" for l n z
    using longest_loop_best [of "\<lambda>_. True" n l] by (auto simp: LongestZone_def best_ok_def)
  have "still w w' \<and> (r = Inr z \<longrightarrow> zs w (z_ID z) = Some z \<and> z_TenantID z = s_TenantID s)"
    using run unfolding zones_FindForName_def
  proof (cases rule: checkE)
    case passed
    show ?thesis
    proof (cases "canonicalFQDN (d_Ext (ac_Deps A)) f")
      case None
      then show ?thesis using passed(2) assms(1) by (auto simp: fail_with_def still_refl)
    next
      case (Some n)
      obtain q w1 where q: "r_ZonesForTenant (d_Store (ac_Deps A)) (s_TenantID s) w = (q, w1)" by fastforce
      have "still w w1" using run_frame(5) [OF q] keepsE [OF store_inv(7) q assms(1)] by (simp add: still_def)
      then show ?thesis using passed(2) Some q tenant_zones [OF assms(1)] l
        by (auto simp: and_then_def fail_with_def ret_def split: sum.splits option.splits)
    qed
  qed (simp add: still_refl assms(1))
  then show "still w w'" "r = Inr z \<Longrightarrow> zs w (z_ID z) = Some z \<and> z_TenantID z = s_TenantID s" by blast+
qed

text \<open>What a challenge request may do: nothing, or change one TXT set of a zone of the tenant.\<close>

definition challenged :: "subjects \<Rightarrow> acme_request \<Rightarrow> 'w \<Rightarrow> 'w \<Rightarrow> bool" where
  "challenged s r w w' = (inv w' \<and> zs w' = zs w \<and> (ps w' = ps w \<or> (\<exists>z fqdn n p p'.
     ac_AllowedCaller A \<noteq> [] \<and> s_PeerSPIFFE s = ac_AllowedCaller A \<and> acme_check (d_Ext (ac_Deps A)) r = Inr fqdn \<and>
     RecordName (d_Ext (ac_Deps A)) (z_Name z) fqdn = Inr n \<and> zs w (z_ID z) = Some z \<and> z_TenantID z = s_TenantID s \<and>
     ps w (z_PDNSID z) = Some p \<and> ps w' = (ps w)(z_PDNSID z \<mapsto> p') \<and>
     (\<forall>q. q \<noteq> (n, ''TXT'') \<longrightarrow> content_of (pz_RRsets p') q = content_of (pz_RRsets p) q))))"

lemma still_challenged: "still w w' \<Longrightarrow> challenged s r w w'"
  by (simp add: challenged_def still_def)

lemma call_outcome:
  assumes inv: "inv w" and run: "acme_call A t f s r w = (q, w')"
    and f: "\<And>ch z fqdn w0. keeps (touched w0 z (txt_keys z fqdn)) (f ch z fqdn)"
  shows "challenged s r w w'"
proof -
  obtain u w1 where u: "acme_resolve A s r w = (u, w1)" by fastforce
  have audit: "still v v' \<Longrightarrow> still v (acme_audit A ch t zn fq e v')" for v v' ch zn fq e
    by (simp add: still_def acme_audit_def other_frame Let_def)
  have w1: "still w w1" using u inv find_outcome(1) [OF inv] unfolding acme_resolve_def
    by (auto simp: fail_with_def ret_def on_result_def still_refl split: sum.splits prod.splits if_splits)
  show ?thesis
  proof (cases u)
    case (Inl x)
    then show ?thesis using run u w1
      by (cases x) (auto simp: acme_call_def on_result_def effect_def fail_with_def intro!: still_challenged audit)
  next
    case (Inr x)
    obtain ch z fqdn where x: "x = (ch, z, fqdn)" by (cases x)
    have c: "Challenger s (ac_AllowedCaller A) = Inr ch" "acme_check (d_Ext (ac_Deps A)) r = Inr fqdn"
      "\<exists>w2. zones_FindForName (ac_Deps A) ch fqdn w = (Inr z, w2)"
      using u Inr x unfolding acme_resolve_def
      by (auto simp: fail_with_def ret_def on_result_def split: sum.splits prod.splits if_splits)
    have s: "ac_AllowedCaller A \<noteq> []" "s_PeerSPIFFE s = ac_AllowedCaller A" "s_TenantID ch = s_TenantID s"
      using c(1) by (auto simp: Challenger_def CallerIs_def split: option.splits if_splits)
    have z: "zs w (z_ID z) = Some z" "z_TenantID z = s_TenantID s" using c(3) find_outcome(2) [OF inv] s(3) by auto
    obtain g w2 where g: "f ch z fqdn w1 = (g, w2)" by fastforce
    have "touched w z (txt_keys z fqdn) w2"
      using keepsE [OF f g] touched_still [OF touched_refl [OF inv] w1] by blast
    then have t: "touched w z (txt_keys z fqdn) w'"
      using run u Inr x g keeps_reports(1) by (auto simp: acme_call_def on_result_def effect_def fail_with_def ret_def split: sum.splits)
    show ?thesis
    proof (cases "ps w' = ps w")
      case True
      then show ?thesis using t by (simp add: touched_def challenged_def)
    next
      case False
      then obtain n p p' where "RecordName (d_Ext (ac_Deps A)) (z_Name z) fqdn = Inr n" "ps w (z_PDNSID z) = Some p"
        "ps w' = (ps w)(z_PDNSID z \<mapsto> p')" "\<forall>q. q \<noteq> (n, ''TXT'') \<longrightarrow> content_of (pz_RRsets p') q = content_of (pz_RRsets p) q"
        using t unfolding touched_def txt_keys_def by fastforce
      then show ?thesis using t z s(1,2) c(2) unfolding challenged_def touched_def by blast
    qed
  qed
qed

lemma challenge_outcome:
  assumes "fqdn_law (d_Ext (ac_Deps A))" "split_law (d_Ext (ac_Deps A))" "inv w"
  shows "Present A s r w = (q, w') \<Longrightarrow> challenged s r w w'" "CleanUp A s r w = (q, w') \<Longrightarrow> challenged s r w w'"
  unfolding Present_def CleanUp_def by (erule call_outcome [OF assms(3)], rule keeps_challenge [OF assms(1,2)])+

lemma call_success:
  assumes inv: "inv w" and run: "acme_call A t f s r w = (Inr zn, w')"
  obtains ch z fqdn w1 u w2 where "acme_check (d_Ext (ac_Deps A)) r = Inr fqdn" "zs w (z_ID z) = Some z" "z_TenantID z = s_TenantID s"
    "zn = z_Name z" "still w w1" "f ch z fqdn w1 = (Inr u, w2)" "ps w' = ps w2"
proof -
  obtain q w1 where q: "acme_resolve A s r w = (q, w1)" by fastforce
  obtain ch z fqdn where x: "q = Inr (ch, z, fqdn)"
    using run q by (cases q) (auto simp: acme_call_def on_result_def effect_def fail_with_def)
  obtain g w2 where g: "f ch z fqdn w1 = (g, w2)" by fastforce
  obtain u where u: "g = Inr u" "zn = z_Name z" "ps w' = ps w2"
    using run q x g
    by (cases g) (auto simp: acme_call_def on_result_def effect_def fail_with_def ret_def acme_audit_def other_frame Let_def)
  have c: "Challenger s (ac_AllowedCaller A) = Inr ch" "acme_check (d_Ext (ac_Deps A)) r = Inr fqdn"
    and z: "zones_FindForName (ac_Deps A) ch fqdn w = (Inr z, w1)"
    using q x unfolding acme_resolve_def by (auto simp: fail_with_def ret_def on_result_def split: sum.splits prod.splits if_splits)
  have "s_TenantID ch = s_TenantID s" using c(1) by (auto simp: Challenger_def split: option.splits)
  then have "zs w (z_ID z) = Some z" "z_TenantID z = s_TenantID s" using find_outcome(2) [OF inv z refl] by simp_all
  then show ?thesis using that [OF c(2) _ _ u(2) find_outcome(1) [OF inv z]] g u by blast
qed

text \<open>A TTL below the limit: nothing is written.\<close>

lemma keeps_refused_Apply:
  assumes "ri_TTL inp < l_MinTTL l"
  shows "keeps (touched w0 y k) (records_Apply (ac_Deps A) l s z inp src)"
proof (rule keepsI)
  fix w r w' assume run: "records_Apply (ac_Deps A) l s z inp src w = (r, w')" and w: "touched w0 y k w"
  then have inv: "inv w" by (simp add: touched_def)
  obtain g w1 where g: "records_apply (ac_Deps A) l z inp w = (g, w1)" by fastforce
  have "\<exists>e. g = Inl e"
  proof (cases g)
    case (Inr rr)
    then obtain p :: pzone where "RecordSet (d_Ext (ac_Deps A)) l (z_Name z) inp (cloneRRsets (pz_RRsets p)) = Inr rr"
      using apply_outcome(3) [OF inv g] by blast
    then show ?thesis using assms RecordSet_ok by (metis linorder_not_less)
  qed simp
  then have "still w w1" using apply_outcome(2) [OF inv g] by blast
  then have "w' = w \<or> zs w' = zs w \<and> ps w' = ps w \<and> inv w'"
    using run g \<open>\<exists>e. g = Inl e\<close> by (auto simp: records_Apply_def on_result_def still_def elim!: checkE)
  then show "touched w0 y k w'" using w by (auto simp: touched_def)
qed

lemma keeps_unpublished:
  assumes "ac_TTL A < l_MinTTL (ac_Limits A)"
  shows "keeps (touched w0 y k) (Present A s r)"
proof -
  have "keeps (touched w0 y k) (acme_present A ch z f v)" for ch z f v
    unfolding acme_present_def
    by (intro act_keeps keeps_touched_current keeps_bookkeeping keeps_refused_Apply) (simp_all add: assms)
  moreover have "keeps (touched w0 y k) (zones_FindForName (ac_Deps A) ch f)" for ch f
    by (rule keeps_touched_still) (rule find_outcome(1))
  ultimately show ?thesis unfolding Present_def acme_call_def acme_resolve_def
    by (auto intro!: act_keeps keeps_reports split: prod.split)
qed

end

end
