(* ===== verification/Acme_Service.thy ===== *)
theory Acme_Service
  imports Acme Record_Service
begin

text \<open>
  ACME challenges in the wired module: which record set a challenge request can reach,
  what it does to the values there, and when no challenge can be published.
\<close>

section \<open>Wiring\<close>

definition acme_wire :: "settings \<Rightarrow> string \<Rightarrow> int \<Rightarrow> world acme_deps" where
  "acme_wire c caller ttl = acme_New \<lparr>ac_Deps = wire c, ac_Limits = cfg_Limits c, ac_AllowedCaller = caller, ac_TTL = ttl\<rparr>"

lemma acme_wire_simps [simp]:
  "ac_Deps (acme_wire c caller ttl) = wire c" "ac_Limits (acme_wire c caller ttl) = cfg_Limits c"
  "ac_AllowedCaller (acme_wire c caller ttl) = caller" "ac_TTL (acme_wire c caller ttl) = (if ttl \<le> 0 then acme_DefaultTTL else ttl)"
  by (simp_all add: acme_wire_def acme_New_def)

lemma challenge_zones:
  "m_zones (snd (mem_InsertChallenge ch m)) = m_zones m" "m_zones (snd (mem_DeleteChallenge t f v m)) = m_zones m"
  "m_zones (snd (mem_ChallengesOlderThan b n m)) = m_zones m"
  by (auto simp: mem_InsertChallenge_def mem_DeleteChallenge_def mem_ChallengesOlderThan_def mem_op_def mem_fail_def Let_def
      split: option.split sum.split prod.split)

lemma zones_of_tenant:
  assumes "mem_ok u m" "mem_ZonesForTenant t m = (Inr l, m')" "z \<in> set l"
  shows "mget (m_zones m) (z_ID z) = Some z \<and> z_TenantID z = t"
proof -
  have "z \<in> set (mvals (m_zones m))" "z_TenantID z = t"
    using assms(2,3) by (auto simp: mem_ZonesForTenant_def mem_op_def mem_fail_def tenantZones_def Let_def split: if_splits)
  then show ?thesis using assms(1) by (auto simp: mem_ok_def zones_ok_def gmap_def keyed_def mvals_def)
qed

lemma acme_contract:
  assumes e: "record_env (wire c) stored (world_inv Q (x_unicode (cfg_Ext c))) served"
  shows "acme_env (acme_wire c caller ttl) stored (world_inv Q (x_unicode (cfg_Ext c))) served"
proof (rule acme_env.intro)
  show "record_env (ac_Deps (acme_wire c caller ttl)) stored (world_inv Q (x_unicode (cfg_Ext c))) served"
    unfolding acme_wire_simps by (rule e)
  show "acme_env_axioms (acme_wire c caller ttl) stored (world_inv Q (x_unicode (cfg_Ext c))) served"
  proof (unfold_locales, unfold acme_wire_simps wire_simps store_calls)
    fix w t l w' z assume "world_inv Q (x_unicode (cfg_Ext c)) w" "on_mem (mem_ZonesForTenant t) w = (Inr l, w')" "z \<in> set l"
    then show "stored w (z_ID z) = Some z \<and> z_TenantID z = t"
      using zones_of_tenant by (auto simp: on_mem_run world_inv_def stored_def)
  qed (blast dest: mem_quiet [OF keeps_InsertChallenge challenge_zones(1)] mem_quiet [OF keeps_DeleteChallenge challenge_zones(2)]
      mem_quiet [OF keeps_reads [OF mem_reads(13)] challenge_zones(3)])+
qed

interpretation ca: acme_env "acme_wire c caller ttl" stored "world_ok (x_unicode (cfg_Ext c))" served for c caller ttl
  by (rule acme_contract) (rule zw.record_env_axioms)


interpretation cc: acme_env "acme_wire c caller ttl" stored "world_calm (x_unicode (cfg_Ext c))" served for c caller ttl
  by (rule acme_contract) (rule zc.record_env_axioms)

section \<open>Reach\<close>

text \<open>
  C10: A challenge request reaches one name only. Whoever calls, whatever the request and
  whichever calls fail, publishing and removing a challenge leave the stored zones as
  they are; what PowerDNS serves changes at most in one TXT set, for the configured
  caller, in a zone of the caller's tenant, at an owner name inside that zone that
  starts with the label \<open>_acme-challenge\<close>.
\<close>

theorem challenge_confined:
  assumes laws: "fqdn_law (cfg_Ext c)" "split_law (cfg_Ext c)" and ok: "world_ok (x_unicode (cfg_Ext c)) w"
    and run: "Present (acme_wire c caller ttl) s r w = (q, w') \<or> CleanUp (acme_wire c caller ttl) s r w = (q, w')"
  shows "stored w' = stored w \<and> (served w' = served w \<or> (\<exists>z zn n p p'. caller \<noteq> [] \<and> s_PeerSPIFFE s = caller \<and>
    stored w (z_ID z) = Some z \<and> z_TenantID z = s_TenantID s \<and> canonicalZone (cfg_Ext c) (z_Name z) = Inr zn \<and> InZone n zn \<and>
    prefix acme_Prefix n \<and> served w (z_PDNSID z) = Some p \<and> served w' = (served w)(z_PDNSID z \<mapsto> p') \<and>
    (\<forall>k. k \<noteq> (n, ''TXT'') \<longrightarrow> content_of (pz_RRsets p') k = content_of (pz_RRsets p) k)))"
proof -
  have ch: "ca.challenged c caller ttl s r w w'"
    using run ca.challenge_outcome [of c caller ttl w s r q w'] laws ok by auto
  show ?thesis
  proof (cases "served w' = served w")
    case True
    then show ?thesis using ch by (simp add: ca.challenged_def)
  next
    case False
    then obtain z fqdn n p p' where z: "caller \<noteq> []" "s_PeerSPIFFE s = caller" "acme_check (cfg_Ext c) r = Inr fqdn"
      "RecordName (cfg_Ext c) (z_Name z) fqdn = Inr n" "stored w (z_ID z) = Some z" "z_TenantID z = s_TenantID s"
      "served w (z_PDNSID z) = Some p" "served w' = (served w)(z_PDNSID z \<mapsto> p')"
      "\<forall>k. k \<noteq> (n, ''TXT'') \<longrightarrow> content_of (pz_RRsets p') k = content_of (pz_RRsets p) k" "stored w' = stored w"
      using ch unfolding ca.challenged_def acme_wire_simps wire_simps by blast
    obtain zn where zn: "canonicalZone (cfg_Ext c) (z_Name z) = Inr zn" "InZone n zn" by (rule RecordName_owner [OF laws z(4)])
    show ?thesis using z zn challenge_owner [OF laws(1) z(3,4)] by blast
  qed
qed

section \<open>A limit above the challenge TTL\<close>

text \<open>
  C35: With a lower TTL limit above 60 seconds, which the configuration admits, no
  challenge is ever published: the module wires the challenge service with its default
  TTL, and whatever the request and its outcome, what PowerDNS serves stays as it is.
\<close>

theorem challenge_ttl_below_limit:
  assumes "world_ok (x_unicode (cfg_Ext c)) w" and "60 < l_MinTTL (cfg_Limits c)"
    and "Present (acme_wire c caller 0) s r w = (q, w')"
  shows "stored w' = stored w \<and> served w' = served w"
proof -
  have "ca.touched c w z {} w'" for z
    using keepsE [OF ca.keeps_unpublished assms(3)] assms(1,2) ca.touched_refl by (simp add: acme_DefaultTTL_def)
  then show ?thesis by (simp add: ca.touched_def)
qed

section \<open>Values\<close>

definition txt_at :: "world \<Rightarrow> zone \<Rightarrow> string \<Rightarrow> record_line list" where
  "txt_at w z n = (case served w (z_PDNSID z) of None \<Rightarrow> []
     | Some p \<Rightarrow> (case content_of (pz_RRsets p) (n, ''TXT'') of None \<Rightarrow> [] | Some x \<Rightarrow> snd x))"

text \<open>
  The parser prints a TXT record of one quoted digest as it was written, and the TXT
  values of a zone are in the form the parser prints.
\<close>

definition txt_law :: "ext \<Rightarrow> bool" where
  "txt_law L = (\<forall>zn v r. canonicalZone L zn = Inr zn \<longrightarrow> valueRE v \<longrightarrow> x_NewRR L (rr_line zn ''TXT'' (quoted v)) = Some r \<longrightarrow>
     (\<exists>t. r = RR_other t \<and> x_rdata L r = quoted v))"

definition printed :: "ext \<Rightarrow> zone \<Rightarrow> record_line list \<Rightarrow> bool" where
  "printed L z recs = (\<forall>zn x d. canonicalZone L (z_Name z) = Inr zn \<longrightarrow> x \<in> set recs \<longrightarrow>
     content L ''TXT'' zn (rec_Content x) = Inr d \<longrightarrow> d = rec_Content x)"

lemma quoted_content:
  assumes "txt_law L" "canonicalZone L zn = Inr zn" "valueRE v" "content L ''TXT'' zn (quoted v) = Inr d"
  shows "d = quoted v"
proof -
  have "printable CHR 0x22" by code_simp
  then have t: "TrimSpace (quoted v) = quoted v" by (intro TrimSpace_id) (simp_all add: quoted_def)
  have p: "prepared L ''TXT'' (quoted v) = quoted v" by (simp add: prepared_def quoted_def)
  obtain r r' where r: "x_NewRR L (rr_line zn ''TXT'' (quoted v)) = Some r" "semantic L r = Inr r'" "d = x_rdata L r'"
    using assms(4) by (auto simp: content_def t p Let_def split: if_splits option.splits sum.splits)
  then show ?thesis using assms(1-3) unfolding txt_law_def by fastforce
qed

lemma printed_values:
  assumes "values_loop L t z 0 [] vs = Inr recs" "\<And>v d. v \<in> set vs \<Longrightarrow> content L t z (rv_Content v) = Inr d \<Longrightarrow> d = rv_Content v"
  shows "recs = map (\<lambda>v. \<lparr>rec_Content = rv_Content v, rec_Disabled = rv_Disabled v\<rparr>) vs"
proof -
  have "list_all2 (\<lambda>v r. content L t z (rv_Content v) = Inr (rec_Content r) \<and> rec_Disabled r = rv_Disabled v) vs recs"
    using values_loop_ok [OF assms(1)] by auto
  then show ?thesis using assms(2) by (induction rule: list_all2_induct) auto
qed

abbreviation view_of :: "record_line \<Rightarrow> value_view" where
  "view_of x \<equiv> \<lparr>vv_Content = rec_Content x, vv_Disabled = rec_Disabled x\<rparr>"

lemma calm_rrsets_missing:
  assumes "world_calm (x_unicode (cfg_Ext c)) w" and "served w (z_PDNSID z) = None"
  shows "\<exists>w'. records_rrsets (wire c) z w = (Inl notFound, w')"
proof -
  obtain w' where "p_GetZone (d_PDNS (wire c)) (z_PDNSID z) w = (Inl notFound, w')"
    using assms by (auto simp: on_pdns_def fake_GetZone_def fake_op_def fake_begin_def calm_def world_inv_def served_def fake_zone_def focus_def)
  moreover have "mapPDNS notFound = notFound" by code_simp
  ultimately show ?thesis by (simp add: records_rrsets_def and_then_def map_err_def)
qed

lemma calm_lookup:
  assumes laws: "fqdn_law (cfg_Ext c)" "split_law (cfg_Ext c)" "upper_law (cfg_Ext c)" and calm: "world_calm (x_unicode (cfg_Ext c)) w"
    and tidy: "tidy_world w" and run: "records_Lookup (wire c) s z \<lparr>si_Name = f, si_Type = ''TXT''\<rparr> w = (r, w')"
    and r: "case r of Inr v \<Rightarrow> vals = sv_Values v | Inl e \<Rightarrow> errIs e records_ErrNotFound \<and> vals = []"
  obtains n p where "RecordName (cfg_Ext c) (z_Name z) f = Inr n" "served w (z_PDNSID z) = Some p" "vals = map view_of (txt_at w z n)"
proof -
  have run': "check (Require None (withoutUser s) ZonesRead) (and_then (lift_res (RecordName (cfg_Ext c) (z_Name z) f))
     (\<lambda>n. and_then (records_rrsets (wire c) z) (\<lambda>cur. case List.find (same_fold (cfg_Ext c) n ''TXT'') cur of
     None \<Rightarrow> fail_with (Sent records_ErrNotFound) | Some x \<Rightarrow> ret (toView (cfg_Ext c) x)))) w = (r, w')"
    using run unfolding records_Lookup_def wire_simps set_id.simps upper_TXT .
  have rq: "Require None (withoutUser s) ZonesRead = None"
    using run' r Require_error [of None "withoutUser s" ZonesRead] by (cases "Require None (withoutUser s) ZonesRead") (auto simp: check_def fail_with_def)
  obtain n where n: "RecordName (cfg_Ext c) (z_Name z) f = Inr n"
    using run' r rq RecordName_error by (cases "RecordName (cfg_Ext c) (z_Name z) f") (fastforce simp: check_def and_then_def lift_res_def)+
  obtain p where p: "served w (z_PDNSID z) = Some p"
  proof (cases "served w (z_PDNSID z)")
    case None
    then show ?thesis using run' r rq n calm_rrsets_missing [OF calm None]
      by (auto simp: check_def and_then_def lift_res_def notFound_def)
  qed simp
  have td: "tidy (content_of (cloneRRsets (pz_RRsets p)))" using tidy p by (auto simp: tidy_world_def)
  have pn: "plain_name n" by (rule RecordName_owner [OF laws(1,2) n]) (rule owner_plain)
  have pt: "plain_type ''TXT''" by code_simp
  obtain w1 where "records_rrsets (wire c) z w = (Inr (cloneRRsets (pz_RRsets p)), w1)" using calm_rrsets [OF calm p] by blast
  then have "r = (case lookup_set (cloneRRsets (pz_RRsets p)) n ''TXT'' of None \<Rightarrow> Inl (Sent records_ErrNotFound) | Some x \<Rightarrow> Inr (toView (cfg_Ext c) x))"
    using run' rq n find_same_fold [OF td pn pt] by (auto simp: check_def and_then_def lift_res_def ret_def fail_with_def split: option.splits)
  then have "vals = map view_of (txt_at w z n)" using r p
    by (cases "lookup_set (pz_RRsets p) n ''TXT''") (simp_all add: lookup_clone txt_at_def content_of_def toView_def)
  with n p show ?thesis by (rule that)
qed

lemma txt_at_cong: "served w' = served w \<Longrightarrow> txt_at w' z n = txt_at w z n"
  by (simp add: txt_at_def)

lemma current_values:
  assumes laws: "fqdn_law (cfg_Ext c)" "split_law (cfg_Ext c)" "upper_law (cfg_Ext c)" and calm: "world_calm (x_unicode (cfg_Ext c)) w"
    and tidy: "tidy_world w" and run: "acme_current (acme_wire c caller ttl) s z f w = (Inr cur, w')"
  obtains n where "RecordName (cfg_Ext c) (z_Name z) f = Inr n" "zc.still c w w'"
    "(case cur of None \<Rightarrow> [] | Some rs \<Rightarrow> sv_Values rs) = map view_of (txt_at w z n)"
proof -
  obtain g w1 where g: "records_Lookup (wire c) s z \<lparr>si_Name = f, si_Type = ''CNAME''\<rparr> w = (g, w1)" by fastforce
  have s1: "zc.still c w w1" using cc.lookup_still [of c w caller ttl] calm g by simp
  obtain h w2 where h: "records_Lookup (wire c) s z \<lparr>si_Name = f, si_Type = ''TXT''\<rparr> w1 = (h, w2)" by fastforce
  have calm1: "world_calm (x_unicode (cfg_Ext c)) w1" and tidy1: "tidy_world w1" and sv: "served w1 = served w"
    using s1 tidy by (simp_all add: zc.still_def tidy_world_def)
  have s2: "zc.still c w1 w2" using cc.lookup_still [of c w1 caller ttl] calm1 h by simp
  have w2: "w' = w2" and hc: "case h of Inr v \<Rightarrow> cur = Some v | Inl e \<Rightarrow> errIs e records_ErrNotFound \<and> cur = None"
    using run g h by (auto simp: acme_current_def on_result_def fail_with_def ret_def split: sum.splits if_splits)
  then have "case h of Inr v \<Rightarrow> (case cur of None \<Rightarrow> [] | Some rs \<Rightarrow> sv_Values rs) = sv_Values v
      | Inl e \<Rightarrow> errIs e records_ErrNotFound \<and> (case cur of None \<Rightarrow> [] | Some rs \<Rightarrow> sv_Values rs) = []" by (cases h) auto
  from calm_lookup [OF laws calm1 tidy1 h this] obtain n where
    n: "RecordName (cfg_Ext c) (z_Name z) f = Inr n" "(case cur of None \<Rightarrow> [] | Some rs \<Rightarrow> sv_Values rs) = map view_of (txt_at w1 z n)" by metis
  have "zc.still c w w'" using s1 s2 w2 by (simp add: zc.still_def)
  then show ?thesis using that n txt_at_cong [OF sv] by simp
qed

lemma apply_values:
  assumes laws: "fqdn_law (cfg_Ext c)" "split_law (cfg_Ext c)" "upper_law (cfg_Ext c)" and calm: "world_calm (x_unicode (cfg_Ext c)) w"
    and i: "RecordName (cfg_Ext c) (z_Name z) (ri_Name inp) = Inr n" "ri_Type inp = ''TXT''"
    and pr: "\<And>v zn d. v \<in> set (ri_Values inp) \<Longrightarrow> canonicalZone (cfg_Ext c) (z_Name z) = Inr zn \<Longrightarrow>
      content (cfg_Ext c) ''TXT'' zn (rv_Content v) = Inr d \<Longrightarrow> d = rv_Content v"
    and run: "records_Apply (wire c) l s z inp src w = (Inr v, w')"
  shows "txt_at w' z n = map (\<lambda>v. \<lparr>rec_Content = rv_Content v, rec_Disabled = rv_Disabled v\<rparr>) (ri_Values inp)"
proof -
  obtain g w1 where g: "records_apply (wire c) l z inp w = (g, w1)" by fastforce
  obtain rr where rr: "g = Inr rr" "served w' = served w1"
    using run g by (cases g) (auto simp: records_Apply_def check_Inr on_result_def fail_with_def ret_def)
  obtain p :: pzone where p: "RecordSet (cfg_Ext c) l (z_Name z) inp (cloneRRsets (pz_RRsets p)) = Inr rr"
      "zc.rewritten (z_PDNSID z) (content_of (pz_RRsets p)) (spec_change (content_of (pz_RRsets p)) rr) w w1"
    using zc.apply_outcome(3) [OF calm g rr(1)] unfolding wire_simps by blast
  have key: "rs_Name rr = n" "rs_Type rr = ''TXT''" using RecordSet_key [OF laws(1,2) p(1)] i upper_TXT by simp_all
  obtain zn where zn: "canonicalZone (cfg_Ext c) (z_Name z) = Inr zn" "values_loop (cfg_Ext c) (rs_Type rr) zn 0 [] (ri_Values inp) = Inr (rs_Records rr)"
    using RecordSet_ok [OF p(1)] by metis
  have "rs_Records rr = map (\<lambda>v. \<lparr>rec_Content = rv_Content v, rec_Disabled = rv_Disabled v\<rparr>) (ri_Values inp)"
    by (rule printed_values [OF zn(2)]) (use pr zn(1) key(2) in auto)
  moreover have "txt_at w' z n = rs_Records rr"
    using p(2) rr(2) key RecordSet_plain(3) [OF laws p(1)] by (auto simp: zc.rewritten_def spec_change_def txt_at_def)
  ultimately show ?thesis by simp
qed

lemma calm_patch_error:
  assumes "world_calm (x_unicode (cfg_Ext c)) w" "records_patch (wire c) z rs w = (Inl e, w')"
  shows "\<not> errIs e records_ErrNotFound"
proof -
  have u: "first_error (patch_check zn) rs = Some x \<Longrightarrow> x = unprocessable" for zn x
    by (induction rs) (auto simp: patch_check_def split: option.splits if_splits)
  have "mapPDNS unprocessable = Sent zones_ErrRejected" "mapPDNS notFound = notFound" by code_simp+
  then show ?thesis using assms
    by (auto simp: records_patch_def map_err_def on_pdns_def focus_def fake_PatchRRsets_def fake_op_def fake_begin_def calm_def world_inv_def
        fake_zone_def notFound_def Let_def split: option.splits sum.splits prod.splits dest!: u)
qed

lemma removed_absent:
  assumes laws: "fqdn_law (cfg_Ext c)" "split_law (cfg_Ext c)" and calm: "world_calm (x_unicode (cfg_Ext c)) w" and tidy: "tidy_world w"
    and n: "RecordName (cfg_Ext c) (z_Name z) f = Inr n"
    and run: "records_remove (wire c) z \<lparr>si_Name = f, si_Type = ''TXT''\<rparr> w = (Inl e, w')" and e: "errIs e records_ErrNotFound"
  shows "txt_at w z n = []"
proof -
  have wr: "writable z = None" using run e by (auto simp: records_remove_def check_def writable_def fail_with_def split: if_splits)
  have k: "record_key (cfg_Ext c) z \<lparr>si_Name = f, si_Type = ''TXT''\<rparr> = Inr (n, ''TXT'')"
    using run e wr n by (auto simp: records_remove_def check_def record_key_def upper_TXT and_then_def lift_res_def Let_def split: if_splits)
  obtain p where p: "served w (z_PDNSID z) = Some p"
  proof (cases "served w (z_PDNSID z)")
    case None
    then show ?thesis using run e wr k calm_rrsets_missing [OF calm None]
      by (auto simp: records_remove_def check_def and_then_def lift_res_def notFound_def)
  qed simp
  obtain w1 where w1: "records_rrsets (wire c) z w = (Inr (cloneRRsets (pz_RRsets p)), w1)" using calm_rrsets [OF calm p] by blast
  have "zc.still c w w1" by (rule zc.rrsets_outcome(1) [OF calm w1])
  then have calm1: "world_calm (x_unicode (cfg_Ext c)) w1" by (simp add: zc.still_def)
  have "\<not> find_set (cfg_Ext c) (cloneRRsets (pz_RRsets p)) n ''TXT''"
    using run wr k w1 e calm_patch_error [OF calm1]
    by (auto simp: records_remove_def check_def and_then_def lift_res_def ret_def split: if_splits sum.splits prod.splits)
  then have none: "List.find (same_fold (cfg_Ext c) n ''TXT'') (cloneRRsets (pz_RRsets p)) = None"
    by (simp add: find_set_def find_None_iff list_ex_iff)
  have td: "tidy (content_of (cloneRRsets (pz_RRsets p)))" using tidy p by (auto simp: tidy_world_def)
  have pn: "plain_name n" by (rule RecordName_owner [OF laws n]) (rule owner_plain)
  have "plain_type ''TXT''" by code_simp
  from find_same_fold [OF td pn this] none show ?thesis using p by (simp add: lookup_clone txt_at_def content_of_def)
qed

lemma remove_values:
  assumes laws: "fqdn_law (cfg_Ext c)" "split_law (cfg_Ext c)" and calm: "world_calm (x_unicode (cfg_Ext c)) w" and tidy: "tidy_world w"
    and n: "RecordName (cfg_Ext c) (z_Name z) f = Inr n"
    and run: "records_Remove (wire c) s z \<lparr>si_Name = f, si_Type = ''TXT''\<rparr> src w = (Inr u, w')"
  shows "txt_at w' z n = []"
proof -
  obtain g w1 where g: "records_remove (wire c) z \<lparr>si_Name = f, si_Type = ''TXT''\<rparr> w = (g, w1)" by fastforce
  show ?thesis
  proof (cases g)
    case (Inl e)
    then have e: "errIs e records_ErrNotFound" and w': "w' = w1"
      using run g by (auto simp: records_Remove_def records_removed_def check_Inr on_result_def fail_with_def ret_def split: if_splits)
    have "zc.still c w w1" using zc.remove_outcome(2) [OF calm g Inl] .
    then show ?thesis using removed_absent [OF laws calm tidy n g [unfolded Inl] e] w' txt_at_cong by (metis zc.still_def)
  next
    case (Inr key)
    have sv: "served w' = served w1"
      using run g Inr by (auto simp: records_Remove_def records_removed_def check_Inr on_result_def ret_def split: prod.splits)
    obtain p :: pzone where p: "record_key (cfg_Ext c) z \<lparr>si_Name = f, si_Type = ''TXT''\<rparr> = Inr key"
        "zc.rewritten (z_PDNSID z) (content_of (pz_RRsets p)) ((content_of (pz_RRsets p))(key := None)) w w1"
      using zc.remove_outcome(3) [OF calm g Inr] unfolding wire_simps by blast
    have "key = (n, ''TXT'')" using p(1) n upper_TXT by (auto simp: record_key_def Let_def split: if_splits)
    then show ?thesis using p(2) sv by (auto simp: zc.rewritten_def txt_at_def)
  qed
qed

lemma copy_lines [simp]: "map (\<lambda>x. \<lparr>rec_Content = rec_Content x, rec_Disabled = rec_Disabled x\<rparr>) recs = recs"
  by (rule map_idI) simp

lemma apply_calm:
  assumes "fqdn_law (cfg_Ext c)" "split_law (cfg_Ext c)" "upper_law (cfg_Ext c)" "world_calm (x_unicode (cfg_Ext c)) w" "tidy_world w"
    "records_Apply (wire c) l s z inp src w = (r, w')"
  shows "world_calm (x_unicode (cfg_Ext c)) w'"
  using keepsE [OF zc.keeps_Apply assms(6)] assms(1-5) by (simp add: zc.record_sound_def zc.tidy_zones_def tidy_world_def)

lemma books_served:
  assumes "world_calm (x_unicode (cfg_Ext c)) w"
  shows "acme_record (acme_wire c caller ttl) s z f v w = (r, w') \<Longrightarrow> served w' = served w"
    "r_DeleteChallenge (d_Store (wire c)) t f v w = (r, w') \<Longrightarrow> served w' = served w"
proof -
  have t: "cc.touched c w z {} w" by (rule cc.touched_refl [OF assms])
  show "acme_record (acme_wire c caller ttl) s z f v w = (r, w') \<Longrightarrow> served w' = served w"
    using keepsE [OF cc.keeps_bookkeeping(1) _ t] by (force simp: cc.touched_def)
  show "r_DeleteChallenge (d_Store (wire c)) t f v w = (r, w') \<Longrightarrow> served w' = served w"
    by (auto simp: on_mem_run served_def)
qed

text \<open>The digest added to the values, and taken out of them.\<close>

definition with_value :: "string \<Rightarrow> record_line list \<Rightarrow> record_line list" where
  "with_value v recs = (if quoted v \<in> rec_Content ` set recs then recs else recs @ [\<lparr>rec_Content = quoted v, rec_Disabled = False\<rparr>])"

definition without_value :: "string \<Rightarrow> record_line list \<Rightarrow> record_line list" where
  "without_value v recs = filter (\<lambda>x. rec_Content x \<noteq> quoted v) recs"

lemma present_values:
  assumes laws: "fqdn_law (cfg_Ext c)" "split_law (cfg_Ext c)" "upper_law (cfg_Ext c)" "txt_law (cfg_Ext c)" and v: "valueRE v"
    and calm: "world_calm (x_unicode (cfg_Ext c)) w" and tidy: "tidy_world w" and pr: "\<And>n. printed (cfg_Ext c) z (txt_at w z n)"
    and run: "acme_present (acme_wire c caller ttl) s z f v w = (Inr u, w')"
  obtains n where "RecordName (cfg_Ext c) (z_Name z) f = Inr n" "txt_at w' z n = with_value v (txt_at w z n)"
proof -
  obtain cur w1 where cur: "acme_current (acme_wire c caller ttl) s z f w = (Inr cur, w1)"
    using run by (auto simp: acme_present_def elim: and_thenE)
  obtain n where n: "RecordName (cfg_Ext c) (z_Name z) f = Inr n" "zc.still c w w1"
    "(case cur of None \<Rightarrow> [] | Some rs \<Rightarrow> sv_Values rs) = map view_of (txt_at w z n)" by (rule current_values [OF laws(1-3) calm tidy cur])
  let ?vals = "map view_of (txt_at w z n)"
  let ?inp = "\<lparr>ri_Name = f, ri_Type = ''TXT'', ri_TTL = ac_TTL (acme_wire c caller ttl),
     ri_Values = map same_value ?vals @ [\<lparr>rv_Content = quoted v, rv_Disabled = False\<rparr>],
     ri_Comment = (case cur of None \<Rightarrow> [] | Some rs \<Rightarrow> sv_Comment rs)\<rparr>"
  have calm1: "world_calm (x_unicode (cfg_Ext c)) w1" and sv1: "served w1 = served w" using n(2) by (simp_all add: zc.still_def)
  have hit: "list_ex (\<lambda>x. vv_Content x = quoted v) ?vals \<longleftrightarrow> quoted v \<in> rec_Content ` set (txt_at w z n)" by (force simp: list_ex_iff)
  show ?thesis
  proof (cases "quoted v \<in> rec_Content ` set (txt_at w z n)")
    case True
    then have "acme_record (acme_wire c caller ttl) s z f v w1 = (Inr u, w')"
      using run cur n(3) hit by (simp add: acme_present_def and_then_def Let_def)
    then have "txt_at w' z n = txt_at w z n" using books_served(1) [OF calm1] sv1 txt_at_cong by metis
    then show ?thesis using that n(1) True by (simp add: with_value_def)
  next
    case False
    then have go: "and_then (map_err mapWrite (records_Apply (wire c) (cfg_Limits c) s z ?inp SourceACME))
        (\<lambda>_. acme_record (acme_wire c caller ttl) s z f v) w1 = (Inr u, w')"
      using run cur n(3) hit by (simp add: acme_present_def and_then_def Let_def)
    obtain x w2 where a: "records_Apply (wire c) (cfg_Limits c) s z ?inp SourceACME w1 = (Inr x, w2)"
      and b: "acme_record (acme_wire c caller ttl) s z f v w2 = (Inr u, w')"
      using go by (auto elim!: and_thenE map_errE)
    have calm2: "world_calm (x_unicode (cfg_Ext c)) w2" using apply_calm [OF laws(1-3) calm1 _ a] tidy sv1 by (simp add: tidy_world_def)
    have "txt_at w2 z n = map (\<lambda>v. \<lparr>rec_Content = rv_Content v, rec_Disabled = rv_Disabled v\<rparr>) (ri_Values ?inp)"
    proof (rule apply_values [OF laws(1-3) calm1 _ _ _ a])
      fix y zn d assume y: "y \<in> set (ri_Values ?inp)" and zn: "canonicalZone (cfg_Ext c) (z_Name z) = Inr zn"
        and d: "content (cfg_Ext c) ''TXT'' zn (rv_Content y) = Inr d"
      have "canonicalZone (cfg_Ext c) zn = Inr zn" by (rule canonicalZone_id [OF laws(1,2) canonicalZone_canonical [OF laws(1,2) zn]])
      then show "d = rv_Content y"
        using y d zn pr quoted_content [OF laws(4) _ v] by (auto simp: same_value_def printed_def)
    qed (simp_all add: n(1))
    also have "\<dots> = txt_at w z n @ [\<lparr>rec_Content = quoted v, rec_Disabled = False\<rparr>]"
      by (simp add: same_value_def comp_def)
    finally have "txt_at w' z n = txt_at w z n @ [\<lparr>rec_Content = quoted v, rec_Disabled = False\<rparr>]"
      using books_served(1) [OF calm2 b] txt_at_cong by metis
    then show ?thesis using that n(1) False by (simp add: with_value_def)
  qed
qed

lemma cleanup_values:
  assumes laws: "fqdn_law (cfg_Ext c)" "split_law (cfg_Ext c)" "upper_law (cfg_Ext c)"
    and calm: "world_calm (x_unicode (cfg_Ext c)) w" and tidy: "tidy_world w" and pr: "\<And>n. printed (cfg_Ext c) z (txt_at w z n)"
    and run: "acme_remove (acme_wire c caller ttl) s z f v w = (Inr u, w')"
  obtains n where "RecordName (cfg_Ext c) (z_Name z) f = Inr n" "txt_at w' z n = without_value v (txt_at w z n)"
proof -
  obtain cur w1 where cur: "acme_current (acme_wire c caller ttl) s z f w = (Inr cur, w1)"
    using run by (auto simp: acme_remove_def elim: and_thenE)
  obtain n where n: "RecordName (cfg_Ext c) (z_Name z) f = Inr n" "zc.still c w w1"
    "(case cur of None \<Rightarrow> [] | Some rs \<Rightarrow> sv_Values rs) = map view_of (txt_at w z n)" by (rule current_values [OF laws(1-3) calm tidy cur])
  have calm1: "world_calm (x_unicode (cfg_Ext c)) w1" and sv1: "served w1 = served w" and tidy1: "tidy_world w1"
    using n(2) tidy by (simp_all add: zc.still_def tidy_world_def)
  obtain x w2 where d: "(case cur of None \<Rightarrow> ret () | Some rs \<Rightarrow> acme_drop (acme_wire c caller ttl) s z rs f v) w1 = (Inr x, w2)"
    and b: "\<exists>q. r_DeleteChallenge (d_Store (wire c)) (z_TenantID z) f v w2 = (q, w')"
    using run cur by (auto simp: acme_remove_def and_then_def on_result_def ret_def split: sum.splits prod.splits)
  have "served w' = served w2" using b by (auto simp: on_mem_run served_def)
  moreover have "txt_at w2 z n = without_value v (txt_at w z n)"
  proof (cases cur)
    case None
    then show ?thesis using d n(3) txt_at_cong [OF sv1] by (simp add: ret_def without_value_def)
  next
    case (Some rs)
    let ?left = "filter (\<lambda>x. vv_Content x \<noteq> quoted v) (sv_Values rs)"
    have vals: "sv_Values rs = map view_of (txt_at w z n)" using n(3) Some by simp
    have left: "map (\<lambda>v. \<lparr>rec_Content = rv_Content v, rec_Disabled = rv_Disabled v\<rparr>) (map same_value ?left) = without_value v (txt_at w z n)"
      unfolding vals without_value_def by (simp add: filter_map comp_def same_value_def)
    consider "\<not> list_ex (\<lambda>x. vv_Content x = quoted v) (sv_Values rs)" | "?left = []" "list_ex (\<lambda>x. vv_Content x = quoted v) (sv_Values rs)"
      | "?left \<noteq> []" "list_ex (\<lambda>x. vv_Content x = quoted v) (sv_Values rs)" by blast
    then show ?thesis
    proof cases
      case 1
      then have "w2 = w1" "without_value v (txt_at w z n) = txt_at w z n"
        using d Some by (auto simp: acme_drop_def ret_def without_value_def vals list_ex_iff intro!: filter_True)
      then show ?thesis using txt_at_cong [OF sv1] by simp
    next
      case 2
      then have "\<exists>u. records_Remove (wire c) s z \<lparr>si_Name = f, si_Type = ''TXT''\<rparr> SourceACME w1 = (Inr u, w2)"
        using d Some by (auto simp: acme_drop_def elim!: map_errE)
      then show ?thesis using remove_values [OF laws(1,2) calm1 tidy1 n(1)] left 2 by auto
    next
      case 3
      let ?inp = "\<lparr>ri_Name = f, ri_Type = ''TXT'', ri_TTL = uint (sv_TTL rs), ri_Values = map same_value ?left, ri_Comment = sv_Comment rs\<rparr>"
      obtain y where a: "records_Apply (wire c) (cfg_Limits c) s z ?inp SourceACME w1 = (Inr y, w2)"
        using d Some 3 by (auto simp: acme_drop_def ret_def elim!: map_errE and_thenE)
      have "txt_at w2 z n = map (\<lambda>v. \<lparr>rec_Content = rv_Content v, rec_Disabled = rv_Disabled v\<rparr>) (ri_Values ?inp)"
        by (rule apply_values [OF laws calm1 _ _ _ a]) (use pr in \<open>auto simp: n(1) vals same_value_def printed_def\<close>)
      then show ?thesis using left by simp
    qed
  qed
  ultimately show ?thesis using that n(1) txt_at_cong by metis
qed

lemma call_values:
  assumes laws: "fqdn_law (cfg_Ext c)" and calm: "world_calm (x_unicode (cfg_Ext c)) w" and tidy: "tidy_world w"
    and pr: "\<And>z n. stored w (z_ID z) = Some z \<Longrightarrow> printed (cfg_Ext c) z (txt_at w z n)" and run: "acme_call (acme_wire c caller ttl) t f s r w = (Inr zn, w')"
    and f: "\<And>ch z fq w1 u w2. valueRE (rq_Value r) \<Longrightarrow> world_calm (x_unicode (cfg_Ext c)) w1 \<Longrightarrow> tidy_world w1 \<Longrightarrow>
      (\<And>n. printed (cfg_Ext c) z (txt_at w1 z n)) \<Longrightarrow> f ch z fq w1 = (Inr u, w2) \<Longrightarrow>
      \<exists>n. RecordName (cfg_Ext c) (z_Name z) fq = Inr n \<and> txt_at w2 z n = g (txt_at w1 z n)"
  shows "\<exists>z fqdn n. stored w (z_ID z) = Some z \<and> z_TenantID z = s_TenantID s \<and> zn = z_Name z \<and>
    acme_check (cfg_Ext c) r = Inr fqdn \<and> RecordName (cfg_Ext c) zn fqdn = Inr n \<and> prefix acme_Prefix n \<and>
    txt_at w' z n = g (txt_at w z n)"
proof -
  from cc.call_success [OF calm run] obtain ch z fqdn w1 u w2 where
    z: "acme_check (cfg_Ext c) r = Inr fqdn" "stored w (z_ID z) = Some z" "z_TenantID z = s_TenantID s" "zn = z_Name z" "zc.still c w w1"
    and e: "f ch z fqdn w1 = (Inr u, w2)" and sv: "served w' = served w2"
    unfolding acme_wire_simps wire_simps by metis
  have w1: "world_calm (x_unicode (cfg_Ext c)) w1" "tidy_world w1" "served w1 = served w" using z(5) tidy by (simp_all add: zc.still_def tidy_world_def)
  have v: "valueRE (rq_Value r)" using z(1) by (auto simp: acme_check_def split: if_splits)
  have pr1: "printed (cfg_Ext c) z (txt_at w1 z n)" for n using pr z(2) txt_at_cong [OF w1(3)] by simp
  obtain n where n: "RecordName (cfg_Ext c) (z_Name z) fqdn = Inr n" "txt_at w2 z n = g (txt_at w1 z n)" using f [OF v w1(1,2) pr1 e] by blast
  then show ?thesis using z challenge_owner [OF laws z(1) n(1)] txt_at_cong [OF sv] txt_at_cong [OF w1(3)] by metis
qed

text \<open>
  C18: Publishing adds, cleaning up removes, and nothing else happens to the values at the
  name. While PowerDNS answers, a successful request has found a zone of the caller's
  tenant, whose name it returns and to which the requested challenge name belongs;
  afterwards the TXT values of that zone at the owner name of the request, which starts
  with the challenge label, are, in order and with their disabled flags, those from
  before with the quoted digest appended unless it was there, or with every occurrence of
  the digest taken out.
\<close>

theorem challenge_values:
  assumes laws: "fqdn_law (cfg_Ext c)" "split_law (cfg_Ext c)" "upper_law (cfg_Ext c)" "txt_law (cfg_Ext c)"
    and calm: "world_calm (x_unicode (cfg_Ext c)) w" and tidy: "tidy_world w"
    and pr: "\<And>z n. stored w (z_ID z) = Some z \<Longrightarrow> printed (cfg_Ext c) z (txt_at w z n)"
  shows "(Present (acme_wire c caller ttl) s r w = (Inr zn, w') \<longrightarrow> (\<exists>z fqdn n. stored w (z_ID z) = Some z \<and> z_TenantID z = s_TenantID s \<and>
       zn = z_Name z \<and> acme_check (cfg_Ext c) r = Inr fqdn \<and> RecordName (cfg_Ext c) zn fqdn = Inr n \<and> prefix acme_Prefix n \<and>
       txt_at w' z n = with_value (rq_Value r) (txt_at w z n))) \<and>
     (CleanUp (acme_wire c caller ttl) s r w = (Inr zn, w') \<longrightarrow> (\<exists>z fqdn n. stored w (z_ID z) = Some z \<and> z_TenantID z = s_TenantID s \<and>
       zn = z_Name z \<and> acme_check (cfg_Ext c) r = Inr fqdn \<and> RecordName (cfg_Ext c) zn fqdn = Inr n \<and> prefix acme_Prefix n \<and>
       txt_at w' z n = without_value (rq_Value r) (txt_at w z n)))"
proof (intro conjI impI)
  assume run: "Present (acme_wire c caller ttl) s r w = (Inr zn, w')"
  show "\<exists>z fqdn n. stored w (z_ID z) = Some z \<and> z_TenantID z = s_TenantID s \<and> zn = z_Name z \<and> acme_check (cfg_Ext c) r = Inr fqdn \<and>
      RecordName (cfg_Ext c) zn fqdn = Inr n \<and> prefix acme_Prefix n \<and> txt_at w' z n = with_value (rq_Value r) (txt_at w z n)"
  proof (rule call_values [OF laws(1) calm tidy pr run [unfolded Present_def]])
    fix ch z fq w1 u w2 assume a: "valueRE (rq_Value r)" "world_calm (x_unicode (cfg_Ext c)) w1" "tidy_world w1"
      "\<And>n. printed (cfg_Ext c) z (txt_at w1 z n)" "acme_present (acme_wire c caller ttl) ch z fq (rq_Value r) w1 = (Inr u, w2)"
    show "\<exists>n. RecordName (cfg_Ext c) (z_Name z) fq = Inr n \<and> txt_at w2 z n = with_value (rq_Value r) (txt_at w1 z n)"
      by (rule present_values [OF laws a]) blast
  qed
next
  assume run: "CleanUp (acme_wire c caller ttl) s r w = (Inr zn, w')"
  show "\<exists>z fqdn n. stored w (z_ID z) = Some z \<and> z_TenantID z = s_TenantID s \<and> zn = z_Name z \<and> acme_check (cfg_Ext c) r = Inr fqdn \<and>
      RecordName (cfg_Ext c) zn fqdn = Inr n \<and> prefix acme_Prefix n \<and> txt_at w' z n = without_value (rq_Value r) (txt_at w z n)"
  proof (rule call_values [OF laws(1) calm tidy pr run [unfolded CleanUp_def]])
    fix ch z fq w1 u w2 assume a: "world_calm (x_unicode (cfg_Ext c)) w1" "tidy_world w1"
      "\<And>n. printed (cfg_Ext c) z (txt_at w1 z n)" "acme_remove (acme_wire c caller ttl) ch z fq (rq_Value r) w1 = (Inr u, w2)"
    show "\<exists>n. RecordName (cfg_Ext c) (z_Name z) fq = Inr n \<and> txt_at w2 z n = without_value (rq_Value r) (txt_at w1 z n)"
      by (rule cleanup_values [OF laws(1-3) a]) blast
  qed
qed


section \<open>Concrete requests\<close>

definition lcm_peer :: "string \<Rightarrow> subjects" where
  "lcm_peer t = Module t ''spiffe://x/lcm''"

definition lcm_request :: acme_request where
  "lcm_request = \<lparr>rq_Domain = ''*.a.com'', rq_FQDN = ''_acme-challenge.a.com'', rq_Value = replicate 43 CHR ''x''\<rparr>"

definition lcm_wire :: "world acme_deps" where
  "lcm_wire = acme_wire demo_settings ''spiffe://x/lcm'' 0"

definition lcm_read :: world where
  "lcm_read = demo_created\<lparr>w_pdns := (w_pdns demo_created)\<lparr>f_Calls := f_Calls (w_pdns demo_created) @ [''GetZone a.com.'', ''GetZone a.com.'']\<rparr>\<rparr>"

definition lcm_rrset :: rrset where
  "lcm_rrset = \<lparr>rs_Name = ''_acme-challenge.a.com.'', rs_Type = ''TXT'', rs_TTL = 60, rs_ChangeType = ChangeReplace,
     rs_Records = [\<lparr>rec_Content = quoted (replicate 43 CHR ''x''), rec_Disabled = False\<rparr>], rs_Comments = Some []\<rparr>"

lemma lcm_resolve: "acme_resolve lcm_wire (lcm_peer ''a'') lcm_request demo_created =
   (Inr ((lcm_peer ''a'')\<lparr>s_acme := True\<rparr>, demo_row, ''_acme-challenge.a.com.''), demo_created)"
  by code_simp

lemma lcm_current: "acme_current lcm_wire ((lcm_peer ''a'')\<lparr>s_acme := True\<rparr>) demo_row ''_acme-challenge.a.com.'' demo_created = (Inr None, lcm_read)"
  by code_simp

lemma lcm_apply: "fst (records_apply (wire demo_settings) DefaultLimits demo_row \<lparr>ri_Name = ''_acme-challenge.a.com.'', ri_Type = ''TXT'', ri_TTL = 60,
   ri_Values = [\<lparr>rv_Content = quoted (replicate 43 CHR ''x''), rv_Disabled = False\<rparr>], ri_Comment = []\<rparr> lcm_read) = Inr lcm_rrset"
  by code_simp

lemma lcm_Present: "\<exists>w'. Present lcm_wire (lcm_peer ''a'') lcm_request demo_created = (Inr ''a.com.'', w')"
proof -
  let ?s = "(lcm_peer ''a'')\<lparr>s_acme := True\<rparr>" and ?f = "''_acme-challenge.a.com.''" and ?v = "replicate 43 CHR ''x''"
  let ?inp = "\<lparr>ri_Name = ?f, ri_Type = ''TXT'', ri_TTL = 60, ri_Values = [\<lparr>rv_Content = quoted ?v, rv_Disabled = False\<rparr>], ri_Comment = []\<rparr>"
  obtain w1 where a: "records_apply (wire demo_settings) DefaultLimits demo_row ?inp lcm_read = (Inr lcm_rrset, w1)"
    using lcm_apply by (metis prod.collapse)
  have rq: "Require None (withoutUser ?s) ZonesManage = None" "z_Name demo_row = ''a.com.''" by code_simp+
  have ap: "\<exists>x w2. records_Apply (wire demo_settings) DefaultLimits ?s demo_row ?inp SourceACME lcm_read = (Inr x, w2)"
    using rq a by (simp add: records_Apply_def check_def on_result_def ret_def)
  have w: "lcm_wire = \<lparr>ac_Deps = wire demo_settings, ac_Limits = DefaultLimits, ac_AllowedCaller = ''spiffe://x/lcm'', ac_TTL = 60\<rparr>"
    by (simp add: lcm_wire_def acme_wire_def acme_New_def demo_settings_def acme_DefaultTTL_def)
  have rec: "\<exists>w3. acme_record lcm_wire ?s demo_row ?f ?v w2 = (Inr (), w3)" for w2
    by (simp add: acme_record_def on_result_def ret_def split: prod.split)
  have "\<exists>w3. acme_present lcm_wire ?s demo_row ?f ?v demo_created = (Inr (), w3)"
    unfolding acme_present_def and_then_def lcm_current using ap rec by (auto simp: w map_err_def)
  then show ?thesis using rq(2) lcm_resolve
    by (auto simp: Present_def acme_call_def on_result_def ret_def lcm_request_def)
qed

lemma txt_law_sample: "txt_law sample_ext"
  unfolding txt_law_def
proof (intro allI impI)
  fix zn v r assume z: "canonicalZone sample_ext zn = Inr zn" and v: "valueRE v"
    and r: "x_NewRR sample_ext (rr_line zn ''TXT'' (quoted v)) = Some r"
  have sp: "\<not> printable CHR '' ''" "\<not> value_char CHR '' ''" by code_simp+
  have "plain_name zn" by (rule canonical_plain [OF canonicalZone_canonical [OF sample_laws z]])
  then have zs: "CHR '' '' \<notin> set zn" using plain_name_chars(1) sp(1) by blast
  have vs: "CHR '' '' \<notin> set (quoted v)" using v sp(2) by (auto simp: valueRE_def quoted_def list_all_iff)
  have "rr_line zn ''TXT'' (quoted v) = Join '' '' [zn, ''3600'', ''IN'', ''TXT'', quoted v]" by (simp add: rr_line_def)
  then have "Split CHR '' '' (rr_line zn ''TXT'' (quoted v)) = [zn, ''3600'', ''IN'', ''TXT'', quoted v]"
    using Split_Join [of "[zn, ''3600'', ''IN'', ''TXT'', quoted v]" "CHR '' ''"] zs vs by simp
  then show "\<exists>t. r = RR_other t \<and> x_rdata sample_ext r = quoted v" using r by (auto simp: sample_ext_def)
qed

lemma demo_txt: "txt_at demo_created z n = []"
proof -
  have "content_of (pz_RRsets demo_served) (n, ''TXT'') = None"
    by (auto simp: demo_served_def initial_sets_def plain_set_def content_of_def lookup_set_def same_set_def cloneRRsets_def cloneRRset_def)
  then show ?thesis by (simp add: txt_at_def demo_created_view split: option.split)
qed

theorem challenge_confined_witness:
  "served (snd (Present lcm_wire (lcm_peer ''b'') lcm_request demo_created)) ''a.com.'' = Some demo_served"
proof -
  obtain q w' where run: "Present lcm_wire (lcm_peer ''b'') lcm_request demo_created = (q, w')" by fastforce
  have d: "s_TenantID (lcm_peer ''b'') \<noteq> z_TenantID demo_row" "z_PDNSID demo_row = ''a.com.''" by code_simp+
  have "served w' = served demo_created"
    using challenge_confined [OF demo_laws(1,2) demo_calm(2) disjI1 [OF run [unfolded lcm_wire_def]]] d(1)
    by (auto simp: demo_created_view split: if_splits)
  then show ?thesis using run d(2) by (simp add: demo_created_view)
qed

theorem challenge_values_witness:
  "\<exists>w'. Present lcm_wire (lcm_peer ''a'') lcm_request demo_created = (Inr ''a.com.'', w') \<and>
     txt_at w' demo_row ''_acme-challenge.a.com.'' = [\<lparr>rec_Content = quoted (replicate 43 CHR ''x''), rec_Disabled = False\<rparr>]"
proof -
  obtain w' where run: "Present lcm_wire (lcm_peer ''a'') lcm_request demo_created = (Inr ''a.com.'', w')" using lcm_Present by blast
  have t: "txt_law (cfg_Ext demo_settings)" by (simp add: demo_settings_def txt_law_sample)
  have f: "acme_check (cfg_Ext demo_settings) lcm_request = Inr ''_acme-challenge.a.com.''"
    "RecordName (cfg_Ext demo_settings) ''a.com.'' ''_acme-challenge.a.com.'' = Inr ''_acme-challenge.a.com.''" by code_simp+
  have "\<exists>z. stored demo_created (z_ID z) = Some z \<and>
      txt_at w' z ''_acme-challenge.a.com.'' = with_value (rq_Value lcm_request) (txt_at demo_created z ''_acme-challenge.a.com.'')"
    using challenge_values [OF demo_laws t demo_calm(1) demo_tidy, of "''spiffe://x/lcm''" 0 "lcm_peer ''a''" lcm_request "''a.com.''" w'] run f
    by (auto simp: demo_txt printed_def lcm_wire_def)
  then have "txt_at w' demo_row ''_acme-challenge.a.com.'' = with_value (rq_Value lcm_request) []"
    by (auto simp: demo_txt demo_created_view split: if_splits)
  then show ?thesis using run by (auto simp: with_value_def lcm_request_def)
qed

theorem challenge_ttl_below_limit_witness:
  "served (snd (Present (acme_wire (demo_settings\<lparr>cfg_Limits := DefaultLimits\<lparr>l_MinTTL := 300\<rparr>\<rparr>) ''spiffe://x/lcm'' 0)
     (lcm_peer ''a'') lcm_request demo_created)) ''a.com.'' = Some demo_served"
proof -
  let ?c = "demo_settings\<lparr>cfg_Limits := DefaultLimits\<lparr>l_MinTTL := 300\<rparr>\<rparr>"
  obtain q w' where run: "Present (acme_wire ?c ''spiffe://x/lcm'' 0) (lcm_peer ''a'') lcm_request demo_created = (q, w')" by fastforce
  have "z_PDNSID demo_row = ''a.com.''" by code_simp
  then show ?thesis using challenge_ttl_below_limit [OF _ _ run] demo_calm(2) run by (simp add: demo_created_view)
qed

end
