(* ===== verification/Backup.thy ===== *)
theory Backup
  imports Tenant_Frame
begin

text \<open>
  Export and import of a tenant's metadata, \<^verbatim>\<open>internal/backup/backup.go\<close>. The operations
  return the error next to what was done so far, so the result of an import
  accompanies its error. The JSON decoder is an argument; nil and empty slices are one
  value. A store that panics while sorting supermasters is \<open>None\<close>.
\<close>

section \<open>Documents\<close>

definition SchemaVersion :: int where "SchemaVersion = 1"
definition ModeSkip :: string where "ModeSkip = ''skip''"
definition ModeOverwrite :: string where "ModeOverwrite = ''overwrite''"
definition MaxRows :: nat where "MaxRows = 20000"
definition MaxBindBytes :: nat where "MaxBindBytes = 48 * 2 ^ 20"
definition maxDesc :: nat where "maxDesc = 1000"
definition CZones :: string where "CZones = ''zones''"
definition CTemplates :: string where "CTemplates = ''templates''"
definition CSupermasters :: string where "CSupermasters = ''supermasters''"
definition backup_placeholderZone :: string where "backup_placeholderZone = ''placeholder.example.''"

definition BackupExport :: string where "BackupExport = ''backup.export''"
definition BackupImport :: string where "BackupImport = ''backup.import''"
definition SubjectBackup :: string where "SubjectBackup = ''backup''"

record zone_row =
  zr_Zone :: zone
  zr_Bind :: string

record backup_doc =
  bk_SchemaVersion :: int
  bk_ExportedAt :: time
  bk_TenantID :: string
  bk_Zones :: "zone_row list"
  bk_Templates :: "template list"
  bk_Supermasters :: "supermaster list"

record import_options =
  io_Mode :: string
  io_TenantID :: string
  io_Full :: bool

record import_result =
  ir_TenantID :: string
  ir_Mode :: string
  ir_Imported :: "int gomap"
  ir_Skipped :: "int gomap"
  ir_MissingInPDNS :: "string list"

text \<open>The two listings of \<^verbatim>\<open>repo.Backup\<close> come next to the shared dependencies.\<close>

record 'w backup_deps =
  bd_Deps :: "'w deps"
  bd_Limits :: limits
  bd_AllTemplates :: "string \<Rightarrow> ('w, template list) act"
  bd_AllSupermasters :: "string \<Rightarrow> ('w, supermaster list option) act"

definition or_default :: "limits \<Rightarrow> limits" where
  "or_default l = (if l = \<lparr>l_MinTTL = 0, l_MaxTTL = 0, l_MaxValues = 0\<rparr> then DefaultLimits else l)"

definition backup_New :: "'w backup_deps \<Rightarrow> 'w backup_deps" where
  "backup_New B = B\<lparr>bd_Limits := or_default (bd_Limits B)\<rparr>"

section \<open>Access\<close>

definition backup_guard :: "'w backup_deps \<Rightarrow> subjects \<Rightarrow> gerr option" where
  "backup_guard B s = (if s_TenantID s = [] then Some (Sent ErrForbidden)
     else if s_ActorKind s = ActorUser \<and> d_Checker (bd_Deps B) = None then None
     else Require (d_Checker (bd_Deps B)) s BackupManage)"

definition isUUID :: "string \<Rightarrow> bool" where
  "isUUID s = uuid_text s"

definition bad :: gerr where
  "bad = Sent backup_ErrBadSchema"

definition backup_target :: "'w backup_deps \<Rightarrow> subjects \<Rightarrow> string \<Rightarrow> string res" where
  "backup_target B s t = (case backup_guard B s of Some e \<Rightarrow> Inl e
     | None \<Rightarrow> if t = [] \<or> t = s_TenantID s then Inr (s_TenantID s)
         else (case RequirePlatformAdmin s of Some e \<Rightarrow> Inl e
           | None \<Rightarrow> if \<not> isUUID t then Inl bad else Inr t))"

definition backup_emit ::
  "'w backup_deps \<Rightarrow> subjects \<Rightarrow> string \<Rightarrow> string \<Rightarrow> string \<Rightarrow> string \<Rightarrow> (string \<times> detail) list \<Rightarrow> 'w \<Rightarrow> 'w" where
  "backup_emit B s tenant t outcome reason details = audit_Emit (d_Audit (bd_Deps B))
     \<lparr>ae_TenantID = (if tenant = [] then NilTenant else tenant), ae_EventType = t,
      ae_ActorKind = ActorOf (s_ActorKind s), ae_ActorID = ActorID s, ae_SubjectKind = SubjectBackup, ae_SubjectID = t,
      ae_Outcome = outcome, ae_Reason = reason, ae_Details = details\<rparr>"

definition backup_refused :: "'w backup_deps \<Rightarrow> subjects \<Rightarrow> string \<Rightarrow> gerr \<Rightarrow> 'w \<Rightarrow> 'w" where
  "backup_refused B s t e = (if errIs e ErrForbidden then backup_emit B s (s_TenantID s) t OutcomeRefused ''forbidden'' [] else id)"

definition DInt :: "int \<Rightarrow> detail" where "DInt n = DOther (Itoa n)"
definition DBool :: "bool \<Rightarrow> detail" where "DBool b = DOther (if b then ''true'' else ''false'')"

section \<open>Export\<close>

text \<open>The zones with their texts, as long as the budget lasts, and the number of those without.\<close>

primrec export_rows :: "'w pdns_client \<Rightarrow> nat \<Rightarrow> zone list \<Rightarrow> 'w \<Rightarrow> (zone_row list \<times> int) \<times> 'w" where
  "export_rows P budget [] w = (([], 0), w)"
| "export_rows P budget (z # zs) w = (case p_ExportZone P (z_PDNSID z) w of (r, w1) \<Rightarrow>
     (case r of
       Inr text \<Rightarrow> if length text \<le> budget
         then (case export_rows P (budget - length text) zs w1 of ((rows, n), w2) \<Rightarrow> ((\<lparr>zr_Zone = z, zr_Bind = text\<rparr> # rows, n), w2))
         else (case export_rows P budget zs w1 of ((rows, n), w2) \<Rightarrow> ((\<lparr>zr_Zone = z, zr_Bind = []\<rparr> # rows, n + 1), w2))
     | Inl _ \<Rightarrow> (case export_rows P budget zs w1 of ((rows, n), w2) \<Rightarrow> ((\<lparr>zr_Zone = z, zr_Bind = []\<rparr> # rows, n + 1), w2))))"

definition backup_Export :: "'w backup_deps \<Rightarrow> subjects \<Rightarrow> string \<Rightarrow> ('w, backup_doc option) act" where
  "backup_Export B s tid = (case backup_target B s tid of
     Inl e \<Rightarrow> effect (backup_refused B s BackupExport e) (fail_with e)
   | Inr t \<Rightarrow> reading (d_Now (bd_Deps B)) (\<lambda>now.
       and_then (r_ZonesForTenant (d_Store (bd_Deps B)) t) (\<lambda>zs.
       and_then (\<lambda>w. case export_rows (d_PDNS (bd_Deps B)) MaxBindBytes zs w of (x, w') \<Rightarrow> (Inr x, w')) (\<lambda>(rows, noText).
       and_then (bd_AllTemplates B t) (\<lambda>tpls.
       and_then (bd_AllSupermasters B t) (\<lambda>o1. case o1 of None \<Rightarrow> ret None
       | Some sms \<Rightarrow> effect (backup_emit B s t BackupExport OutcomeOK []
           [(''zones'', DInt (int (length rows))), (''templates'', DInt (int (length tpls))), (''supermasters'', DInt (int (length sms))),
            (''zones_without_text'', DInt noText), (''cross_tenant'', DBool (t \<noteq> s_TenantID s))])
           (ret (Some \<lparr>bk_SchemaVersion = SchemaVersion, bk_ExportedAt = now, bk_TenantID = t, bk_Zones = rows, bk_Templates = tpls,
              bk_Supermasters = sms\<rparr>))))))))"

section \<open>Validation\<close>

definition zone_row_ok :: "ext \<Rightarrow> zone_row \<Rightarrow> bool" where
  "zone_row_ok L row = (let z = zr_Zone row in
     isUUID (z_ID z) \<and> (z_TemplateID z \<noteq> [] \<longrightarrow> isUUID (z_TemplateID z)) \<and> ZoneName L (z_Name z) = Inr (z_Name z) \<and>
     ValidKind (z_Kind z) \<and> (z_Origin z \<noteq> [] \<longrightarrow> ValidOrigin (z_Origin z)) \<and> ok (Masters (z_Masters z)) \<and>
     RuneCount (z_Description z) \<le> maxDesc \<and> length (z_Nameservers z) \<le> 16 \<and>
     list_all (\<lambda>ns. ok (Hostname L ns)) (z_Nameservers z))"

definition template_row_ok :: "ext \<Rightarrow> limits \<Rightarrow> template \<Rightarrow> bool" where
  "template_row_ok L l t = (let name = TrimSpace (t_Name t) in
     isUUID (t_ID t) \<and> name \<noteq> [] \<and> RuneCount name \<le> templates_MaxName \<and> \<not> templates_hasControl name \<and>
     RuneCount (t_Description t) \<le> MaxDescription \<and> ok (ExpandRecords L l backup_placeholderZone (t_Records t)))"

definition super_row_ok :: "ext \<Rightarrow> supermaster \<Rightarrow> bool" where
  "super_row_ok L sm = (isUUID (sm_ID sm) \<and> ok (IPGuard (sm_IP sm)) \<and> ok (Hostname L (sm_Nameserver sm)))"

definition backup_Validate :: "ext \<Rightarrow> limits \<Rightarrow> backup_doc \<Rightarrow> gerr option" where
  "backup_Validate L l0 b = (let l = or_default l0 in
     if bk_SchemaVersion b \<noteq> SchemaVersion then Some bad
     else if length (bk_Zones b) > MaxRows \<or> length (bk_Templates b) > MaxRows \<or> length (bk_Supermasters b) > MaxRows
     then Some (Sent backup_ErrTooLarge)
     else if bk_TenantID b \<noteq> [] \<and> \<not> isUUID (bk_TenantID b) then Some bad
     else if list_all (zone_row_ok L) (bk_Zones b) \<and> list_all (template_row_ok L l) (bk_Templates b) \<and>
       list_all (super_row_ok L) (bk_Supermasters b) then None else Some bad)"

definition backup_Parse :: "(string \<Rightarrow> (backup_doc \<times> bool) option) \<Rightarrow> ext \<Rightarrow> limits \<Rightarrow> string \<Rightarrow> backup_doc res" where
  "backup_Parse json L l raw = (case json raw of None \<Rightarrow> Inl bad
     | Some (b, trailing) \<Rightarrow> if trailing then Inl bad
         else (case backup_Validate L l b of Some e \<Rightarrow> Inl e | None \<Rightarrow> Inr b))"

section \<open>Fresh identifiers\<close>

primrec remap_templates :: "'w deps \<Rightarrow> string gomap \<Rightarrow> template list \<Rightarrow> 'w \<Rightarrow> (template list \<times> string gomap) \<times> 'w" where
  "remap_templates D tpl [] w = (([], tpl), w)"
| "remap_templates D tpl (t # ts) w = (case d_NewID D w of (nid, w1) \<Rightarrow>
     (case remap_templates D (mput (t_ID t) nid tpl) ts w1 of ((out, m), w2) \<Rightarrow> ((t\<lparr>t_ID := nid\<rparr> # out, m), w2)))"

primrec remap_zones :: "'w deps \<Rightarrow> string gomap \<Rightarrow> zone_row list \<Rightarrow> 'w \<Rightarrow> zone_row list \<times> 'w" where
  "remap_zones D tpl [] w = ([], w)"
| "remap_zones D tpl (row # rows) w = (case d_NewID D w of (nid, w1) \<Rightarrow>
     (case remap_zones D tpl rows w1 of (out, w2) \<Rightarrow>
       (row\<lparr>zr_Zone := (zr_Zone row)\<lparr>z_ID := nid, z_TemplateID := (case mget tpl (z_TemplateID (zr_Zone row)) of None \<Rightarrow> [] | Some i \<Rightarrow> i)\<rparr>\<rparr> # out, w2)))"

primrec remap_supers :: "'w deps \<Rightarrow> supermaster list \<Rightarrow> 'w \<Rightarrow> supermaster list \<times> 'w" where
  "remap_supers D [] w = ([], w)"
| "remap_supers D (sm # sms) w = (case d_NewID D w of (nid, w1) \<Rightarrow>
     (case remap_supers D sms w1 of (out, w2) \<Rightarrow> (sm\<lparr>sm_ID := nid\<rparr> # out, w2)))"

definition remap :: "'w deps \<Rightarrow> backup_doc \<Rightarrow> 'w \<Rightarrow> backup_doc \<times> 'w" where
  "remap D b w = (case remap_templates D [] (bk_Templates b) w of ((ts, tpl), w1) \<Rightarrow>
     (case remap_zones D tpl (bk_Zones b) w1 of (zs, w2) \<Rightarrow>
     (case remap_supers D (bk_Supermasters b) w2 of (sms, w3) \<Rightarrow>
       (b\<lparr>bk_Templates := ts, bk_Zones := zs, bk_Supermasters := sms\<rparr>, w3))))"

section \<open>Import\<close>

record importer =
  im_subj :: subjects
  im_target :: string
  im_origin :: string
  im_mode :: string

definition bump :: "string \<Rightarrow> int \<Rightarrow> int gomap \<Rightarrow> int gomap" where
  "bump c n m = mput c ((case mget m c of None \<Rightarrow> 0 | Some k \<Rightarrow> k) + n) m"

definition imported :: "string \<Rightarrow> import_result \<Rightarrow> import_result" where
  "imported c r = r\<lparr>ir_Imported := bump c 1 (ir_Imported r)\<rparr>"

definition skipped :: "string \<Rightarrow> import_result \<Rightarrow> import_result" where
  "skipped c r = r\<lparr>ir_Skipped := bump c 1 (ir_Skipped r)\<rparr>"

definition missing :: "string \<Rightarrow> import_result \<Rightarrow> import_result" where
  "missing n r = r\<lparr>ir_MissingInPDNS := ir_MissingInPDNS r @ [n]\<rparr>"

type_synonym 'w import_step = "import_result \<Rightarrow> ('w, import_result \<times> gerr, import_result) eact"

fun wipe_loop :: "'w deps \<Rightarrow> string \<Rightarrow> template list \<Rightarrow> ('w, unit) act" where
  "wipe_loop D t [] = ret ()"
| "wipe_loop D t (x # xs) = on_result (r_DeleteTemplate (d_Store D) t (t_ID x)) (\<lambda>r. case r of
     Inl e \<Rightarrow> if \<not> errIs e repo_ErrNotFound then fail_with e else wipe_loop D t xs
   | Inr _ \<Rightarrow> wipe_loop D t xs)"

definition wipeTemplates :: "'w backup_deps \<Rightarrow> importer \<Rightarrow> ('w, unit) act" where
  "wipeTemplates B im = and_then (bd_AllTemplates B (im_target im)) (wipe_loop (bd_Deps B) (im_target im))"

text \<open>The outcome of writing a template row.\<close>

definition template_done :: "import_result \<Rightarrow> gerr option \<Rightarrow> ('w, import_result \<times> gerr, import_result) eact" where
  "template_done res err = (case err of None \<Rightarrow> ret (imported CTemplates res)
     | Some e \<Rightarrow> if errIs e repo_ErrConflict \<or> errIs e repo_ErrNotFound then ret (skipped CTemplates res) else fail_with (res, e))"

definition import_template :: "'w backup_deps \<Rightarrow> importer \<Rightarrow> template \<Rightarrow> 'w import_step" where
  "import_template B im t0 res =
     (let D = bd_Deps B; t = t0\<lparr>t_TenantID := im_target im, t_Name := TrimSpace (t_Name t0), t_Description := TrimSpace (t_Description t0)\<rparr>
      in on_result (r_GetTemplate (d_Store D) (im_target im) (t_ID t)) (\<lambda>g. case g of
        Inr _ \<Rightarrow> if im_mode im \<noteq> ModeOverwrite then ret (skipped CTemplates res)
          else reading (d_Now D) (\<lambda>now. on_result (r_UpdateTemplate (d_Store D) (t\<lparr>t_UpdatedAt := now\<rparr>)) (\<lambda>r. template_done res (err_of r)))
      | Inl e \<Rightarrow> if errIs e repo_ErrNotFound
          then reading (d_Now D) (\<lambda>now. on_result (r_CreateTemplate (d_Store D)
            (t\<lparr>t_CreatedAt := (if t_CreatedAt t = 0 then now else t_CreatedAt t), t_UpdatedAt := now\<rparr>)) (\<lambda>r. template_done res (err_of r)))
          else fail_with (res, e)))"

definition ownAccount :: "importer \<Rightarrow> string \<Rightarrow> bool" where
  "ownAccount im account = (account = [] \<or> account = im_target im \<or> (im_origin im \<noteq> [] \<and> account = im_origin im))"

text \<open>The row that mirrors the live zone.\<close>

definition mirror :: "unicode \<Rightarrow> pzone \<Rightarrow> time \<Rightarrow> zone \<Rightarrow> zone" where
  "mirror u live now z =
     z\<lparr>z_PDNSID := (if pz_ID live \<noteq> [] then pz_ID live else z_Name z),
       z_Kind := (if KindFromPDNS u (pz_Kind live) \<noteq> [] then KindFromPDNS u (pz_Kind live) else z_Kind z),
       z_Masters := pz_Masters live, z_DNSSEC := pz_DNSSEC live,
       z_CreatedAt := (if z_CreatedAt z = 0 then now else z_CreatedAt z), z_UpdatedAt := now\<rparr>"

text \<open>Linking a zone that the server has and no tenant overlaps.\<close>

definition adopt :: "'w backup_deps \<Rightarrow> importer \<Rightarrow> zone \<Rightarrow> pzone \<Rightarrow> 'w import_step" where
  "adopt B im z0 live res = (let D = bd_Deps B in reading (d_Now D) (\<lambda>now.
     let z1 = mirror (x_unicode (d_Ext D)) live now z0 in
     on_result (if z_TemplateID z1 \<noteq> [] then and_then (r_GetTemplate (d_Store D) (im_target im) (z_TemplateID z1)) (\<lambda>_. ret ()) else ret ()) (\<lambda>g.
     let z = (case g of Inl _ \<Rightarrow> z1\<lparr>z_TemplateID := []\<rparr> | Inr _ \<Rightarrow> z1) in
     on_result (r_CreateZone (d_Store D) z) (\<lambda>r. case r of
       Inl e \<Rightarrow> if errIs e repo_ErrConflict then ret (skipped CZones res) else fail_with (res, e)
     | Inr _ \<Rightarrow> if pz_Account live \<noteq> im_target im
         then on_result (p_UpdateZoneMetadata (d_PDNS D) (z_PDNSID z)
             \<lparr>pz_ID = [], pz_Name = [], pz_Kind = pz_Kind live, pz_Serial = 0, pz_NotifiedSerial = 0, pz_Masters = pz_Masters live,
              pz_DNSSEC = pz_DNSSEC live, pz_Nameservers = [], pz_Account = im_target im, pz_RRsets = []\<rparr>) (\<lambda>_. ret (imported CZones res))
         else ret (imported CZones res)))))"

definition import_zone :: "'w backup_deps \<Rightarrow> importer \<Rightarrow> (string \<Rightarrow> bool) \<Rightarrow> zone_row \<Rightarrow> 'w import_step" where
  "import_zone B im onServer row res =
     (let D = bd_Deps B; z = (zr_Zone row)\<lparr>z_TenantID := im_target im,
        z_Origin := (if z_Origin (zr_Zone row) = [] then OriginManual else z_Origin (zr_Zone row))\<rparr>
      in on_result (r_GetZoneByName (d_Store D) (im_target im) (z_Name z)) (\<lambda>g. case g of
        Inr local \<Rightarrow> if im_mode im \<noteq> ModeOverwrite then ret (skipped CZones res)
          else reading (d_Now D) (\<lambda>now. map_err (Pair res) (and_then
            (r_UpdateZone (d_Store D) (local\<lparr>z_Description := z_Description z, z_UpdatedAt := now\<rparr>)) (\<lambda>_. ret (imported CZones res))))
      | Inl e \<Rightarrow> if \<not> errIs e repo_ErrNotFound then fail_with (res, e)
          else if \<not> onServer (z_Name z) then ret (missing (z_Name z) res)
          else and_then (map_err (Pair res) (r_ZoneConflict (d_Store D) (im_target im) (z_Name z))) (\<lambda>taken.
            if taken then ret (skipped CZones res)
            else on_result (p_GetZone (d_PDNS D) (z_Name z)) (\<lambda>q. case q of
              Inl e \<Rightarrow> if errIs e pdns_ErrNotFound then ret (missing (z_Name z) res) else fail_with (res, e)
            | Inr live \<Rightarrow> if \<not> ownAccount im (pz_Account live) then ret (skipped CZones res) else adopt B im z live res))))"

definition import_supermaster :: "'w backup_deps \<Rightarrow> importer \<Rightarrow> psuper list \<Rightarrow> supermaster \<Rightarrow> 'w import_step" where
  "import_supermaster B im live sm0 res =
     (let D = bd_Deps B;
          ns = (case Hostname (d_Ext D) (sm_Nameserver sm0) of Inr n \<Rightarrow> n | Inl _ \<Rightarrow> []);
          ip = (case IPGuard (sm_IP sm0) of Inr a \<Rightarrow> a | Inl _ \<Rightarrow> NoAddr)
      in reading (d_Now D) (\<lambda>now.
      let sm = sm0\<lparr>sm_TenantID := im_target im, sm_IP := addr_String ip, sm_Nameserver := ns,
            sm_CreatedAt := (if sm_CreatedAt sm0 = 0 then now else sm_CreatedAt sm0)\<rparr>;
          pdnsNS = TrimSuffix ns ''.'';
          same = filter (\<lambda>e. ps_IP e = sm_IP sm \<and> TrimSuffix (ps_Nameserver e) ''.'' = pdnsNS) live;
          onServer = (same \<noteq> [])
      in on_result (r_GetSupermaster (d_Store D) (im_target im) (sm_ID sm)) (\<lambda>g. case g of
        Inr _ \<Rightarrow> ret (skipped CSupermasters res)
      | Inl e \<Rightarrow> if \<not> errIs e repo_ErrNotFound then fail_with (res, e)
          else if list_ex (\<lambda>e. \<not> ownAccount im (ps_Account e)) same then ret (skipped CSupermasters res)
          else on_result (if onServer then ret ()
              else p_CreateSupermaster (d_PDNS D) \<lparr>ps_IP = sm_IP sm, ps_Nameserver = pdnsNS, ps_Account = im_target im\<rparr>) (\<lambda>c. case c of
            Inl e \<Rightarrow> if errIs e pdns_ErrConflict then ret (skipped CSupermasters res) else fail_with (res, e)
          | Inr _ \<Rightarrow> on_result (r_CreateSupermaster (d_Store D) sm) (\<lambda>r. case r of
              Inr _ \<Rightarrow> ret (imported CSupermasters res)
            | Inl e \<Rightarrow> on_result (if onServer then ret () else p_DeleteSupermaster (d_PDNS D) (sm_IP sm) pdnsNS) (\<lambda>_.
                if errIs e repo_ErrConflict then ret (skipped CSupermasters res) else fail_with (res, e)))))))"

primrec import_all :: "('a \<Rightarrow> 'w import_step) \<Rightarrow> 'a list \<Rightarrow> 'w import_step" where
  "import_all f [] res = ret res"
| "import_all f (x # xs) res = and_then (f x res) (import_all f xs)"

definition import_zones :: "'w backup_deps \<Rightarrow> importer \<Rightarrow> zone_row list \<Rightarrow> 'w import_step" where
  "import_zones B im rows res = (if rows = [] then ret res
     else and_then (map_err (Pair res) (p_ListZoneNames (d_PDNS (bd_Deps B)))) (\<lambda>names.
       import_all (import_zone B im (\<lambda>n. n \<in> set (map (lower (d_Ext (bd_Deps B))) names))) rows res))"

definition import_supers :: "'w backup_deps \<Rightarrow> importer \<Rightarrow> supermaster list \<Rightarrow> 'w import_step" where
  "import_supers B im sms res = (if sms = [] then ret res
     else if \<not> IsPlatformAdmin (im_subj im) then ret (res\<lparr>ir_Skipped := bump CSupermasters (int (length sms)) (ir_Skipped res)\<rparr>)
     else and_then (map_err (Pair res) (p_ListSupermasters (d_PDNS (bd_Deps B)))) (\<lambda>live.
       import_all (import_supermaster B im live) sms res))"

definition import_run :: "'w backup_deps \<Rightarrow> importer \<Rightarrow> backup_doc \<Rightarrow> bool \<Rightarrow> 'w import_step" where
  "import_run B im b full res =
     and_then (if full then map_err (Pair res) (wipeTemplates B im) else ret ()) (\<lambda>_.
     and_then (import_all (import_template B im) (bk_Templates b) res) (\<lambda>res1.
     and_then (import_zones B im (bk_Zones b) res1) (import_supers B im (bk_Supermasters b))))"

definition count_of :: "int gomap \<Rightarrow> string \<Rightarrow> int" where
  "count_of m c = (case mget m c of None \<Rightarrow> 0 | Some n \<Rightarrow> n)"

text \<open>Whose metadata is replaced; a full restore is for platform admins.\<close>

definition import_target :: "'w backup_deps \<Rightarrow> subjects \<Rightarrow> import_options \<Rightarrow> string res" where
  "import_target B s opts = (case backup_target B s (io_TenantID opts) of Inl e \<Rightarrow> Inl e
     | Inr t \<Rightarrow> (case if io_Full opts then RequirePlatformAdmin s else None of Some e \<Rightarrow> Inl e | None \<Rightarrow> Inr t))"

definition import_finish :: "'w backup_deps \<Rightarrow> subjects \<Rightarrow> string \<Rightarrow> bool \<Rightarrow> (import_result \<times> gerr) + import_result \<Rightarrow>
    ('w, import_result \<times> gerr, import_result) eact" where
  "import_finish B s tgt full r =
     (let res = (case r of Inl (x, _) \<Rightarrow> x | Inr x \<Rightarrow> x)
      in effect (backup_emit B s tgt BackupImport (if isl r then OutcomeError else OutcomeOK) (if isl r then ''import failed'' else [])
        [(''mode'', DStr (ir_Mode res)), (''full'', DBool full), (''cross_tenant'', DBool (tgt \<noteq> s_TenantID s)),
         (''zones'', DInt (count_of (ir_Imported res) CZones)), (''templates'', DInt (count_of (ir_Imported res) CTemplates)),
         (''supermasters'', DInt (count_of (ir_Imported res) CSupermasters)),
         (''missing_in_pdns'', DInt (int (length (ir_MissingInPDNS res))))])
        (lift_res r))"

definition import_start :: "string \<Rightarrow> import_options \<Rightarrow> import_result" where
  "import_start tgt opts = \<lparr>ir_TenantID = tgt, ir_Mode = (if io_Mode opts = ModeOverwrite then ModeOverwrite else ModeSkip),
     ir_Imported = [], ir_Skipped = [], ir_MissingInPDNS = []\<rparr>"

definition backup_Import :: "'w backup_deps \<Rightarrow> subjects \<Rightarrow> backup_doc \<Rightarrow> import_options \<Rightarrow> ('w, import_result \<times> gerr, import_result) eact" where
  "backup_Import B s b0 opts =
     (let none = \<lparr>ir_TenantID = [], ir_Mode = [], ir_Imported = [], ir_Skipped = [], ir_MissingInPDNS = []\<rparr>
      in (case import_target B s opts of
        Inl e \<Rightarrow> effect (backup_refused B s BackupImport e) (fail_with (none, e))
      | Inr tgt \<Rightarrow> check (map_option (Pair none) (backup_Validate (d_Ext (bd_Deps B)) (bd_Limits B) b0))
          (\<lambda>w. case (if bk_TenantID b0 \<noteq> tgt then remap (bd_Deps B) b0 w else (b0, w)) of (b, w1) \<Rightarrow>
             on_result (import_run B \<lparr>im_subj = s, im_target = tgt, im_origin = bk_TenantID b0, im_mode = ir_Mode (import_start tgt opts)\<rparr>
                 b (io_Full opts) (import_start tgt opts))
               (import_finish B s tgt (io_Full opts)) w1)))"

section \<open>The contract\<close>

text \<open>The metadata written to the server for an adopted zone, and the row that is linked.\<close>

definition adopted_meta :: "importer \<Rightarrow> pzone \<Rightarrow> pzone" where
  "adopted_meta im live = \<lparr>pz_ID = [], pz_Name = [], pz_Kind = pz_Kind live, pz_Serial = 0, pz_NotifiedSerial = 0, pz_Masters = pz_Masters live,
     pz_DNSSEC = pz_DNSSEC live, pz_Nameservers = [], pz_Account = im_target im, pz_RRsets = []\<rparr>"

definition links :: "unicode \<Rightarrow> zone \<Rightarrow> pzone \<Rightarrow> zone \<Rightarrow> bool" where
  "links u z live y = (z_ID y = z_ID z \<and> z_TenantID y = z_TenantID z \<and> z_Origin y = z_Origin z \<and> z_Name y = z_Name z \<and> z_PDNSID y = z_Name z \<and>
     z_Kind y = (if KindFromPDNS u (pz_Kind live) \<noteq> [] then KindFromPDNS u (pz_Kind live) else z_Kind z) \<and>
     z_Masters y = pz_Masters live \<and> z_DNSSEC y = pz_DNSSEC live \<and> z_Description y = z_Description z \<and>
     z_Nameservers y = z_Nameservers z \<and> (z_TemplateID y = z_TemplateID z \<or> z_TemplateID y = []))"

definition target_zone :: "string \<Rightarrow> zone_row \<Rightarrow> zone" where
  "target_zone t row = (zr_Zone row)\<lparr>z_TenantID := t, z_Origin := (if z_Origin (zr_Zone row) = [] then OriginManual else z_Origin (zr_Zone row))\<rparr>"

text \<open>What linking a row relies on of its validation, and what fresh identifiers leave alone.\<close>

definition linkable :: "ext \<Rightarrow> zone_row \<Rightarrow> bool" where
  "linkable L row = (ZoneName L (z_Name (zr_Zone row)) = Inr (z_Name (zr_Zone row)) \<and> ValidKind (z_Kind (zr_Zone row)))"

lemma target_zone_ok:
  "z_TenantID (target_zone t row) = t" "z_Origin (target_zone t row) \<noteq> []" "linkable L row \<Longrightarrow> z_Kind (target_zone t row) \<noteq> []"
  "linkable L row \<Longrightarrow> ZoneName L (z_Name (target_zone t row)) = Inr (z_Name (target_zone t row))"
  using ValidKind_nonempty by (auto simp: target_zone_def linkable_def OriginManual_def)

lemma linkable_renamed [simp]: "linkable L (row\<lparr>zr_Zone := (zr_Zone row)\<lparr>z_ID := i, z_TemplateID := j\<rparr>\<rparr>) = linkable L row"
  by (simp add: linkable_def)

lemma Validate_linkable: "backup_Validate L l b = None \<Longrightarrow> list_all (linkable L) (bk_Zones b)"
  by (auto simp: backup_Validate_def Let_def zone_row_ok_def linkable_def list_all_iff split: if_splits)

text \<open>
  The record contract extended by templates, supermasters and the listings, which touch
  neither the zones of the store nor those of the server, and by what the metadata of a
  served zone leaves alone. A served zone carries the id it is found under.
\<close>

locale backup_env = record_env "bd_Deps B" zs inv ps for B :: "'w backup_deps" and zs inv ps +
  assumes template_rows: "inv w \<Longrightarrow> r_GetTemplate (d_Store (bd_Deps B)) t i w = (g, w') \<Longrightarrow> inv w' \<and> zs w' = zs w \<and> ps w' = ps w"
      "inv w \<Longrightarrow> r_CreateTemplate (d_Store (bd_Deps B)) x w = (r, w') \<Longrightarrow> inv w' \<and> zs w' = zs w \<and> ps w' = ps w"
      "inv w \<Longrightarrow> r_UpdateTemplate (d_Store (bd_Deps B)) x w = (g, w') \<Longrightarrow> inv w' \<and> zs w' = zs w \<and> ps w' = ps w"
      "inv w \<Longrightarrow> r_DeleteTemplate (d_Store (bd_Deps B)) t i w = (r, w') \<Longrightarrow> inv w' \<and> zs w' = zs w \<and> ps w' = ps w"
      "inv w \<Longrightarrow> bd_AllTemplates B t w = (l, w') \<Longrightarrow> inv w' \<and> zs w' = zs w \<and> ps w' = ps w"
    and supermaster_rows: "inv w \<Longrightarrow> r_GetSupermaster (d_Store (bd_Deps B)) t i w = (s, w') \<Longrightarrow> inv w' \<and> zs w' = zs w \<and> ps w' = ps w"
      "inv w \<Longrightarrow> r_CreateSupermaster (d_Store (bd_Deps B)) y w = (r, w') \<Longrightarrow> inv w' \<and> zs w' = zs w \<and> ps w' = ps w"
      "inv w \<Longrightarrow> bd_AllSupermasters B t w = (k, w') \<Longrightarrow> inv w' \<and> zs w' = zs w \<and> ps w' = ps w"
    and server_lists: "inv w \<Longrightarrow> p_ListZoneNames (d_PDNS (bd_Deps B)) w = (n, w') \<Longrightarrow> inv w' \<and> zs w' = zs w \<and> ps w' = ps w"
      "inv w \<Longrightarrow> p_ListSupermasters (d_PDNS (bd_Deps B)) w = (e, w') \<Longrightarrow> inv w' \<and> zs w' = zs w \<and> ps w' = ps w"
      "inv w \<Longrightarrow> p_CreateSupermaster (d_PDNS (bd_Deps B)) z w = (r, w') \<Longrightarrow> inv w' \<and> zs w' = zs w \<and> ps w' = ps w"
      "inv w \<Longrightarrow> p_DeleteSupermaster (d_PDNS (bd_Deps B)) a b w = (r, w') \<Longrightarrow> inv w' \<and> zs w' = zs w \<and> ps w' = ps w"
    and server_ids: "inv w \<Longrightarrow> ps w i = Some p \<Longrightarrow> pz_ID p = i"
    and server_meta: "p_UpdateZoneMetadata (d_PDNS (bd_Deps B)) i m w = (r, w') \<Longrightarrow> j \<noteq> i \<Longrightarrow> ps w' j = ps w j"
      "p_UpdateZoneMetadata (d_PDNS (bd_Deps B)) i m w = (r, w') \<Longrightarrow> map_option pz_RRsets (ps w' i) = map_option pz_RRsets (ps w i)"
begin

text \<open>
  What a restore into the tenant \<open>t\<close> guarantees since \<open>w0\<close>: the other tenants are left
  alone, no stored zone is lost or moved, no record set and no served zone appears or
  disappears, and tenants that were apart stay apart.
\<close>

definition restored :: "'w \<Rightarrow> string \<Rightarrow> 'w \<Rightarrow> bool" where
  "restored w0 t w = (kept w0 t w \<and>
     (\<forall>i y. zs w0 i = Some y \<longrightarrow> (\<exists>y'. zs w i = Some y' \<and> z_Name y' = z_Name y \<and> z_TenantID y' = z_TenantID y \<and> z_PDNSID y' = z_PDNSID y)) \<and>
     (\<forall>i. map_option pz_RRsets (ps w i) = map_option pz_RRsets (ps w0 i)) \<and> (disjoint w0 \<longrightarrow> disjoint w))"

lemma restored_refl: "inv w \<Longrightarrow> restored w t w"
  by (simp add: restored_def kept_refl)

lemma restored_inv: "restored w0 t w \<Longrightarrow> inv w"
  by (simp add: restored_def kept_def)

lemma restored_still: "restored w0 t w \<Longrightarrow> still w w' \<Longrightarrow> restored w0 t w'"
  using kept_still by (auto simp: restored_def still_def disjoint_def)

lemma keeps_restored_still: "(\<And>w r w'. inv w \<Longrightarrow> m w = (r, w') \<Longrightarrow> still w w') \<Longrightarrow> keeps (restored w0 t) m"
  by (rule keepsI) (metis restored_still restored_inv)

lemma keeps_rows:
  "keeps (restored w0 t) (r_GetTemplate (d_Store (bd_Deps B)) u i)" "keeps (restored w0 t) (r_CreateTemplate (d_Store (bd_Deps B)) x)"
  "keeps (restored w0 t) (r_UpdateTemplate (d_Store (bd_Deps B)) x)" "keeps (restored w0 t) (r_DeleteTemplate (d_Store (bd_Deps B)) u i)"
  "keeps (restored w0 t) (bd_AllTemplates B u)" "keeps (restored w0 t) (r_GetSupermaster (d_Store (bd_Deps B)) u i)"
  "keeps (restored w0 t) (r_CreateSupermaster (d_Store (bd_Deps B)) y)" "keeps (restored w0 t) (p_ListZoneNames (d_PDNS (bd_Deps B)))"
  "keeps (restored w0 t) (p_ListSupermasters (d_PDNS (bd_Deps B)))" "keeps (restored w0 t) (p_CreateSupermaster (d_PDNS (bd_Deps B)) z)"
  "keeps (restored w0 t) (p_DeleteSupermaster (d_PDNS (bd_Deps B)) a b)"
  by (rule keeps_restored_still, unfold still_def, erule (1) template_rows supermaster_rows server_lists)+

lemma keeps_import_all: "(\<And>x res. x \<in> set xs \<Longrightarrow> keeps I (f x res)) \<Longrightarrow> keeps I (import_all f xs res)"
  by (induction xs arbitrary: res) (auto intro!: act_keeps)

lemma keeps_wipe: "keeps (restored w0 t) (wipeTemplates B im)"
proof -
  have "keeps (restored w0 t) (wipe_loop (bd_Deps B) u l)" for u l
    by (induction "bd_Deps B" u l rule: wipe_loop.induct) (auto intro!: act_keeps keeps_rows)
  then show ?thesis unfolding wipeTemplates_def by (intro act_keeps keeps_rows)
qed

lemma keeps_import_template: "keeps (restored w0 t) (import_template B im x res)"
  unfolding import_template_def template_done_def Let_def by (intro act_keeps keeps_rows)

lemma keeps_import_supers: "keeps (restored w0 t) (import_supers B im sms res)"
  unfolding import_supers_def import_supermaster_def Let_def by (intro act_keeps keeps_rows keeps_import_all)

lemma new_zone_restored:
  assumes r: "restored w0 t w" and run: "r_CreateZone (d_Store (bd_Deps B)) z w = (Inr x, w')" and z: "z_TenantID z = t" "z_Kind z \<noteq> []" "z_Origin z \<noteq> []"
    and free: "\<And>i y. zs w i = Some y \<Longrightarrow> z_TenantID y \<noteq> t \<Longrightarrow> \<not> Overlaps (z_Name z) (z_Name y)"
  shows "restored w0 t w'" "safe w0 t z"
proof -
  have inv: "inv w" by (rule restored_inv [OF r])
  obtain row where row: "zs w (z_ID z) = None" "zs w' = (zs w)(z_ID z \<mapsto> row)" "stored_as z row" using create_done [OF inv run z(2,3)] by blast
  have n: "z_Name row = z_Name z" "z_TenantID row = t" "z_PDNSID row = z_PDNSID z" using row(3) z(1) by (auto simp: stored_as_def)
  have inv': "inv w'" and ps: "ps w' = ps w" using run_inv(1) [OF inv run] run_frame(1) [OF run] by auto
  have al: "alien t w' y \<longleftrightarrow> alien t w y" for y using row(1,2) n(2) by (auto simp: alien_def)
  have k: "kept w0 t w'" using r inv' ps al by (simp add: restored_def kept_def)
  have dj: "disjoint w0 \<longrightarrow> disjoint w'"
  proof
    assume "disjoint w0"
    then have d: "disjoint w" using r by (simp add: restored_def)
    have sep: "\<not> Overlaps (z_Name row) (z_Name y)" "\<not> Overlaps (z_Name y) (z_Name row)" if "zs w i = Some y" "z_TenantID y \<noteq> t" for i y
      using free [OF that] n(1) Overlaps_sym by simp_all
    show "disjoint w'" using d sep n(2) unfolding disjoint_def row(2) by (auto split: if_splits)
  qed
  have rows: "\<exists>y'. zs w' i = Some y' \<and> z_Name y' = z_Name y \<and> z_TenantID y' = z_TenantID y \<and> z_PDNSID y' = z_PDNSID y"
    if a: "zs w0 i = Some y" for i y
  proof -
    obtain y' where y': "zs w i = Some y'" "z_Name y' = z_Name y" "z_TenantID y' = z_TenantID y" "z_PDNSID y' = z_PDNSID y"
      using r a unfolding restored_def by blast
    moreover have "i \<noteq> z_ID z" using y'(1) row(1) by auto
    ultimately show ?thesis using row(2) by simp
  qed
  show "restored w0 t w'" using r k dj rows ps by (simp add: restored_def)
  show "safe w0 t z" using own_safe [OF k, of "z_ID z" row] row(2) n by (simp add: safe_def)
qed

lemma meta_restored:
  assumes r: "restored w0 t w" and sf: "safe w0 t z" and run: "p_UpdateZoneMetadata (d_PDNS (bd_Deps B)) (z_PDNSID z) m w = (q, w')"
  shows "restored w0 t w'"
proof -
  have inv: "inv w'" by (rule keepsE [OF server_inv(3) run restored_inv [OF r]])
  have zs: "zs w' = zs w" by (rule run_frame(11) [OF run])
  have p: "ps w' j = ps w j" if "j \<noteq> z_PDNSID z" for j by (rule server_meta(1) [OF run that])
  have "map_option pz_RRsets (ps w' i) = map_option pz_RRsets (ps w i)" for i
    using p server_meta(2) [OF run] by (cases "i = z_PDNSID z") simp_all
  moreover have "kept w0 t w'" unfolding kept_def
  proof (intro conjI allI impI)
    fix y p assume y: "alien t w0 y" "ps w0 (z_PDNSID y) = Some p"
    then have "z_PDNSID y \<noteq> z_PDNSID z" using sf by (auto simp: safe_def)
    then show "ps w' (z_PDNSID y) = Some p" using p y r by (simp add: restored_def kept_def)
  next
    fix y show "alien t w' y \<longleftrightarrow> alien t w0 y" using r zs by (simp add: restored_def kept_def alien_def)
  qed (rule inv)
  moreover have "disjoint w' = disjoint w" using zs by (simp add: disjoint_def)
  ultimately show ?thesis using r zs by (simp add: restored_def)
qed

lemma adopt_cases:
  assumes inv: "inv w" and z: "z_Kind z \<noteq> []" "pz_ID live = z_Name z" and run: "adopt B im z live res w = (q, w')"
  obtains (same) "still w w'"
    | (linked) y x w1 w2 where "links (x_unicode (d_Ext (bd_Deps B))) z live y" "still w w1" "r_CreateZone (d_Store (bd_Deps B)) y w1 = (Inr x, w2)"
       "w' = w2 \<or> (\<exists>u. p_UpdateZoneMetadata (d_PDNS (bd_Deps B)) (z_PDNSID y) (adopted_meta im live) w2 = (u, w'))"
proof -
  let ?D = "bd_Deps B" and ?z1 = "mirror (x_unicode (d_Ext (bd_Deps B))) live (d_Now (bd_Deps B) w) z"
  let ?tpl = "if z_TemplateID ?z1 \<noteq> [] then and_then (r_GetTemplate (d_Store ?D) (im_target im) (z_TemplateID ?z1)) (\<lambda>_. ret ()) else ret ()"
  obtain g w1 where g: "?tpl w = (g, w1)" by fastforce
  have s1: "still w w1" using g template_rows(1) [OF inv] inv
    by (auto simp: ret_def and_then_def still_def split: if_splits prod.splits sum.splits)
  define y where "y = (case g of Inl _ \<Rightarrow> ?z1\<lparr>z_TemplateID := []\<rparr> | Inr _ \<Rightarrow> ?z1)"
  have y: "links (x_unicode (d_Ext (bd_Deps B))) z live y" using z by (auto simp: links_def y_def mirror_def split: sum.split)
  obtain c w2 where c: "r_CreateZone (d_Store ?D) y w1 = (c, w2)" by fastforce
  have inv1: "inv w1" using s1 by (simp add: still_def)
  show ?thesis
  proof (cases c)
    case (Inl e)
    have "still w1 w2" using create_failed [OF inv1] c Inl run_inv(1) [OF inv1 c] run_frame(1) [OF c] by (simp add: still_def)
    moreover have "w' = w2" using run g c Inl
      by (auto simp: adopt_def Let_def reading_def on_result_def y_def [symmetric] ret_def fail_with_def split: if_splits)
    ultimately show ?thesis using same still_trans [OF s1] by simp
  next
    case (Inr x)
    have "w' = w2 \<or> (\<exists>u. p_UpdateZoneMetadata (d_PDNS ?D) (z_PDNSID y) (adopted_meta im live) w2 = (u, w'))" using run g c Inr
      by (auto simp: adopt_def Let_def reading_def on_result_def y_def [symmetric] adopted_meta_def [symmetric] ret_def split: if_splits prod.splits)
    then show ?thesis using linked [OF y s1] c Inr by blast
  qed
qed

lemma adopt_restored:
  assumes r: "restored w0 t w" and z: "z_TenantID z = t" "z_Kind z \<noteq> []" "z_Origin z \<noteq> []" "pz_ID live = z_Name z"
    and free: "\<And>i y. zs w i = Some y \<Longrightarrow> z_TenantID y \<noteq> t \<Longrightarrow> \<not> Overlaps (z_Name z) (z_Name y)"
    and run: "adopt B im z live res w = (q, w')"
  shows "restored w0 t w'"
  using restored_inv [OF r] z(2,4) run
proof (cases rule: adopt_cases)
  case same
  then show ?thesis by (rule restored_still [OF r])
next
  case (linked y x w1 w2)
  have y: "z_TenantID y = t" "z_Kind y \<noteq> []" "z_Origin y \<noteq> []" using linked(1) z by (auto simp: links_def)
  have free1: "\<not> Overlaps (z_Name y) (z_Name v)" if "zs w1 i = Some v" "z_TenantID v \<noteq> t" for i v
    using free that linked(1,2) by (simp add: still_def links_def)
  have n: "restored w0 t w2" "safe w0 t y"
    by (rule new_zone_restored [OF restored_still [OF r linked(2)] linked(3) y], rule free1, assumption+)+
  then show ?thesis using linked(4) meta_restored [OF n] by blast
qed

lemma redescribed_restored:
  assumes r: "restored w0 t w" and old: "zs w (z_ID z) = Some z" "z_TenantID z = t"
    and run: "r_UpdateZone (d_Store (bd_Deps B)) (z\<lparr>z_Description := d, z_UpdatedAt := n\<rparr>) w = (q, w')"
  shows "restored w0 t w'"
proof (cases q)
  case (Inl e)
  have "still w w'" using update_failed [OF restored_inv [OF r]] run Inl run_inv(6) [OF restored_inv [OF r] run] run_frame(7) [OF run]
    by (simp add: still_def)
  then show ?thesis by (rule restored_still [OF r])
next
  case (Inr z')
  have inv': "inv w'" and ps: "ps w' = ps w" using run_inv(6) [OF restored_inv [OF r] run] run_frame(7) [OF run] by auto
  have u: "merged z (z\<lparr>z_Description := d, z_UpdatedAt := n\<rparr>) z'" "zs w' = (zs w)(z_ID z \<mapsto> z')"
    using update_done [OF restored_inv [OF r] run [unfolded Inr]] old by auto
  have k: "z_Name z' = z_Name z" "z_TenantID z' = t" "z_PDNSID z' = z_PDNSID z" using u(1) old(2) by (auto simp: merged_def)
  have same: "\<exists>y'. zs w' i = Some y' \<and> z_Name y' = z_Name y \<and> z_TenantID y' = z_TenantID y \<and> z_PDNSID y' = z_PDNSID y"
    if "zs w i = Some y" for i y using that u(2) old k by auto
  have was: "\<exists>y. zs w i = Some y \<and> z_Name y' = z_Name y \<and> z_TenantID y' = z_TenantID y"
    if "zs w' i = Some y'" for i y' using that u(2) old k by (auto split: if_splits)
  have al: "alien t w' y \<longleftrightarrow> alien t w y" for y using u(2) old k(2) by (auto simp: alien_def)
  have "disjoint w \<Longrightarrow> disjoint w'" unfolding disjoint_def by (metis was)
  moreover have "kept w0 t w'" using r inv' ps al by (simp add: restored_def kept_def)
  moreover have "\<exists>y'. zs w' i = Some y' \<and> z_Name y' = z_Name y \<and> z_TenantID y' = z_TenantID y \<and> z_PDNSID y' = z_PDNSID y"
    if a: "zs w0 i = Some y" for i y
  proof -
    obtain y1 where "zs w i = Some y1" "z_Name y1 = z_Name y" "z_TenantID y1 = z_TenantID y" "z_PDNSID y1 = z_PDNSID y"
      using r a unfolding restored_def by blast
    then show ?thesis using same [of i y1] by simp
  qed
  ultimately show ?thesis using r ps by (simp add: restored_def)
qed

text \<open>
  What importing a zone row comes to: nothing, a new description for the tenant's zone
  of that name, or the adoption of a served zone that no other tenant overlaps.
\<close>

lemma import_zone_cases:
  assumes laws: "fqdn_law (d_Ext (bd_Deps B))" "split_law (d_Ext (bd_Deps B))" and row: "linkable (d_Ext (bd_Deps B)) row"
    and inv: "inv w" and run: "import_zone B im onServer row res w = (q, w')"
  obtains (same) "still w w'"
    | (described) old d n u w1 where "zs w (z_ID old) = Some old" "z_TenantID old = im_target im" "still w w1"
        "r_UpdateZone (d_Store (bd_Deps B)) (old\<lparr>z_Description := d, z_UpdatedAt := n\<rparr>) w1 = (u, w')"
    | (adopted) p w1 where "still w w1" "ps w (z_Name (target_zone (im_target im) row)) = Some p" "ownAccount im (pz_Account p)"
        "\<And>i y. zs w i = Some y \<Longrightarrow> z_TenantID y \<noteq> im_target im \<Longrightarrow> \<not> Overlaps (z_Name (target_zone (im_target im) row)) (z_Name y)"
        "adopt B im (target_zone (im_target im) row) (clonePZone p) res w1 = (q, w')"
proof -
  let ?D = "bd_Deps B"
  define z where "z = target_zone (im_target im) row"
  have low: "ToLower (x_unicode (d_Ext ?D)) (z_Name z) = z_Name z" unfolding z_def
    by (rule lower_canonical [OF canonicalZone_canonical [OF laws ZoneName_canonicalZone [OF target_zone_ok(4) [OF row]]]])
  obtain g w1 where g: "r_GetZoneByName (d_Store ?D) (im_target im) (z_Name z) w = (g, w1)" by fastforce
  have s1: "still w w1" using run_frame(3) [OF g] run_inv(3) [OF inv g] by (simp add: still_def)
  then have inv1: "inv w1" by (simp add: still_def)
  show ?thesis
  proof (cases g)
    case (Inr old)
    have o1: "zs w (z_ID old) = Some old" "z_TenantID old = im_target im" using by_name_done [OF inv g [unfolded Inr]] by auto
    have "w' = w1 \<or> (\<exists>d n u. r_UpdateZone (d_Store ?D) (old\<lparr>z_Description := d, z_UpdatedAt := n\<rparr>) w1 = (u, w'))"
      using run g Inr
      by (auto simp: import_zone_def Let_def target_zone_def [symmetric] z_def [symmetric] on_result_def reading_def ret_def
          split: if_splits elim!: map_errE and_thenE)
    then show ?thesis using same s1 described [OF o1 s1] by blast
  next
    case (Inl e)
    obtain c w2 where c: "r_ZoneConflict (d_Store ?D) (im_target im) (z_Name z) w1 = (c, w2)" by fastforce
    have s2: "still w w2" using run_frame(4) [OF c] run_inv(4) [OF inv1 c] s1 by (simp add: still_def)
    then have inv2: "inv w2" by (simp add: still_def)
    obtain p w3 where p: "p_GetZone (d_PDNS ?D) (z_Name z) w2 = (p, w3)" by fastforce
    have s3: "still w w3" using run_frame(9) [OF p] run_inv(8) [OF inv2 p] s2 by (simp add: still_def)
    have free: "\<not> Overlaps (z_Name z) (z_Name y)" if "c = Inr False" "zs w i = Some y" "z_TenantID y \<noteq> im_target im" for i y
      using conflict_done [OF inv1 c [unfolded that(1)]] that(2,3) s1 low by (auto simp: still_def)
    have "w' = w1 \<or> w' = w2 \<or> w' = w3 \<or> (\<exists>live. c = Inr False \<and> p = Inr live \<and> ownAccount im (pz_Account live) \<and> adopt B im z live res w3 = (q, w'))"
      using run g Inl c p
      by (auto simp: import_zone_def Let_def target_zone_def [symmetric] z_def [symmetric] on_result_def and_then_def map_err_def ret_def fail_with_def
          split: if_splits sum.splits)
    then consider "still w w'" | live where "c = Inr False" "p = Inr live" "ownAccount im (pz_Account live)" "adopt B im z live res w3 = (q, w')"
      using s1 s2 s3 by blast
    then show ?thesis
    proof cases
      case (2 live)
      obtain p1 where p1: "ps w (z_Name z) = Some p1" "live = clonePZone p1" using server_get [OF p [unfolded 2(2)]] s2 by (auto simp: still_def)
      show ?thesis using adopted [OF s3] p1 2 free [OF 2(1)] by (simp add: z_def clonePZone_def)
    qed (rule same)
  qed
qed

lemma zone_restored:
  assumes laws: "fqdn_law (d_Ext (bd_Deps B))" "split_law (d_Ext (bd_Deps B))" and row: "linkable (d_Ext (bd_Deps B)) row"
    and im: "im_target im = t"
  shows "keeps (restored w0 t) (import_zone B im onServer row res)"
proof (rule keepsI)
  fix w q w' assume run: "import_zone B im onServer row res w = (q, w')" and r: "restored w0 t w"
  from laws row restored_inv [OF r] run show "restored w0 t w'"
  proof (cases rule: import_zone_cases)
    case same
    then show ?thesis by (rule restored_still [OF r])
  next
    case (described old d n u w1)
    have "zs w1 (z_ID old) = Some old" "z_TenantID old = t" using described(1-3) im by (auto simp: still_def)
    then show ?thesis using redescribed_restored [OF restored_still [OF r described(3)] _ _ described(4)] by blast
  next
    case (adopted p w1)
    have free: "\<not> Overlaps (z_Name (target_zone t row)) (z_Name y)" if "zs w1 i = Some y" "z_TenantID y \<noteq> t" for i y
      using adopted(1,4) that im by (simp add: still_def)
    have i: "pz_ID (clonePZone p) = z_Name (target_zone t row)"
      using server_ids [OF restored_inv [OF r] adopted(2)] im by (simp add: clonePZone_def)
    show ?thesis
      by (rule adopt_restored [OF restored_still [OF r adopted(1)] target_zone_ok(1) target_zone_ok(3) [OF row] target_zone_ok(2) i free
          adopted(5) [unfolded im]])
  qed
qed

lemma keeps_import_run:
  assumes laws: "fqdn_law (d_Ext (bd_Deps B))" "split_law (d_Ext (bd_Deps B))" and rows: "list_all (linkable (d_Ext (bd_Deps B))) (bk_Zones b)"
    and im: "im_target im = t"
  shows "keeps (restored w0 t) (import_run B im b full res)"
  unfolding import_run_def import_zones_def using rows
  by (intro act_keeps keeps_rows keeps_wipe keeps_import_all keeps_import_template keeps_import_supers zone_restored laws im)
     (auto simp: list_all_iff)

lemma fresh_still: "inv w \<Longrightarrow> d_NewID (bd_Deps B) w = (i, w') \<Longrightarrow> still w w'"
  using run_frame(15) other_frame(3) by (metis snd_conv still_def)

lemma remap_templates_still: "inv w \<Longrightarrow> remap_templates (bd_Deps B) m ts w = (x, w') \<Longrightarrow> still w w'"
proof (induction ts arbitrary: m w x w')
  case (Cons t ts)
  obtain i w1 where i: "d_NewID (bd_Deps B) w = (i, w1)" by fastforce
  obtain y w2 where y: "remap_templates (bd_Deps B) (mput (t_ID t) i m) ts w1 = (y, w2)" by fastforce
  have "still w w1" by (rule fresh_still [OF Cons.prems(1) i])
  moreover have "still w1 w2" using Cons.IH [OF _ y] calculation by (simp add: still_def)
  moreover have "w' = w2" using Cons.prems(2) i y by (auto split: prod.splits)
  ultimately show ?case by (simp add: still_def)
qed (simp add: still_refl)

lemma remap_zones_still:
  "inv w \<Longrightarrow> remap_zones (bd_Deps B) m rows w = (x, w') \<Longrightarrow>
   still w w' \<and> (list_all (linkable L) rows \<longrightarrow> list_all (linkable L) x)"
proof (induction rows arbitrary: w x w')
  case (Cons row rows)
  obtain i w1 where i: "d_NewID (bd_Deps B) w = (i, w1)" by fastforce
  obtain y w2 where y: "remap_zones (bd_Deps B) m rows w1 = (y, w2)" by fastforce
  have s: "still w w1" by (rule fresh_still [OF Cons.prems(1) i])
  have IH: "still w1 w2 \<and> (list_all (linkable L) rows \<longrightarrow> list_all (linkable L) y)" using Cons.IH [OF _ y] s by (simp add: still_def)
  then have "still w w2" using s still_trans by blast
  then show ?case using Cons.prems(2) i y IH by auto
qed (simp add: still_refl)

lemma remap_supers_still: "inv w \<Longrightarrow> remap_supers (bd_Deps B) sms w = (x, w') \<Longrightarrow> still w w'"
proof (induction sms arbitrary: w x w')
  case (Cons sm sms)
  obtain i w1 where i: "d_NewID (bd_Deps B) w = (i, w1)" by fastforce
  obtain y w2 where y: "remap_supers (bd_Deps B) sms w1 = (y, w2)" by fastforce
  have s: "still w w1" by (rule fresh_still [OF Cons.prems(1) i])
  have "still w1 w2" using Cons.IH [OF _ y] s by (simp add: still_def)
  then have "still w w2" using s still_trans by blast
  then show ?case using Cons.prems(2) i y by auto
qed (simp add: still_refl)

lemma remap_still:
  assumes inv: "inv w" and run: "remap (bd_Deps B) b w = (b', w')"
  shows "still w w'" "list_all (linkable L) (bk_Zones b) \<Longrightarrow> list_all (linkable L) (bk_Zones b')"
proof -
  obtain ts m w1 where t: "remap_templates (bd_Deps B) [] (bk_Templates b) w = ((ts, m), w1)" by (metis surj_pair)
  obtain rows w2 where z: "remap_zones (bd_Deps B) m (bk_Zones b) w1 = (rows, w2)" by fastforce
  obtain sms w3 where u: "remap_supers (bd_Deps B) (bk_Supermasters b) w2 = (sms, w3)" by fastforce
  have s1: "still w w1" by (rule remap_templates_still [OF inv t])
  then have s2: "still w1 w2" and l: "list_all (linkable L) (bk_Zones b) \<longrightarrow> list_all (linkable L) rows"
    using remap_zones_still [OF _ z] by (auto simp: still_def)
  then have "still w2 w3" using remap_supers_still [OF _ u] by (simp add: still_def)
  then show "still w w'" using s1 s2 run t z u still_trans by (auto simp: remap_def)
  show "list_all (linkable L) (bk_Zones b) \<Longrightarrow> list_all (linkable L) (bk_Zones b')" using l run t z u by (auto simp: remap_def)
qed

lemma emit_still: "inv w \<Longrightarrow> still w (backup_emit B s t k o1 rs d w)"
  using other_frame(4-6) by (simp add: backup_emit_def still_def)

lemma Import_restored:
  assumes laws: "fqdn_law (d_Ext (bd_Deps B))" "split_law (d_Ext (bd_Deps B))" and inv: "inv w"
    and run: "backup_Import B s b opts w = (q, w')"
  obtains t where "t = s_TenantID s \<or> IsPlatformAdmin s \<and> t = io_TenantID opts" "restored w t w'"
proof -
  have adm: "t = s_TenantID s \<or> IsPlatformAdmin s \<and> t = io_TenantID opts" if "import_target B s opts = Inr t" for t
    using that by (auto simp: import_target_def backup_target_def RequirePlatformAdmin_def split: option.splits if_splits sum.splits)
  consider (refused) e where "w' = backup_refused B s BackupImport e w" | (invalid) "w' = w"
    | (ran) t im b1 w1 res r w2 k o1 rs d where "import_target B s opts = Inr t"
       "backup_Validate (d_Ext (bd_Deps B)) (bd_Limits B) b = None" "im_target im = t"
       "(if bk_TenantID b \<noteq> t then remap (bd_Deps B) b w else (b, w)) = (b1, w1)"
       "import_run B im b1 (io_Full opts) res w1 = (r, w2)" "w' = backup_emit B s t k o1 rs d w2"
  proof (cases "import_target B s opts")
    case (Inl e)
    then show thesis using run that(1) by (simp add: backup_Import_def)
  next
    case (Inr t)
    show thesis
    proof (cases "backup_Validate (d_Ext (bd_Deps B)) (bd_Limits B) b")
      case None
      let ?im = "\<lparr>im_subj = s, im_target = t, im_origin = bk_TenantID b, im_mode = ir_Mode (import_start t opts)\<rparr>"
      obtain b1 w1 where b1: "(if bk_TenantID b \<noteq> t then remap (bd_Deps B) b w else (b, w)) = (b1, w1)" by fastforce
      obtain r w2 where r: "import_run B ?im b1 (io_Full opts) (import_start t opts) w1 = (r, w2)" by fastforce
      have "import_finish B s t (io_Full opts) r w2 = (q, w')"
        using run Inr None b1 r by (auto simp: backup_Import_def on_result_def check_def split: if_splits)
      then have "\<exists>k o1 rs d. w' = backup_emit B s t k o1 rs d w2"
        unfolding import_finish_def Let_def effect_def lift_res_def by blast
      then show thesis using that(3) [OF Inr None _ b1 r] by auto
    next
      case (Some e)
      then show thesis using run Inr that(2) by (simp add: backup_Import_def check_def)
    qed
  qed
  then show ?thesis
  proof cases
    case refused
    then have "still w w'" using inv emit_still by (simp add: backup_refused_def still_refl)
    then show ?thesis using that restored_still [OF restored_refl [OF inv]] by blast
  next
    case invalid
    then show ?thesis using that restored_refl [OF inv] by blast
  next
    case (ran t im b1 w1 res r w2 k o1 rs d)
    have l: "list_all (linkable (d_Ext (bd_Deps B))) (bk_Zones b)" by (rule Validate_linkable [OF ran(2)])
    have b1: "still w w1" "list_all (linkable (d_Ext (bd_Deps B))) (bk_Zones b1)"
      using ran(4) l remap_still [OF inv, of b b1 w1] still_refl [OF inv] by (auto split: if_splits)
    have "restored w t w1" by (rule restored_still [OF restored_refl [OF inv] b1(1)])
    then have r2: "restored w t w2" by (rule keepsE [OF keeps_import_run [OF laws b1(2) ran(3)] ran(5)])
    have "restored w t w'" using restored_still [OF r2 emit_still [OF restored_inv [OF r2]]] ran(6) by simp
    then show ?thesis using that adm [OF ran(1)] by blast
  qed
qed

lemma new_zone_adopted:
  assumes laws: "fqdn_law (d_Ext (bd_Deps B))" "split_law (d_Ext (bd_Deps B))" and row: "linkable (d_Ext (bd_Deps B)) row"
    and inv: "inv w" and run: "import_zone B im onServer row res w = (q, w')" and new: "zs w' i = Some y" "zs w i = None"
  obtains p w2 where "ps w (z_Name (zr_Zone row)) = Some p" "ownAccount im (pz_Account p)" "links (x_unicode (d_Ext (bd_Deps B))) (target_zone (im_target im) row) p y"
    "\<And>j x. zs w j = Some x \<Longrightarrow> z_TenantID x \<noteq> im_target im \<Longrightarrow> \<not> Overlaps (z_Name (zr_Zone row)) (z_Name x)"
    "ps w2 = ps w" "w' = w2 \<or> (\<exists>u. p_UpdateZoneMetadata (d_PDNS (bd_Deps B)) (z_Name (zr_Zone row)) (adopted_meta im (clonePZone p)) w2 = (u, w'))"
  using laws row inv run
proof (cases rule: import_zone_cases)
  case same
  then show ?thesis using new by (simp add: still_def)
next
  case (described old d n u w1)
  have i1: "inv w1" "zs w1 = zs w" using described(3) by (auto simp: still_def)
  have "zs w' = zs w \<or> (\<exists>v. zs w' = (zs w)(z_ID old \<mapsto> v))"
    using update_failed [OF i1(1)] update_done [OF i1(1)] described(4) i1(2) by (cases u) force+
  then show ?thesis using new described(1) by (auto split: if_splits)
next
  case (adopted p w1)
  define z where "z = target_zone (im_target im) row"
  have z: "z_Kind z \<noteq> []" "z_Origin z \<noteq> []" "pz_ID (clonePZone p) = z_Name z"
    using target_zone_ok(2) target_zone_ok(3) [OF row] server_ids [OF inv adopted(2)] by (auto simp: z_def clonePZone_def)
  have nm: "z_Name z = z_Name (zr_Zone row)" by (simp add: z_def target_zone_def)
  have i1: "inv w1" "zs w1 = zs w" "ps w1 = ps w" using adopted(1) by (auto simp: still_def)
  from i1(1) z(1,3) adopted(5) [folded z_def] show ?thesis
  proof (cases rule: adopt_cases)
    case same
    then show ?thesis using new i1 by (simp add: still_def)
  next
    case (linked v x w2 w3)
    have v: "inv w2" "z_Kind v \<noteq> []" "z_Origin v \<noteq> []" using linked(1,2) z by (auto simp: still_def links_def)
    obtain row' where r: "zs w3 = (zs w2)(z_ID v \<mapsto> row')" "stored_as v row'" using create_done [OF v(1) linked(3) v(2,3)] by blast
    have "zs w' = zs w3" using linked(4) run_frame(11) by blast
    then have "y = row'" using new r(1) i1(2) linked(2) by (auto simp: still_def split: if_splits)
    then have l: "links (x_unicode (d_Ext (bd_Deps B))) z p y" using linked(1) r(2) by (auto simp: links_def stored_as_def clonePZone_def)
    have "ps w3 = ps w" using run_frame(1) [OF linked(3)] linked(2) i1(3) by (simp add: still_def)
    moreover have "z_PDNSID v = z_Name (zr_Zone row)" using linked(1) nm by (simp add: links_def)
    ultimately show ?thesis using that [OF _ adopted(3) l [unfolded z_def], of w3] adopted(2,4) linked(4) nm z_def by simp
  qed
qed

subsection \<open>Export\<close>

lemma export_rows_outcome:
  "inv w \<Longrightarrow> export_rows (d_PDNS (bd_Deps B)) budget zones w = ((rows, n), w') \<Longrightarrow>
   still w w' \<and> map zr_Zone rows = zones \<and> sum_list (map (\<lambda>r. length (zr_Bind r)) rows) \<le> budget"
proof (induction zones arbitrary: budget w rows n w')
  case (Cons z zones)
  obtain x w1 where x: "p_ExportZone (d_PDNS (bd_Deps B)) (z_PDNSID z) w = (x, w1)" by fastforce
  have s1: "still w w1" using run_frame(14) [OF x] keepsE [OF server_inv(6) x Cons.prems(1)] by (simp add: still_def)
  then have inv1: "inv w1" by (simp add: still_def)
  define bind where "bind = (case x of Inr b \<Rightarrow> if length b \<le> budget then b else [] | Inl _ \<Rightarrow> [])"
  define rest where "rest = (case x of Inr b \<Rightarrow> if length b \<le> budget then budget - length b else budget | Inl _ \<Rightarrow> budget)"
  obtain rs k w2 where r: "export_rows (d_PDNS (bd_Deps B)) rest zones w1 = ((rs, k), w2)" by (metis surj_pair)
  have "rows = \<lparr>zr_Zone = z, zr_Bind = bind\<rparr> # rs \<and> w' = w2"
    using Cons.prems(2) x r by (auto simp: bind_def rest_def split: sum.splits if_splits)
  moreover have "length bind + rest \<le> budget" by (auto simp: bind_def rest_def split: sum.split)
  ultimately show ?case using Cons.IH [OF inv1 r] still_trans [OF s1, of w2] by auto
qed (simp add: still_refl)

lemma Export_outcome:
  assumes inv: "inv w" and run: "backup_Export B s tid w = (Inr (Some d), w')"
  obtains w1 zones where "bk_TenantID d = s_TenantID s \<or> IsPlatformAdmin s" "still w w'"
    "r_ZonesForTenant (d_Store (bd_Deps B)) (bk_TenantID d) w = (Inr zones, w1)" "map zr_Zone (bk_Zones d) = zones"
    "sum_list (map (\<lambda>r. length (zr_Bind r)) (bk_Zones d)) \<le> MaxBindBytes" "bk_SchemaVersion d = SchemaVersion"
proof -
  obtain t where t: "backup_target B s tid = Inr t" using run by (cases "backup_target B s tid") (auto simp: backup_Export_def)
  have adm: "t = s_TenantID s \<or> IsPlatformAdmin s"
    using t by (auto simp: backup_target_def RequirePlatformAdmin_def split: option.splits if_splits)
  obtain zones w1 rows n w2 tpls w3 sms w4 where
    z: "r_ZonesForTenant (d_Store (bd_Deps B)) t w = (Inr zones, w1)" and
    x: "export_rows (d_PDNS (bd_Deps B)) MaxBindBytes zones w1 = ((rows, n), w2)" and
    l: "bd_AllTemplates B t w2 = (Inr tpls, w3)" and m: "bd_AllSupermasters B t w3 = (Inr (Some sms), w4)" and
    w': "\<exists>k o1 rs ds. w' = backup_emit B s t k o1 rs ds w4" and
    d: "bk_TenantID d = t" "bk_Zones d = rows" "bk_SchemaVersion d = SchemaVersion"
    using run t by (auto simp: backup_Export_def reading_def ret_def effect_def elim!: and_thenE split: option.splits prod.splits) blast
  have s1: "still w w1" using run_frame(5) [OF z] keepsE [OF store_inv(7) z inv] by (simp add: still_def)
  then have s2: "still w1 w2" "map zr_Zone rows = zones" "sum_list (map (\<lambda>r. length (zr_Bind r)) rows) \<le> MaxBindBytes"
    using export_rows_outcome [OF _ x] by (auto simp: still_def)
  then have s3: "still w2 w3" using template_rows(5) [OF _ l] by (simp add: still_def)
  then have s4: "still w3 w4" using supermaster_rows(3) [OF _ m] by (simp add: still_def)
  then have "still w4 w'" using w' emit_still by (auto simp: still_def)
  then have "still w w'" using s1 s2(1) s3 s4 by (simp add: still_def)
  then show ?thesis using that [of zones w1] adm z s2 d by simp
qed

end

end
