(* ===== verification/Backup_Service.thy ===== *)
theory Backup_Service
  imports Backup Record_Service
begin

text \<open>
  Backups in the wired module: what a restore can reach, which zones it links and what a
  backup restores.
\<close>

section \<open>Wiring\<close>

definition backup_wire :: "settings \<Rightarrow> world backup_deps" where
  "backup_wire c = (let u = x_unicode (cfg_Ext c) in
     backup_New \<lparr>bd_Deps = wire (c\<lparr>cfg_Checker := None\<rparr>), bd_Limits = cfg_Limits c,
       bd_AllTemplates = (\<lambda>t. on_mem (mem_AllTemplates u t)), bd_AllSupermasters = (\<lambda>t. on_mem (mem_AllSupermasters t))\<rparr>)"

text \<open>An honest server whose zones carry the ids they are found under.\<close>

definition sound_server :: "fake \<Rightarrow> bool" where
  "sound_server f = (honest f \<and> fake_ok f)"

abbreviation world_sound :: "unicode \<Rightarrow> world \<Rightarrow> bool" where
  "world_sound \<equiv> world_inv sound_server"

lemma backup_wire_simps [simp]:
  "bd_Deps (backup_wire c) = wire (c\<lparr>cfg_Checker := None\<rparr>)"
  "bd_AllTemplates (backup_wire c) t = on_mem (mem_AllTemplates (x_unicode (cfg_Ext c)) t)"
  "bd_AllSupermasters (backup_wire c) t = on_mem (mem_AllSupermasters t)" "cfg_Ext (c\<lparr>cfg_Checker := None\<rparr>) = cfg_Ext c"
  by (simp_all add: backup_wire_def backup_New_def Let_def)

lemma keeps_sound: "keeps honest m \<Longrightarrow> keeps fake_ok m \<Longrightarrow> keeps sound_server m"
  unfolding sound_server_def by (rule keeps_conj)

lemma steady_sound: "steady sound_server"
  unfolding steady_def
  by (intro conjI allI keeps_sound steadyD [OF steady_servers(1)] keeps_fake) (simp add: sound_server_def)

lemma sound_lists:
  "keeps sound_server fake_ListZoneNames" "keeps sound_server fake_ListSupermasters" "keeps sound_server (fake_CreateSupermaster s)"
  "keeps sound_server (fake_DeleteSupermaster a b)"
  by (rule keeps_sound [OF _ keeps_fake_rest(2)] keeps_sound [OF _ keeps_fake_rest(5)] keeps_sound [OF _ keeps_fake_rest(6)]
      keeps_sound [OF _ keeps_fake_rest(7)],
      unfold fake_ListZoneNames_def fake_ListSupermasters_def fake_CreateSupermaster_def fake_DeleteSupermaster_def,
      rule armed_op; simp add: Let_def split: option.split)+

lemma quiet_op:
  assumes "\<And>f. f_zones (snd (body f)) = f_zones f"
  shows "f_zones (snd (fake_op op i body f)) = f_zones f"
proof -
  obtain r f' where run: "fake_op op i body f = (r, f')" by fastforce
  from run show ?thesis
  proof (cases rule: fake_opH)
    case (ran f1)
    then show ?thesis using run assms [of f1] by simp
  qed (simp add: run)
qed

lemma super_zones:
  "f_zones (snd (fake_ListZoneNames f)) = f_zones f" "f_zones (snd (fake_ListSupermasters f)) = f_zones f"
  "f_zones (snd (fake_CreateSupermaster s f)) = f_zones f" "f_zones (snd (fake_DeleteSupermaster a b f)) = f_zones f"
  by (auto simp: fake_ListZoneNames_def fake_ListSupermasters_def fake_CreateSupermaster_def fake_DeleteSupermaster_def
      intro!: quiet_op split: option.split)

lemma server_quiet:
  assumes "keeps Q f" "\<And>m. f_zones (snd (f m)) = f_zones m" "world_inv Q u w" "on_pdns f w = (r, w')"
  shows "world_inv Q u w' \<and> stored w' = stored w \<and> served w' = served w"
proof -
  have w': "w' = w\<lparr>w_pdns := snd (f (w_pdns w))\<rparr>" using assms(4) by (auto simp: on_pdns_run)
  have "Q (snd (f (w_pdns w)))" using keepsD [OF assms(1)] assms(3) by (simp add: world_inv_def)
  then show ?thesis using w' assms(2,3) by (simp add: world_inv_def stored_def served_def)
qed

lemma fake_meta:
  assumes "fake_UpdateZoneMetadata i m f = (r, f')"
  shows "j \<noteq> i \<Longrightarrow> mget (f_zones f') j = mget (f_zones f) j"
    "map_option pz_RRsets (mget (f_zones f') i) = map_option pz_RRsets (mget (f_zones f) i)"
  using assms unfolding fake_UpdateZoneMetadata_def
  by (auto elim!: fake_opH simp: fake_zone_def split: sum.splits option.splits)

lemma row_zones:
  "m_zones (snd (mem_CreateTemplate u x m)) = m_zones m" "m_zones (snd (mem_UpdateTemplate u x m)) = m_zones m"
  "m_zones (snd (mem_DeleteTemplate t i m)) = m_zones m" "m_zones (snd (mem_CreateSupermaster s m)) = m_zones m"
  by (auto simp: mem_CreateTemplate_def mem_UpdateTemplate_def mem_DeleteTemplate_def mem_CreateSupermaster_def mem_op_def mem_fail_def Let_def
      split: option.split sum.split prod.split)

lemma read_zones: "reads a \<Longrightarrow> m_zones (snd (a m)) = m_zones m"
  unfolding reads_def by (metis mem.select_convs(1) mem.surjective mem.update_convs(8))

lemma backup_store_calls:
  "r_CreateTemplate (mem_store u) x = on_mem (mem_CreateTemplate u x)" "r_UpdateTemplate (mem_store u) x = on_mem (mem_UpdateTemplate u x)"
  "r_DeleteTemplate (mem_store u) t i = on_mem (mem_DeleteTemplate t i)" "r_GetSupermaster (mem_store u) t i = on_mem (mem_GetSupermaster t i)"
  "r_CreateSupermaster (mem_store u) y = on_mem (mem_CreateSupermaster y)"
  "p_ListZoneNames (fake_server u) = on_pdns fake_ListZoneNames" "p_ListSupermasters (fake_server u) = on_pdns fake_ListSupermasters"
  "p_CreateSupermaster (fake_server u) z = on_pdns (fake_CreateSupermaster z)"
  "p_DeleteSupermaster (fake_server u) a b = on_pdns (fake_DeleteSupermaster a b)"
  by (simp_all add: mem_store_def fake_server_def)

lemma backup_contract: "backup_env (backup_wire c) stored (world_sound (x_unicode (cfg_Ext c))) served"
proof (rule backup_env.intro)
  show "record_env (bd_Deps (backup_wire c)) stored (world_sound (x_unicode (cfg_Ext c))) served"
    using record_contract [OF steady_sound, of "c\<lparr>cfg_Checker := None\<rparr>"] by simp
  note store = mem_quiet [OF keeps_reads [OF mem_reads(7)] read_zones [OF mem_reads(7)]]
    mem_quiet [OF keeps_CreateTemplate row_zones(1)] mem_quiet [OF keeps_UpdateTemplate row_zones(2)]
    mem_quiet [OF keeps_DeleteTemplate row_zones(3)] mem_quiet [OF keeps_reads [OF mem_reads(14)] read_zones [OF mem_reads(14)]]
    mem_quiet [OF keeps_reads [OF mem_reads(9)] read_zones [OF mem_reads(9)]] mem_quiet [OF keeps_CreateSupermaster row_zones(4)]
    mem_quiet [OF keeps_reads [OF mem_reads(15)] read_zones [OF mem_reads(15)]]
  note server = server_quiet [OF sound_lists(1) super_zones(1)] server_quiet [OF sound_lists(2) super_zones(2)]
    server_quiet [OF sound_lists(3) super_zones(3)] server_quiet [OF sound_lists(4) super_zones(4)]
  show "backup_env_axioms (backup_wire c) stored (world_sound (x_unicode (cfg_Ext c))) served"
  proof (unfold_locales, unfold backup_wire_simps wire_simps mem_store_simps backup_store_calls fake_server_simps)
    fix w i p assume "world_sound (x_unicode (cfg_Ext c)) w" "served w i = Some p"
    then show "pz_ID p = i" using keyed_mget by (fastforce simp: world_inv_def sound_server_def fake_ok_def served_def)
  next
    fix i m w r w' j assume "on_pdns (fake_UpdateZoneMetadata i m) w = (r, w')" "j \<noteq> i"
    then show "served w' j = served w j" using fake_meta(1) by (auto simp: on_pdns_run served_def)
  next
    fix i m w r w' assume "on_pdns (fake_UpdateZoneMetadata i m) w = (r, w')"
    then show "map_option pz_RRsets (served w' i) = map_option pz_RRsets (served w i)" using fake_meta(2) by (auto simp: on_pdns_run served_def)
  qed (erule (1) store server)+
qed

interpretation bk: backup_env "backup_wire c" stored "world_sound (x_unicode (cfg_Ext c))" served for c
  by (rule backup_contract)

section \<open>Reach\<close>

text \<open>
  C9: A restore reaches one tenant: the caller's, or for a platform administrator
  the one the request names. Whatever the document, the mode and the outcome, the zones of every other
  tenant are the same rows before and after and PowerDNS serves them as it did; no
  stored zone disappears or changes its name, owner or identifier; no record set of any
  served zone changes and no served zone appears or goes; and tenants whose zones did
  not overlap before do not overlap after.
\<close>

theorem import_confined:
  assumes laws: "fqdn_law (cfg_Ext c)" "split_law (cfg_Ext c)" and ok: "world_sound (x_unicode (cfg_Ext c)) w"
    and run: "backup_Import (backup_wire c) s b opts w = (q, w')"
  shows "\<exists>t. (t = s_TenantID s \<or> IsPlatformAdmin s \<and> t = io_TenantID opts) \<and>
    (\<forall>i y. z_TenantID y \<noteq> t \<longrightarrow> (stored w' i = Some y \<longleftrightarrow> stored w i = Some y)) \<and>
    (\<forall>i y p. stored w i = Some y \<longrightarrow> z_TenantID y \<noteq> t \<longrightarrow> served w (z_PDNSID y) = Some p \<longrightarrow> served w' (z_PDNSID y) = Some p) \<and>
    (\<forall>i y. stored w i = Some y \<longrightarrow>
      (\<exists>y'. stored w' i = Some y' \<and> z_Name y' = z_Name y \<and> z_TenantID y' = z_TenantID y \<and> z_PDNSID y' = z_PDNSID y)) \<and>
    (\<forall>i. map_option pz_RRsets (served w' i) = map_option pz_RRsets (served w i)) \<and> (tenants_apart w \<longrightarrow> tenants_apart w')"
proof -
  obtain t where t: "t = s_TenantID s \<or> IsPlatformAdmin s \<and> t = io_TenantID opts" and r: "bk.restored c w t w'"
    using bk.Import_restored [of c w s b opts q w'] laws ok run by auto
  have ok': "world_sound (x_unicode (cfg_Ext c)) w'" by (rule bk.restored_inv [OF r])
  have k: "z_ID y = i" if "stored w i = Some y \<or> stored w' i = Some y" for i y
    using that bk.keyed_rows [OF ok] bk.keyed_rows [OF ok'] by blast
  have al: "z_TenantID y \<noteq> t \<Longrightarrow> stored w' (z_ID y) = Some y \<longleftrightarrow> stored w (z_ID y) = Some y" for y
    using r by (auto simp: bk.restored_def bk.kept_def bk.alien_def)
  have own: "stored w' i = Some y \<longleftrightarrow> stored w i = Some y" if "z_TenantID y \<noteq> t" for i y
    using al [OF that] k by metis
  have contents: "served w' (z_PDNSID y) = Some p" if "stored w i = Some y" "z_TenantID y \<noteq> t" "served w (z_PDNSID y) = Some p" for i y p
    using r that k [of i y] by (auto simp: bk.restored_def bk.kept_def bk.alien_def)
  have rows: "\<exists>y'. stored w' i = Some y' \<and> z_Name y' = z_Name y \<and> z_TenantID y' = z_TenantID y \<and> z_PDNSID y' = z_PDNSID y"
    if "stored w i = Some y" for i y using r that unfolding bk.restored_def by (elim conjE) blast
  have sets: "map_option pz_RRsets (served w' i) = map_option pz_RRsets (served w i)" for i
    using r unfolding bk.restored_def by (elim conjE) (erule allE)
  have apart: "tenants_apart w \<longrightarrow> tenants_apart w'"
    using r unfolding bk.restored_def bk.disjoint_def tenants_apart_def by (elim conjE)
  show ?thesis by (intro exI [of _ t] conjI allI impI t own rows sets apart [rule_format]) (assumption | erule (2) contents)+
qed


definition other_tenant :: string where
  "other_tenant = ''00000000-0000-0000-0000-00000000000b''"

definition backup_sample :: backup_doc where
  "backup_sample = \<lparr>bk_SchemaVersion = 1, bk_ExportedAt = 0, bk_TenantID = other_tenant,
     bk_Zones = [\<lparr>zr_Zone = demo_zone\<lparr>z_TenantID := other_tenant\<rparr>, zr_Bind = []\<rparr>], bk_Templates = [], bk_Supermasters = []\<rparr>"

definition backup_options :: import_options where
  "backup_options = \<lparr>io_Mode = ModeSkip, io_TenantID = [], io_Full = False\<rparr>"

definition orphan_world :: world where
  "orphan_world = demo_world\<lparr>w_pdns := NewFake\<lparr>f_zones := [(''a.com.'', demo_served\<lparr>pz_Account := other_tenant\<rparr>)]\<rparr>\<rparr>"

definition orphan_minted :: world where
  "orphan_minted = orphan_world\<lparr>w_ids := \<lparr>idLast = 5, idSeq = 0\<rparr>, w_minted := 1\<rparr>"

definition orphan_listed :: world where
  "orphan_listed = orphan_minted\<lparr>w_pdns := (w_pdns orphan_world)\<lparr>f_Calls := [''ListZoneNames'']\<rparr>\<rparr>"

definition orphan_adopted :: world where
  "orphan_adopted = committed_world\<lparr>w_pdns := NewFake\<lparr>f_zones := [(''a.com.'', demo_served)],
     f_Calls := [''ListZoneNames'', ''GetZone a.com.'', ''UpdateZoneMetadata a.com.'']\<rparr>\<rparr>"

definition orphan_restored :: world where
  "orphan_restored = orphan_adopted\<lparr>w_ids := \<lparr>idLast = 5, idSeq = 1\<rparr>, w_minted := 2, w_writer := (newWriter 0)\<lparr>wr_dropped := 1\<rparr>\<rparr>"

definition sample_importer :: importer where
  "sample_importer = \<lparr>im_subj = User ''a'' ''u'' [], im_target = ''a'', im_origin = other_tenant, im_mode = ModeSkip\<rparr>"

definition sample_done :: import_result where
  "sample_done = (import_start ''a'' backup_options)\<lparr>ir_Imported := [(''zones'', 1)]\<rparr>"

definition sample_deps :: "world backup_deps" where
  "sample_deps = \<lparr>bd_Deps = wire demo_settings, bd_Limits = DefaultLimits, bd_AllTemplates = (\<lambda>t. on_mem (mem_AllTemplates (x_unicode sample_ext) t)),
     bd_AllSupermasters = (\<lambda>t. on_mem (mem_AllSupermasters t))\<rparr>"

lemma sample_wire: "backup_wire demo_settings = sample_deps"
  by (simp add: sample_deps_def demo_settings_def backup_wire_def backup_New_def Let_def or_default_def DefaultLimits_def)

lemma sample_remap: "remap (wire demo_settings) backup_sample orphan_world = (backup_sample, orphan_minted)"
proof -
  have "remap_zones (wire demo_settings) [] (bk_Zones backup_sample) orphan_world = (bk_Zones backup_sample, orphan_minted)" by code_simp
  then show ?thesis by (simp add: remap_def backup_sample_def)
qed

lemma sample_names: "p_ListZoneNames (d_PDNS (wire demo_settings)) orphan_minted = (Inr [''a.com.''], orphan_listed)"
proof -
  have "TrimSpace ''ListZoneNames '' = ''ListZoneNames''" by code_simp
  then show ?thesis
    by (simp add: backup_store_calls on_pdns_def focus_def fake_ListZoneNames_def fake_op_def fake_begin_def orphan_listed_def orphan_minted_def
        orphan_world_def mvals_def NewFake_def demo_served_def)
qed

lemma sample_zone: "import_zone sample_deps sample_importer (\<lambda>n. n \<in> set [''a.com.'']) (hd (bk_Zones backup_sample))
     (import_start ''a'' backup_options) orphan_listed = (Inr sample_done, orphan_adopted)"
  by code_simp

lemma sample_finish:
  "import_finish sample_deps (User ''a'' ''u'' []) ''a'' False (Inr sample_done) orphan_adopted = (Inr sample_done, orphan_restored)"
  by code_simp

lemma sample_checks:
  "backup_Validate sample_ext DefaultLimits backup_sample = None"
  "import_target sample_deps (User ''a'' ''u'' []) backup_options = Inr ''a''"
  by code_simp+

lemma sample_run:
  "import_run sample_deps sample_importer backup_sample False (import_start ''a'' backup_options) orphan_minted
     = (Inr sample_done, orphan_adopted)"
proof -
  define row where "row = hd (bk_Zones backup_sample)"
  have b: "bk_Templates backup_sample = []" "bk_Supermasters backup_sample = []" "bk_Zones backup_sample = [row]"
    by (simp_all add: backup_sample_def row_def)
  have d: "bd_Deps sample_deps = wire demo_settings" by (simp add: sample_deps_def)
  have "map (lower (d_Ext (wire demo_settings))) [''a.com.''] = [''a.com.'']" by code_simp
  then have z: "import_zone sample_deps sample_importer (\<lambda>n. n \<in> set (map (lower (d_Ext (wire demo_settings))) [''a.com.''])) row
      (import_start ''a'' backup_options) orphan_listed = (Inr sample_done, orphan_adopted)"
    using sample_zone unfolding row_def by (simp only:)
  have "import_zones sample_deps sample_importer [row] (import_start ''a'' backup_options) orphan_minted = (Inr sample_done, orphan_adopted)"
    unfolding import_zones_def d and_then_def map_err_def using z sample_names by (simp add: and_then_def ret_def)
  then show ?thesis unfolding import_run_def b by (simp add: import_supers_def and_then_def ret_def)
qed

lemma sample_Import:
  "backup_Import (backup_wire demo_settings) (User ''a'' ''u'' []) backup_sample backup_options orphan_world = (Inr sample_done, orphan_restored)"
proof -
  have d: "bd_Deps sample_deps = wire demo_settings" "bd_Limits sample_deps = DefaultLimits" by (simp_all add: sample_deps_def)
  have t: "bk_TenantID backup_sample \<noteq> ''a''" "io_Full backup_options = False" by code_simp+
  have im: "\<lparr>im_subj = User ''a'' ''u'' [], im_target = ''a'', im_origin = bk_TenantID backup_sample,
    im_mode = ir_Mode (import_start ''a'' backup_options)\<rparr> = sample_importer" by code_simp
  have v: "backup_Validate (d_Ext (wire demo_settings)) DefaultLimits backup_sample = None"
    using sample_checks(1) by (simp add: demo_settings_def)
  show ?thesis
    unfolding backup_Import_def Let_def sample_wire sample_checks(2) sum.case d v t(2) im
    using sample_run sample_remap sample_finish t(1) by (simp add: on_result_def check_def im)
qed


lemma sound_orphan: "world_sound u orphan_world"
proof -
  have f: "fake_ok (w_pdns orphan_world)" by code_simp
  have "honest (w_pdns orphan_world)" by (simp add: honest_def orphan_world_def NewFake_def)
  moreover have "mem_ok u (w_mem orphan_world)" by (simp add: orphan_world_def demo_world_def mem_ok_New)
  ultimately show ?thesis using f by (simp add: world_inv_def sound_server_def)
qed

theorem import_confined_witness:
  "backup_Import (backup_wire demo_settings) (User ''a'' ''u'' []) backup_sample backup_options orphan_world = (Inr sample_done, orphan_restored) \<and>
   (\<exists>t. (t = ''a'' \<or> IsPlatformAdmin (User ''a'' ''u'' [])) \<and>
     (\<forall>i. map_option pz_RRsets (served orphan_restored i) = map_option pz_RRsets (served orphan_world i)) \<and>
     (tenants_apart orphan_world \<longrightarrow> tenants_apart orphan_restored))"
proof -
  have t: "s_TenantID (User ''a'' ''u'' []) = ''a''" by code_simp
  show ?thesis using import_confined [OF demo_laws(1,2) sound_orphan sample_Import] sample_Import unfolding t by blast
qed

section \<open>Adoption\<close>



lemma orphan_facts:
  "served orphan_listed ''a.com.'' = Some (demo_served\<lparr>pz_Account := other_tenant\<rparr>)" "served orphan_world ''a.com.'' = Some (demo_served\<lparr>pz_Account := other_tenant\<rparr>)"
  "stored orphan_listed (z_ID demo_row) = None" "stored orphan_adopted (z_ID demo_row) = Some demo_row" "stored orphan_restored (z_ID demo_row) = Some demo_row"
  "served orphan_adopted ''a.com.'' = Some demo_served" "served orphan_restored ''a.com.'' = Some demo_served" "z_Name demo_row = ''a.com.''"
  by (simp_all add: served_def stored_def orphan_listed_def orphan_minted_def orphan_adopted_def orphan_restored_def committed_world_def
      provisioned_world_def prepared_world_def orphan_world_def demo_world_def mem_New_def demo_row_def demo_zone_def)


text \<open>
  The account check trusts the tenant the document names: a caller who is no platform
  administrator links a zone that PowerDNS holds under the account of another tenant
  and becomes its account.
\<close>

lemma foreign_account_adopted:
  "\<not> IsPlatformAdmin (User ''a'' ''u'' []) \<and> pz_Account (the (served orphan_world ''a.com.'')) = other_tenant \<and> other_tenant \<noteq> ''a'' \<and>
   backup_Import (backup_wire demo_settings) (User ''a'' ''u'' []) backup_sample backup_options orphan_world = (Inr sample_done, orphan_restored) \<and>
   stored orphan_restored (z_ID demo_row) = Some demo_row \<and> z_TenantID demo_row = ''a'' \<and>
   pz_Account (the (served orphan_restored ''a.com.'')) = ''a''"
proof (intro conjI sample_Import)
  show "\<not> IsPlatformAdmin (User ''a'' ''u'' [])" "other_tenant \<noteq> ''a''" "z_TenantID demo_row = ''a''" by code_simp+
  show "pz_Account (the (served orphan_world ''a.com.'')) = other_tenant" "stored orphan_restored (z_ID demo_row) = Some demo_row"
    "pz_Account (the (served orphan_restored ''a.com.'')) = ''a''" by (simp_all add: orphan_facts demo_served_def)
qed

section \<open>Export\<close>

lemma tenant_zone_set:
  assumes "world_inv Q u w" "on_mem (mem_ZonesForTenant t) w = (Inr l, w')"
  shows "set l = {z. stored w (z_ID z) = Some z \<and> z_TenantID z = t}"
proof -
  have "set l = {z \<in> set (mvals (m_zones (w_mem w))). z_TenantID z = t}"
    using assms(2) by (auto simp: on_mem_run mem_ZonesForTenant_def mem_op_def mem_fail_def tenantZones_def Let_def split: if_splits)
  moreover have "z \<in> set (mvals (m_zones (w_mem w))) \<longleftrightarrow> stored w (z_ID z) = Some z" for z
    using assms(1) by (auto simp: world_inv_def mem_ok_def zones_ok_def gmap_def keyed_def mvals_def stored_def intro: rev_image_eqI)
  ultimately show ?thesis by auto
qed

text \<open>
  C20: An export is complete and changes nothing. The document is of the caller's tenant,
  or of another one for a platform administrator; it lists exactly the stored zones of
  that tenant, whether or not PowerDNS can export their contents; the contents together
  stay within the limit; and the stored and the served zones are as before.
\<close>

theorem export_complete:
  assumes "world_sound (x_unicode (cfg_Ext c)) w" and "backup_Export (backup_wire c) s tid w = (Inr (Some d), w')"
  shows "(bk_TenantID d = s_TenantID s \<or> IsPlatformAdmin s) \<and>
    set (map zr_Zone (bk_Zones d)) = {z. stored w (z_ID z) = Some z \<and> z_TenantID z = bk_TenantID d} \<and>
    sum_list (map (\<lambda>r. length (zr_Bind r)) (bk_Zones d)) \<le> MaxBindBytes \<and> stored w' = stored w \<and> served w' = served w"
proof -
  obtain w1 zones where e: "bk_TenantID d = s_TenantID s \<or> IsPlatformAdmin s" "stored w' = stored w" "served w' = served w"
    "on_mem (mem_ZonesForTenant (bk_TenantID d)) w = (Inr zones, w1)" "map zr_Zone (bk_Zones d) = zones"
    "sum_list (map (\<lambda>r. length (zr_Bind r)) (bk_Zones d)) \<le> MaxBindBytes"
    by (rule bk.Export_outcome [OF assms]) (auto simp: bk.still_def)
  then show ?thesis using tenant_zone_set [OF assms(1) e(4)] by simp
qed

text \<open>The server does not answer: the document has the zone without its contents.\<close>

definition silent_world :: world where
  "silent_world = orphan_restored\<lparr>w_pdns := (w_pdns orphan_restored)\<lparr>f_Down := True\<rparr>\<rparr>"

definition silent_asked :: world where
  "silent_asked = silent_world\<lparr>w_pdns := (w_pdns silent_world)\<lparr>f_Calls := f_Calls (w_pdns silent_world) @ [''ExportZone a.com.'']\<rparr>\<rparr>"

lemma silent_steps:
  "backup_target sample_deps (User ''a'' ''u'' []) [] = Inr ''a''"
  "r_ZonesForTenant (d_Store (wire demo_settings)) ''a'' silent_world = (Inr [demo_row], silent_world)"
  "export_rows (d_PDNS (wire demo_settings)) b [demo_row] silent_world = (([\<lparr>zr_Zone = demo_row, zr_Bind = []\<rparr>], 1), silent_asked)"
  "bd_AllTemplates sample_deps ''a'' silent_asked = (Inr [], silent_asked)"
  "bd_AllSupermasters sample_deps ''a'' silent_asked = (Inr (Some []), silent_asked)"
  by code_simp+

lemma silent_Export: "\<exists>d w'. backup_Export (backup_wire demo_settings) (User ''a'' ''u'' []) [] silent_world = (Inr (Some d), w')"
proof -
  have d: "bd_Deps sample_deps = wire demo_settings" by (simp add: sample_deps_def)
  show ?thesis unfolding sample_wire backup_Export_def silent_steps(1) sum.case d reading_def and_then_def silent_steps(2-5) prod.case option.case
    by (simp add: and_then_def silent_steps effect_def ret_def)
qed

theorem export_complete_witness:
  "\<exists>d w'. backup_Export (backup_wire demo_settings) (User ''a'' ''u'' []) [] silent_world = (Inr (Some d), w') \<and>
     set (map zr_Zone (bk_Zones d)) = {z. stored silent_world (z_ID z) = Some z \<and> z_TenantID z = bk_TenantID d} \<and> stored w' = stored silent_world"
proof -
  obtain d w' where run: "backup_Export (backup_wire demo_settings) (User ''a'' ''u'' []) [] silent_world = (Inr (Some d), w')"
    using silent_Export by blast
  have r: "bk.restored demo_settings orphan_world t orphan_restored \<Longrightarrow> world_sound (x_unicode (cfg_Ext demo_settings)) orphan_restored" for t
    by (rule bk.restored_inv)
  have "world_sound (x_unicode (cfg_Ext demo_settings)) orphan_restored"
    by (rule bk.Import_restored [OF _ _ sound_orphan sample_Import]) (use demo_laws r in auto)
  then have ok: "world_sound (x_unicode (cfg_Ext demo_settings)) silent_world"
    by (simp add: world_inv_def sound_server_def silent_world_def honest_def fake_ok_def)
  show ?thesis using export_complete [OF ok run] run by blast
qed

end
